theory Spec2Isabelle
  imports Complex_Main "HOL-Library.Multiset" "HOL-Library.Sublist"
begin

section \<open>Hardware-aligned tile configurations\<close>

text \<open>
  \<^verbatim>\<open>class HwAlignedConfig\<close> of \<^verbatim>\<open>hw_aligned_config.h\<close>. The \<^verbatim>\<open>int\<close> fields are
  integers, which the filters reduce to the range of the machine type where they
  multiply them; the \<^verbatim>\<open>double\<close> fields are only compared, and hold the real number
  that the \<^verbatim>\<open>double\<close> denotes.
\<close>

record HwAlignedConfig =
  space_tiles :: "int list list"
  reduce_tiles :: "int list list"
  k_threshold :: "real list"
  compute_intensive_ratio :: "real list"
  single_thread_reg_usage :: int
  space_production_threshold :: int
  smem_usage :: int
  threads_num :: int

text \<open>
  \<^verbatim>\<open>operator<\<close> walks the rows of \<^verbatim>\<open>this\<close> and reads the other config at the same
  indices. The first differing entry decides; a row of \<^verbatim>\<open>this\<close> that is exhausted goes
  on to the next row. Reading the other config past its end is an out-of-bounds read of a
  \<^verbatim>\<open>std::vector\<close>, which the model reports instead of inventing a value.
\<close>

datatype scan = Decided bool | Undecided | OutOfBounds

fun scan_row :: "int list \<Rightarrow> int list \<Rightarrow> scan" where
  "scan_row [] ys = Undecided"
| "scan_row (x # xs) [] = OutOfBounds"
| "scan_row (x # xs) (y # ys) =
     (if x < y then Decided True
      else if x > y then Decided False
      else scan_row xs ys)"

fun scan_tiles :: "int list list \<Rightarrow> int list list \<Rightarrow> scan" where
  "scan_tiles [] yss = Undecided"
| "scan_tiles (xs # xss) [] = (if xs = [] then scan_tiles xss [] else OutOfBounds)"
| "scan_tiles (xs # xss) (ys # yss) =
     (case scan_row xs ys of
        Undecided \<Rightarrow> scan_tiles xss yss
      | r \<Rightarrow> r)"

text \<open>The result is \<open>None\<close> exactly when the comparison reads out of bounds.\<close>

definition config_less :: "HwAlignedConfig \<Rightarrow> HwAlignedConfig \<Rightarrow> bool option" where
  "config_less this config =
     (case scan_tiles (space_tiles this) (space_tiles config) of
        Decided b \<Rightarrow> Some b
      | OutOfBounds \<Rightarrow> None
      | Undecided \<Rightarrow>
          (case scan_tiles (reduce_tiles this) (reduce_tiles config) of
             Decided b \<Rightarrow> Some b
           | OutOfBounds \<Rightarrow> None
           | Undecided \<Rightarrow> Some False))"

text \<open>Configs built for the same task have tile lists of the same shape.\<close>

definition same_shape :: "HwAlignedConfig \<Rightarrow> HwAlignedConfig \<Rightarrow> bool" where
  "same_shape a b \<longleftrightarrow>
     map length (space_tiles a) = map length (space_tiles b) \<and>
     map length (reduce_tiles a) = map length (reduce_tiles b)"

text \<open>A config with the given tiles and no derived values, for concrete evaluation.\<close>

definition tiles_config :: "int list list \<Rightarrow> int list list \<Rightarrow> HwAlignedConfig" where
  "tiles_config sp rd =
     \<lparr>space_tiles = sp, reduce_tiles = rd, k_threshold = [], compute_intensive_ratio = [],
      single_thread_reg_usage = 0, space_production_threshold = 0, smem_usage = 0,
      threads_num = 0\<rparr>"

text \<open>The flattened key that the comparison reads: all space tiles, then all reduce tiles.\<close>

definition flat_tiles :: "HwAlignedConfig \<Rightarrow> int list" where
  "flat_tiles c = concat (space_tiles c) @ concat (reduce_tiles c)"

section \<open>Errors\<close>

text \<open>
  What can stop a run: a failed \<^verbatim>\<open>CHECK\<close>/\<^verbatim>\<open>ICHECK\<close>, \<^verbatim>\<open>value()\<close> of an
  empty \<^verbatim>\<open>Optional\<close> (or an expression that has no integer value), an index past the
  end of an array, an integer division by zero, the use of an undefined state handle, and
  \<^verbatim>\<open>std::length_error\<close> from a \<^verbatim>\<open>reserve\<close> of more elements than a vector can have.
\<close>

datatype error =
  CheckFailed | NoValue | OutOfBoundsRead | DivisionByZero | NullState | LengthError

section \<open>Machine numbers\<close>

subsection \<open>Integers\<close>

text \<open>
  Integer values are kept as mathematical integers and every operation that can leave the
  range of its C++ type is followed by the reduction into that range: \<^verbatim>\<open>size_t\<close> is
  64 bits unsigned, \<^verbatim>\<open>int64_t\<close> 64 bits signed and \<^verbatim>\<open>int\<close> 32 bits signed. For the
  signed types the language leaves an overflow undefined; the model takes the
  two's-complement result that the machine instructions give.
\<close>

definition size_t_of :: "int \<Rightarrow> nat" where
  "size_t_of i = nat (i mod 2 ^ 64)"

definition size_t_mul :: "nat \<Rightarrow> nat \<Rightarrow> nat" where
  "size_t_mul a b = (a * b) mod 2 ^ 64"

definition wrap_s64 :: "int \<Rightarrow> int" where
  "wrap_s64 i = (i + 2 ^ 63) mod 2 ^ 64 - 2 ^ 63"

definition wrap_s32 :: "int \<Rightarrow> int" where
  "wrap_s32 i = (i + 2 ^ 31) mod 2 ^ 32 - 2 ^ 31"

subsection \<open>Floating-point numbers\<close>

text \<open>
  A \<^verbatim>\<open>float\<close> or \<^verbatim>\<open>double\<close> is a real number that the format can represent, an infinity
  or NaN. The sign of a zero is not kept, and a zero divisor counts as positive: in the
  filters a zero divisor comes from the conversion of an integer or from a sum, and is
  positive in the machine as well.
\<close>

datatype fp = Finite real | PosInf | NegInf | NaN

text \<open>Rounding to the nearest integer, a tie going to the even one.\<close>

definition rne :: "real \<Rightarrow> int" where
  "rne x =
     (let n = \<lfloor>x\<rfloor>; d = x - of_int n
      in if d < 1 / 2 then n else if 1 / 2 < d then n + 1 else if even n then n else n + 1)"

text \<open>
  Rounding a real number to the binary format with \<open>p\<close> significant bits and largest
  exponent \<open>emax\<close>, as IEEE 754 does in its default mode: the result is the multiple of
  the unit in the last place nearest to \<open>x\<close> (the unit does not shrink below that of the
  smallest normal number), and a result beyond the largest number of the format is an
  infinity.
\<close>

definition round_to :: "nat \<Rightarrow> int \<Rightarrow> real \<Rightarrow> fp" where
  "round_to p emax x =
     (if x = 0 then Finite 0
      else
        let e = max \<lfloor>log 2 \<bar>x\<bar>\<rfloor> (1 - emax);
            u = 2 powi (e - int p + 1);
            r = of_int (rne (x / u)) * u
        in if 2 powi (emax + 1) \<le> \<bar>r\<bar> then (if 0 < x then PosInf else NegInf)
           else Finite r)"

definition to_float :: "real \<Rightarrow> fp" where
  "to_float = round_to 24 127"

definition to_double :: "real \<Rightarrow> fp" where
  "to_double = round_to 53 1023"

text \<open>
  The arithmetic operations take the rounding of the format in which the operation is
  carried out; every operation rounds once.
\<close>

fun fp_sgn :: "fp \<Rightarrow> real" where
  "fp_sgn (Finite a) = sgn a"
| "fp_sgn PosInf = 1"
| "fp_sgn NegInf = - 1"
| "fp_sgn NaN = 0"

fun fp_neg :: "fp \<Rightarrow> fp" where
  "fp_neg (Finite a) = Finite (- a)"
| "fp_neg PosInf = NegInf"
| "fp_neg NegInf = PosInf"
| "fp_neg NaN = NaN"

fun fp_add :: "(real \<Rightarrow> fp) \<Rightarrow> fp \<Rightarrow> fp \<Rightarrow> fp" where
  "fp_add rnd (Finite a) (Finite b) = rnd (a + b)"
| "fp_add rnd NaN y = NaN"
| "fp_add rnd x NaN = NaN"
| "fp_add rnd PosInf NegInf = NaN"
| "fp_add rnd NegInf PosInf = NaN"
| "fp_add rnd PosInf y = PosInf"
| "fp_add rnd NegInf y = NegInf"
| "fp_add rnd x PosInf = PosInf"
| "fp_add rnd x NegInf = NegInf"

definition fp_sub :: "(real \<Rightarrow> fp) \<Rightarrow> fp \<Rightarrow> fp \<Rightarrow> fp" where
  "fp_sub rnd x y = fp_add rnd x (fp_neg y)"

fun fp_mul :: "(real \<Rightarrow> fp) \<Rightarrow> fp \<Rightarrow> fp \<Rightarrow> fp" where
  "fp_mul rnd (Finite a) (Finite b) = rnd (a * b)"
| "fp_mul rnd NaN y = NaN"
| "fp_mul rnd x NaN = NaN"
| "fp_mul rnd x y =
     (if fp_sgn x * fp_sgn y = 0 then NaN
      else if 0 < fp_sgn x * fp_sgn y then PosInf else NegInf)"

fun fp_div :: "(real \<Rightarrow> fp) \<Rightarrow> fp \<Rightarrow> fp \<Rightarrow> fp" where
  "fp_div rnd (Finite a) (Finite b) =
     (if b \<noteq> 0 then rnd (a / b)
      else if 0 < a then PosInf else if a < 0 then NegInf else NaN)"
| "fp_div rnd NaN y = NaN"
| "fp_div rnd x NaN = NaN"
| "fp_div rnd (Finite a) y = Finite 0"
| "fp_div rnd x (Finite b) =
     (if (0 < fp_sgn x) = (0 \<le> b) then PosInf else NegInf)"
| "fp_div rnd x y = NaN"

text \<open>Conversion of a value to a narrower format.\<close>

fun fp_cast :: "(real \<Rightarrow> fp) \<Rightarrow> fp \<Rightarrow> fp" where
  "fp_cast rnd (Finite a) = rnd a"
| "fp_cast rnd x = x"

text \<open>Comparisons follow IEEE: a comparison with NaN is false.\<close>

fun fp_lt :: "fp \<Rightarrow> fp \<Rightarrow> bool" where
  "fp_lt NaN y = False"
| "fp_lt x NaN = False"
| "fp_lt (Finite a) (Finite b) = (a < b)"
| "fp_lt (Finite a) PosInf = True"
| "fp_lt NegInf (Finite b) = True"
| "fp_lt NegInf PosInf = True"
| "fp_lt x y = False"

definition fp_gt :: "fp \<Rightarrow> fp \<Rightarrow> bool" where
  "fp_gt x y = fp_lt y x"

section \<open>Candidate states, the task and the hardware descriptor\<close>

type_synonym wkl_inst = "int list"

text \<open>
  A transform step. The code at hand inspects split steps and recognises reduction-factor
  steps; every other kind of step is \<open>OtherStep\<close>. The extent of a split step is an
  expression over the shape variables, which the filters evaluate at a workload instance
  (\<open>None\<close>: no extent, an unmapped shape variable, or not an integer constant); its
  lengths are optional integers.
\<close>

datatype Step =
    SplitStep (stage_id: int) (iter_id: int) (extent: "wkl_inst \<Rightarrow> int option")
      (lengths: "int option list") (inner_to_outer: bool)
  | RfactorStep
  | OtherStep

record State =
  transform_steps :: "Step list"
  stages_size :: nat

record HardwareAPI =
  warp_size :: int
  compute_sm_partition :: "int list"
  smem_sm_partition :: "int list"
  glbmem_sm_partition :: "int list"
  max_smem_usage_per_sm :: int
  max_reg_per_sm :: int
  lt_ratio :: fp
  gt_ratio :: fp

record SearchTask =
  hardware_api :: HardwareAPI
  num_cores :: int
  shape_vars :: "string list option"
  wkl_insts :: "wkl_inst list"
  wkl_inst_weights :: "real list"

text \<open>
  \<^verbatim>\<open>floor_div\<close> and \<open>floor_by\<close> come from \<^verbatim>\<open>utils.h\<close>, which is not part of the
  sources at hand; the filters take them as parameters.
\<close>

record utils =
  floor_div :: "int \<Rightarrow> int \<Rightarrow> int"
  floor_by :: "int \<Rightarrow> int \<Rightarrow> int"

text \<open>Bounds-checked read of a \<^verbatim>\<open>runtime::Array\<close>.\<close>

definition array_at :: "'a list \<Rightarrow> nat \<Rightarrow> error + 'a" where
  "array_at xs i = (if i < length xs then Inr (xs ! i) else Inl OutOfBoundsRead)"

text \<open>A loop whose body may stop the run: the first failure wins.\<close>

fun map_err :: "('a \<Rightarrow> error + 'b) \<Rightarrow> 'a list \<Rightarrow> error + 'b list" where
  "map_err f [] = Inr []"
| "map_err f (x # xs) =
     (case f x of
        Inl e \<Rightarrow> Inl e
      | Inr y \<Rightarrow> (case map_err f xs of Inl e \<Rightarrow> Inl e | Inr ys \<Rightarrow> Inr (y # ys)))"

text \<open>
  Every filter that reads the shape variables starts the same way:
  \<^verbatim>\<open>task->shape_vars.value()\<close> and \<^verbatim>\<open>CHECK(shape_vars.size() == wkl_inst.size())\<close>.
\<close>

definition check_shape_vars :: "SearchTask \<Rightarrow> wkl_inst \<Rightarrow> error + unit" where
  "check_shape_vars task wkl_inst =
     (case shape_vars task of
        None \<Rightarrow> Inl NoValue
      | Some vars \<Rightarrow> if length vars = length wkl_inst then Inr () else Inl CheckFailed)"

text \<open>
  The common tail of the filters: walk the validity flags and push the state and the
  config of every index whose flag is set. Only the states of flagged indices are read.
\<close>

definition keep_valid ::
  "bool list \<Rightarrow> 'c list \<Rightarrow> 's list \<Rightarrow> error + ('c list \<times> 's list)" where
  "keep_valid valid_states configs cand_states =
     (if list_ex (\<lambda>(v, i). v \<and> length cand_states \<le> i)
           (zip valid_states [0 ..< length configs])
      then Inl OutOfBoundsRead
      else
        let kept = map snd (filter fst (zip valid_states (zip configs cand_states)))
        in Inr (map fst kept, map snd kept))"

section \<open>The ranking and pruning filters\<close>

subsection \<open>ThreadsNumberFilter\<close>

definition threads_aligned :: "SearchTask \<Rightarrow> HwAlignedConfig \<Rightarrow> error + bool" where
  "threads_aligned task c =
     (case array_at (compute_sm_partition (hardware_api task)) 1 of
        Inl e \<Rightarrow> Inl e
      | Inr part \<Rightarrow>
          let divisor = wrap_s64 (warp_size (hardware_api task) * part)
          in if divisor = 0 then Inl DivisionByZero
             else Inr (threads_num c mod divisor = 0))"

definition ThreadsNumberFilter ::
  "SearchTask \<Rightarrow> HwAlignedConfig list \<Rightarrow> 's list \<Rightarrow>
   error + (HwAlignedConfig list \<times> 's list)" where
  "ThreadsNumberFilter task configs cand_states =
     (case map_err (threads_aligned task) configs of
        Inl e \<Rightarrow> Inl e
      | Inr valid_states \<Rightarrow> keep_valid valid_states configs cand_states)"

subsection \<open>Grid size of a candidate\<close>

text \<open>
  The product of the lengths of a split step, accumulated in an \<^verbatim>\<open>int64_t\<close>
  starting from 1.
\<close>

definition split_length :: "int list \<Rightarrow> int" where
  "split_length ls = fold (\<lambda>len acc. wrap_s64 (acc * len)) ls 1"

text \<open>
  The product, over the split steps with exactly three lengths, of
  \<^verbatim>\<open>floor_div(extent, split_length)\<close>, each ratio checked to be at least one. The ratio
  and the product are \<^verbatim>\<open>size_t\<close>.
\<close>

fun grid_size_steps :: "utils \<Rightarrow> wkl_inst \<Rightarrow> Step list \<Rightarrow> nat \<Rightarrow> error + nat" where
  "grid_size_steps U inst [] grid_size = Inr grid_size"
| "grid_size_steps U inst (OtherStep # steps) grid_size =
     grid_size_steps U inst steps grid_size"
| "grid_size_steps U inst (RfactorStep # steps) grid_size =
     grid_size_steps U inst steps grid_size"
| "grid_size_steps U inst (SplitStep sid iid ext lens i2o # steps) grid_size =
     (if length lens = 3 then
        (case ext inst of
           None \<Rightarrow> Inl NoValue
         | Some e \<Rightarrow>
             (case those lens of
                None \<Rightarrow> Inl NoValue
              | Some ls \<Rightarrow>
                  let extent_ratio = size_t_of (floor_div U e (split_length ls))
                  in if 1 \<le> extent_ratio
                     then grid_size_steps U inst steps (size_t_mul grid_size extent_ratio)
                     else Inl CheckFailed))
      else grid_size_steps U inst steps grid_size)"

definition state_grid_size :: "utils \<Rightarrow> wkl_inst \<Rightarrow> State option \<Rightarrow> error + nat" where
  "state_grid_size U inst st =
     (case st of
        None \<Rightarrow> Inl NullState
      | Some s \<Rightarrow> grid_size_steps U inst (transform_steps s) 1)"

subsection \<open>OccupancyFilter\<close>

text \<open>
  The penalty of a grid size is computed in \<^verbatim>\<open>float\<close>: the grid size and the result of
  \<open>floor_by\<close> are converted to \<^verbatim>\<open>float\<close>, and each of the five operations rounds.
\<close>

definition occupancy_penalty :: "utils \<Rightarrow> SearchTask \<Rightarrow> nat \<Rightarrow> fp" where
  "occupancy_penalty U task g =
     (let coeff = (if g < size_t_of (num_cores task)
                   then lt_ratio (hardware_api task) else gt_ratio (hardware_api task));
          grid = to_float (real g)
      in fp_div to_float (fp_mul to_float coeff grid)
           (fp_add to_float (fp_mul to_float (fp_sub to_float coeff (Finite 1)) grid)
              (to_float (real_of_int (floor_by U (int g) (num_cores task))))))"

text \<open>
  The threshold after \<open>k\<close> relaxations. The variable is a \<^verbatim>\<open>float\<close> initialised with
  the \<^verbatim>\<open>double\<close> literal 0.95; \<^verbatim>\<open>occupancy_ratio -= 0.05\<close> subtracts the
  \<^verbatim>\<open>double\<close> literal 0.05 in \<^verbatim>\<open>double\<close> and converts the difference back to
  \<^verbatim>\<open>float\<close>.
\<close>

fun occupancy_ratio :: "nat \<Rightarrow> fp" where
  "occupancy_ratio 0 = fp_cast to_float (to_double (95 / 100))"
| "occupancy_ratio (Suc k) =
     fp_cast to_float (fp_sub to_double (occupancy_ratio k) (to_double (5 / 100)))"

definition sm_multiple :: "utils \<Rightarrow> int \<Rightarrow> nat \<Rightarrow> nat" where
  "sm_multiple U glb0 g = size_t_of (floor_div U (int g) glb0)"

text \<open>
  The loop over \<open>sm_times\<close>: while the counter is at most \<open>max_sm_times\<close>, the body
  \<open>push\<close> appends the candidates of this SM multiple and the counter is incremented. The
  counter is a \<^verbatim>\<open>size_t\<close> and wraps to 0 after \<open>2^64 - 1\<close>, so the loop is a partial
  function: \<open>None\<close> is a run that never leaves it.
\<close>

partial_function (option) sm_times_loop ::
  "(nat \<Rightarrow> 'p list) \<Rightarrow> nat \<Rightarrow> nat \<Rightarrow> 'p list \<Rightarrow> 'p list option" where
  "sm_times_loop push max_sm_times sm_times filtered =
     (if sm_times \<le> max_sm_times
      then sm_times_loop push max_sm_times (size_t_of (int sm_times + 1))
             (filtered @ push sm_times)
      else Some filtered)"

text \<open>
  One pass of the two inner loops at threshold number \<open>k\<close>: for every \<open>sm_times\<close> from
  \<^verbatim>\<open>smem_sm_partition[1]\<close> on, every index whose SM multiple equals \<open>sm_times\<close> and
  whose penalty exceeds the threshold is pushed, in index order. The candidates are listed
  with their grid sizes, \<open>(grid size, (config, state))\<close>.
\<close>

definition occupancy_pass ::
  "utils \<Rightarrow> SearchTask \<Rightarrow> int \<Rightarrow> nat \<Rightarrow> nat \<Rightarrow> (nat \<times> 'p) list \<Rightarrow> nat \<Rightarrow>
   (nat \<times> 'p) list option" where
  "occupancy_pass U task glb0 first_sm max_sm_times graded k =
     sm_times_loop
       (\<lambda>sm_times.
          filter
            (\<lambda>gp. sm_multiple U glb0 (fst gp) = sm_times \<and>
                  fp_gt (occupancy_penalty U task (fst gp)) (occupancy_ratio k))
            graded)
       max_sm_times first_sm []"

text \<open>
  The outer loop runs while nothing has been pushed, and lowers the threshold after every
  pass. It has no bound of its own, so it is a partial function as well.
\<close>

partial_function (option) occupancy_while ::
  "(nat \<Rightarrow> 'p list option) \<Rightarrow> 'p list \<Rightarrow> nat \<Rightarrow> 'p list option" where
  "occupancy_while pass filtered k =
     (if filtered = []
      then (case pass k of
              None \<Rightarrow> None
            | Some pushed \<Rightarrow> occupancy_while pass (filtered @ pushed) (Suc k))
      else Some filtered)"

definition OccupancyFilter ::
  "utils \<Rightarrow> SearchTask \<Rightarrow> HwAlignedConfig list \<Rightarrow> State option list \<Rightarrow> wkl_inst \<Rightarrow>
   (error + (HwAlignedConfig list \<times> State option list)) option" where
  "OccupancyFilter U task configs cand_states wkl_inst =
     (case check_shape_vars task wkl_inst of
        Inl e \<Rightarrow> Some (Inl e)
      | Inr _ \<Rightarrow>
          if length cand_states < length configs then Some (Inl OutOfBoundsRead)
          else
            (case map_err (state_grid_size U wkl_inst) (take (length configs) cand_states) of
               Inl e \<Rightarrow> Some (Inl e)
             | Inr states_grid_size \<Rightarrow>
                 (case array_at (glbmem_sm_partition (hardware_api task)) 0 of
                    Inl e \<Rightarrow> Some (Inl e)
                  | Inr glb0 \<Rightarrow>
                      (case array_at (smem_sm_partition (hardware_api task)) 1 of
                         Inl e \<Rightarrow> Some (Inl e)
                       | Inr smem1 \<Rightarrow>
                           map_option (\<lambda>kept. Inr (map (fst \<circ> snd) kept, map (snd \<circ> snd) kept))
                             (occupancy_while
                                (occupancy_pass U task glb0 (size_t_of smem1)
                                   (size_t_of (floor_div U (int (fold max states_grid_size 0)) glb0))
                                   (zip states_grid_size (zip configs cand_states)))
                                [] 0)))))"

subsection \<open>RegisterLaunchBoundsFilter and SharedMemoryLaunchBoundsFilter\<close>

definition blocks_in_sm :: "utils \<Rightarrow> SearchTask \<Rightarrow> nat \<Rightarrow> error + nat" where
  "blocks_in_sm U task grid_size =
     (case array_at (smem_sm_partition (hardware_api task)) 1 of
        Inl e \<Rightarrow> Inl e
      | Inr smem1 \<Rightarrow>
          (case array_at (smem_sm_partition (hardware_api task)) 0 of
             Inl e \<Rightarrow> Inl e
           | Inr smem0 \<Rightarrow>
               Inr (min (size_t_of smem1) (size_t_of (floor_div U (int grid_size) smem0)))))"

definition first_reduce_tile :: "HwAlignedConfig \<Rightarrow> error + int" where
  "first_reduce_tile c =
     (case reduce_tiles c of
        [] \<Rightarrow> Inl OutOfBoundsRead
      | row # _ \<Rightarrow> (case row of [] \<Rightarrow> Inl OutOfBoundsRead | t # _ \<Rightarrow> Inr t))"

text \<open>
  The register test. \<^verbatim>\<open>blocks_in_sm * threads_num\<close> is a \<^verbatim>\<open>size_t\<close> product (the
  \<^verbatim>\<open>int\<close> is converted first), the two products of register usage are \<^verbatim>\<open>int\<close>
  products, and everything else is \<^verbatim>\<open>double\<close> arithmetic.
\<close>

definition register_bounds_ok ::
  "utils \<Rightarrow> SearchTask \<Rightarrow> wkl_inst \<Rightarrow> int \<Rightarrow> HwAlignedConfig \<times> State option \<Rightarrow> error + bool" where
  "register_bounds_ok U task inst sch_base cs =
     (case state_grid_size U inst (snd cs) of
        Inl e \<Rightarrow> Inl e
      | Inr grid_size \<Rightarrow>
          (case blocks_in_sm U task grid_size of
             Inl e \<Rightarrow> Inl e
           | Inr blocks \<Rightarrow>
               (case first_reduce_tile (fst cs) of
                  Inl e \<Rightarrow> Inl e
                | Inr r00 \<Rightarrow>
                    let reg = single_thread_reg_usage (fst cs);
                        extra =
                          fp_div to_double
                            (fp_mul to_double (to_double (real_of_int (wrap_s32 (reg * r00))))
                               (Finite 1))
                            (Finite 16);
                        threads = size_t_mul blocks (size_t_of (threads_num (fst cs)))
                    in Inr (fp_lt
                              (fp_mul to_double (to_double (real threads))
                                 (fp_add to_double (to_double (real_of_int reg)) extra))
                              (to_double (real_of_int (max_reg_per_sm (hardware_api task)))) \<and>
                            fp_lt
                              (fp_add to_double
                                 (to_double (real_of_int (wrap_s32 (reg * sch_base)))) extra)
                              (Finite 255)))))"

definition RegisterLaunchBoundsFilter ::
  "utils \<Rightarrow> SearchTask \<Rightarrow> HwAlignedConfig list \<Rightarrow> State option list \<Rightarrow> wkl_inst \<Rightarrow>
   error + (HwAlignedConfig list \<times> State option list)" where
  "RegisterLaunchBoundsFilter U task configs cand_states wkl_inst =
     (case shape_vars task of
        None \<Rightarrow> Inl NoValue
      | Some vars \<Rightarrow>
          (case cand_states of
             [] \<Rightarrow> Inl OutOfBoundsRead
           | None # _ \<Rightarrow> Inl NullState
           | Some s0 # _ \<Rightarrow>
               if length vars \<noteq> length wkl_inst then Inl CheckFailed
               else if length cand_states < length configs then Inl OutOfBoundsRead
               else
                 (case map_err
                         (register_bounds_ok U task wkl_inst (if 7 < stages_size s0 then 2 else 1))
                         (zip configs cand_states) of
                    Inl e \<Rightarrow> Inl e
                  | Inr valid_states \<Rightarrow> keep_valid valid_states configs cand_states)))"

text \<open>
  The shared-memory test multiplies and compares in \<^verbatim>\<open>size_t\<close>: both \<^verbatim>\<open>int\<close>
  operands are converted to \<^verbatim>\<open>size_t\<close> first.
\<close>

definition smem_bounds_ok ::
  "utils \<Rightarrow> SearchTask \<Rightarrow> wkl_inst \<Rightarrow> HwAlignedConfig \<times> State option \<Rightarrow> error + bool" where
  "smem_bounds_ok U task inst cs =
     (case state_grid_size U inst (snd cs) of
        Inl e \<Rightarrow> Inl e
      | Inr grid_size \<Rightarrow>
          (case blocks_in_sm U task grid_size of
             Inl e \<Rightarrow> Inl e
           | Inr blocks \<Rightarrow>
               let used = size_t_mul blocks (size_t_of (smem_usage (fst cs)));
                   limit = size_t_of (max_smem_usage_per_sm (hardware_api task));
                   valid = (used < limit)
               in Inr (if limit < used then False else valid)))"

definition SharedMemoryLaunchBoundsFilter ::
  "utils \<Rightarrow> SearchTask \<Rightarrow> HwAlignedConfig list \<Rightarrow> State option list \<Rightarrow> wkl_inst \<Rightarrow>
   error + (HwAlignedConfig list \<times> State option list)" where
  "SharedMemoryLaunchBoundsFilter U task configs cand_states wkl_inst =
     (case check_shape_vars task wkl_inst of
        Inl e \<Rightarrow> Inl e
      | Inr _ \<Rightarrow>
          if length cand_states < length configs then Inl OutOfBoundsRead
          else
            (case map_err (smem_bounds_ok U task wkl_inst) (zip configs cand_states) of
               Inl e \<Rightarrow> Inl e
             | Inr valid_states \<Rightarrow> keep_valid valid_states configs cand_states))"

subsection \<open>PaddingFilter and its relaxation loop\<close>

text \<open>
  The penalty is a \<^verbatim>\<open>float\<close> that starts at 1 and is multiplied, for every split step
  with two or three lengths, by \<^verbatim>\<open>extent * 1. / floor_by(extent, split_length)\<close>: the
  quotient is computed in \<^verbatim>\<open>double\<close> and converted to \<^verbatim>\<open>float\<close>, the product is a
  \<^verbatim>\<open>float\<close> product.
\<close>

definition padding_ratio :: "utils \<Rightarrow> int \<Rightarrow> int \<Rightarrow> fp" where
  "padding_ratio U e len =
     fp_cast to_float
       (fp_div to_double (fp_mul to_double (to_double (real_of_int e)) (Finite 1))
          (to_double (real_of_int (floor_by U e len))))"

fun padding_penalty_steps :: "utils \<Rightarrow> wkl_inst \<Rightarrow> Step list \<Rightarrow> fp \<Rightarrow> error + fp" where
  "padding_penalty_steps U inst [] padding_penalty = Inr padding_penalty"
| "padding_penalty_steps U inst (OtherStep # steps) padding_penalty =
     padding_penalty_steps U inst steps padding_penalty"
| "padding_penalty_steps U inst (RfactorStep # steps) padding_penalty =
     padding_penalty_steps U inst steps padding_penalty"
| "padding_penalty_steps U inst (SplitStep sid iid ext lens i2o # steps) padding_penalty =
     (if length lens = 3 \<or> length lens = 2 then
        (case ext inst of
           None \<Rightarrow> Inl NoValue
         | Some e \<Rightarrow>
             (case those lens of
                None \<Rightarrow> Inl NoValue
              | Some ls \<Rightarrow>
                  padding_penalty_steps U inst steps
                    (fp_mul to_float padding_penalty (padding_ratio U e (split_length ls)))))
      else padding_penalty_steps U inst steps padding_penalty)"

definition state_padding_penalty :: "utils \<Rightarrow> wkl_inst \<Rightarrow> State option \<Rightarrow> error + fp" where
  "state_padding_penalty U inst st =
     (case st of
        None \<Rightarrow> Inl NullState
      | Some s \<Rightarrow> padding_penalty_steps U inst (transform_steps s) (Finite 1))"

definition PaddingFilter ::
  "utils \<Rightarrow> SearchTask \<Rightarrow> HwAlignedConfig list \<Rightarrow> State option list \<Rightarrow> wkl_inst \<Rightarrow> fp \<Rightarrow>
   error + (HwAlignedConfig list \<times> State option list)" where
  "PaddingFilter U task configs cand_states wkl_inst padding_penalty_threshold =
     (case check_shape_vars task wkl_inst of
        Inl e \<Rightarrow> Inl e
      | Inr _ \<Rightarrow>
          if length cand_states < length configs then Inl OutOfBoundsRead
          else
            (case map_err (state_padding_penalty U wkl_inst) (take (length configs) cand_states) of
               Inl e \<Rightarrow> Inl e
             | Inr penalties \<Rightarrow>
                 keep_valid (map (\<lambda>p. fp_gt p padding_penalty_threshold) penalties)
                   configs cand_states))"

text \<open>
  The loop of \<^verbatim>\<open>EfficientSearch\<close> around \<^verbatim>\<open>PaddingFilter\<close>: filter, stop when something
  survives, otherwise restore the input and lower the threshold by 0.05. It is
  \<^verbatim>\<open>while (true)\<close> in the source, so again a partial function. The threshold is a
  \<^verbatim>\<open>double\<close>, and the filter compares the \<^verbatim>\<open>float\<close> penalty with it in
  \<^verbatim>\<open>double\<close>.
\<close>

fun padding_threshold :: "nat \<Rightarrow> fp" where
  "padding_threshold 0 = to_double (95 / 100)"
| "padding_threshold (Suc k) = fp_sub to_double (padding_threshold k) (to_double (5 / 100))"

partial_function (option) padding_relax ::
  "utils \<Rightarrow> SearchTask \<Rightarrow> HwAlignedConfig list \<Rightarrow> State option list \<Rightarrow> wkl_inst \<Rightarrow> nat \<Rightarrow>
   (error + (HwAlignedConfig list \<times> State option list)) option" where
  "padding_relax U task inst_cand_configs inst_cand_states wkl_inst k =
     (case PaddingFilter U task inst_cand_configs inst_cand_states wkl_inst (padding_threshold k) of
        Inl e \<Rightarrow> Some (Inl e)
      | Inr (cs, ss) \<Rightarrow>
          if 0 < length cs then Some (Inr (cs, ss))
          else padding_relax U task inst_cand_configs inst_cand_states wkl_inst (Suc k))"

subsection \<open>The compute-intensity filters\<close>

text \<open>
  Both filters pair every config with its index, sort the pairs with \<^verbatim>\<open>std::sort\<close> by
  descending \<^verbatim>\<open>compute_intensive_ratio\<close> at one level, and keep the first 20 (level 0)
  or 10 (level 1), reading each state back through its index. \<^verbatim>\<open>std::sort\<close> is a
  library routine and a parameter here (\<open>std_sort key xs\<close> sorts \<open>xs\<close> by descending
  \<open>key\<close>); the order it gives to equal keys is unspecified. Sorting two or more
  elements reads the ratio of each of them.
\<close>

definition top_by_ratio ::
  "((HwAlignedConfig \<times> nat \<Rightarrow> real) \<Rightarrow> (HwAlignedConfig \<times> nat) list \<Rightarrow> (HwAlignedConfig \<times> nat) list) \<Rightarrow>
   nat \<Rightarrow> nat \<Rightarrow> HwAlignedConfig list \<Rightarrow> 's list \<Rightarrow> error + (HwAlignedConfig list \<times> 's list)" where
  "top_by_ratio std_sort level limit configs cand_states =
     (if 2 \<le> length configs \<and>
         list_ex (\<lambda>c. length (compute_intensive_ratio c) \<le> level) configs
      then Inl OutOfBoundsRead
      else
        let configs_for_sort =
              std_sort (\<lambda>ci. compute_intensive_ratio (fst ci) ! level)
                (zip configs [0 ..< length configs]);
            top = take (min limit (length configs_for_sort)) configs_for_sort
        in if list_ex (\<lambda>ci. length cand_states \<le> snd ci) top then Inl OutOfBoundsRead
           else Inr (map fst top, map (\<lambda>ci. cand_states ! snd ci) top))"

definition SharedMemoryComputeIntensiveFilter ::
  "((HwAlignedConfig \<times> nat \<Rightarrow> real) \<Rightarrow> (HwAlignedConfig \<times> nat) list \<Rightarrow> (HwAlignedConfig \<times> nat) list) \<Rightarrow>
   SearchTask \<Rightarrow> HwAlignedConfig list \<Rightarrow> 's list \<Rightarrow> error + (HwAlignedConfig list \<times> 's list)" where
  "SharedMemoryComputeIntensiveFilter std_sort task configs cand_states =
     top_by_ratio std_sort 0 20 configs cand_states"

definition RegComputeIntensiveFilter ::
  "((HwAlignedConfig \<times> nat \<Rightarrow> real) \<Rightarrow> (HwAlignedConfig \<times> nat) list \<Rightarrow> (HwAlignedConfig \<times> nat) list) \<Rightarrow>
   SearchTask \<Rightarrow> HwAlignedConfig list \<Rightarrow> 's list \<Rightarrow> wkl_inst \<Rightarrow>
   error + (HwAlignedConfig list \<times> 's list)" where
  "RegComputeIntensiveFilter std_sort task configs cand_states wkl_inst =
     top_by_ratio std_sort 1 10 configs cand_states"

text \<open>A sort that meets the contract of \<^verbatim>\<open>std::sort\<close>, for concrete evaluation.\<close>

fun insert_desc :: "('a \<Rightarrow> real) \<Rightarrow> 'a \<Rightarrow> 'a list \<Rightarrow> 'a list" where
  "insert_desc key x [] = [x]"
| "insert_desc key x (y # ys) =
     (if key y < key x then x # y # ys else y # insert_desc key x ys)"

fun sort_desc :: "('a \<Rightarrow> real) \<Rightarrow> 'a list \<Rightarrow> 'a list" where
  "sort_desc key [] = []"
| "sort_desc key (x # xs) = insert_desc key x (sort_desc key xs)"

section \<open>Library contracts and concrete inputs\<close>

text \<open>
  The contract of \<^verbatim>\<open>std::sort\<close> with a descending comparison on a key: the result is
  a permutation of the input, and no element is followed by one with a larger key.
\<close>

definition sort_contract :: "(('a \<Rightarrow> real) \<Rightarrow> 'a list \<Rightarrow> 'a list) \<Rightarrow> bool" where
  "sort_contract std_sort \<longleftrightarrow>
     (\<forall>key xs. mset (std_sort key xs) = mset xs \<and>
                sorted_wrt (\<lambda>a b. key b \<le> key a) (std_sort key xs))"

text \<open>
  One reading of \<^verbatim>\<open>utils.h\<close>, used only to evaluate examples: both helpers round up.
\<close>

definition ceil_utils :: utils where
  "ceil_utils =
     \<lparr>floor_div = (\<lambda>a b. (a + b - 1) div b),
      floor_by = (\<lambda>a b. ((a + b - 1) div b) * b)\<rparr>"

definition example_hw :: HardwareAPI where
  "example_hw =
     \<lparr>warp_size = 32, compute_sm_partition = [1, 4], smem_sm_partition = [1, 2],
      glbmem_sm_partition = [1, 80], max_smem_usage_per_sm = 98304, max_reg_per_sm = 65536,
      lt_ratio = Finite 1, gt_ratio = Finite 1\<rparr>"

definition example_task :: SearchTask where
  "example_task =
     \<lparr>hardware_api = example_hw, num_cores = 2, shape_vars = Some [''T''],
      wkl_insts = [[8]], wkl_inst_weights = [1]\<rparr>"

text \<open>A state with one split step of constant extent, and a config with given ratios.\<close>

definition split_state :: "int \<Rightarrow> int list \<Rightarrow> State" where
  "split_state e ls =
     \<lparr>transform_steps = [SplitStep 0 0 (\<lambda>inst. Some e) (map Some ls) True], stages_size = 1\<rparr>"

definition ratio_config :: "int \<Rightarrow> real list \<Rightarrow> HwAlignedConfig" where
  "ratio_config threads ratios =
     \<lparr>space_tiles = [[1]], reduce_tiles = [[1]], k_threshold = [],
      compute_intensive_ratio = ratios, single_thread_reg_usage = 1,
      space_production_threshold = 0, smem_usage = 1, threads_num = threads\<rparr>"

section \<open>The sketch policy and its collaborators\<close>

text \<open>
  The search stages do not look inside a schedule state, so the state is a type parameter
  \<open>'s\<close>; \<open>'g\<close> is the state of the random generator \<^verbatim>\<open>rand_gen\<close> and \<open>'m\<close> the state
  of the cost model. The mutable members of \<^verbatim>\<open>SketchPolicyNode\<close> that the stages read and
  write are threaded through every stage.
\<close>

record ('s, 'g, 'm) SketchPolicyNode =
  rand_gen :: 'g
  program_cost_model :: 'm
  sample_init_min_pop :: int
  sketch_cache :: "'s list"
  measured_states_set :: "string set"
  measured_states_vector :: "'s list"
  measured_states_throughputs :: "fp list"
  n_trials :: int
  num_measure_per_iter :: int
  curr_inst_opt_prob :: "real list"

text \<open>The tuning parameters read with \<^verbatim>\<open>GetIntParam\<close> and \<^verbatim>\<open>GetDoubleParam\<close>.\<close>

record SketchParams =
  population :: int
  mutation_prob :: real
  num_iters :: int
  eps_greedy :: real
  use_measured_ratio :: real
  empty_retry_count :: int

datatype ResultKind = kValid | kInvalid

text \<open>
  A population or mutation rule rewrites the state it is given and draws from the random
  generator it is given.
\<close>

record ('s, 'g) PopulationMutationRule =
  weight :: real
  Apply :: "'s \<Rightarrow> 'g \<Rightarrow> (ResultKind \<times> 's) \<times> 'g"

text \<open>
  Code of other translation units, taken as parameters: the canonical string of a state,
  bound inference, pruning, the cost model's predictions, the sampling helpers of
  \<^verbatim>\<open>utils.h\<close>, the uniform distribution \<^verbatim>\<open>dis\<close>, one draw from a generator
  (\<^verbatim>\<open>operator()\<close>), the construction of a generator from a seed, \<^verbatim>\<open>std::sort\<close> on
  the scored items, \<^verbatim>\<open>std::pow\<close> with its result stored as a \<^verbatim>\<open>float\<close>, and the
  runtime's choice of the address of a new state object, given the addresses in use.
\<close>

record ('s, 'g, 'm) collaborators =
  ToStr :: "'s \<Rightarrow> string"
  InferBound :: "'s list \<Rightarrow> 's list"
  PruneInvalidState :: "'s list \<Rightarrow> 's list"
  Predict :: "'m \<Rightarrow> 's list \<Rightarrow> real list"
  PredictForAllInstances :: "'m \<Rightarrow> 's list \<Rightarrow> real list"
  IsRandomModel :: "'m \<Rightarrow> bool"
  ComputePrefixSumProb :: "real list \<Rightarrow> real list"
  RandomChoose :: "real list \<Rightarrow> 'g \<Rightarrow> nat \<times> 'g"
  dis :: "'g \<Rightarrow> real \<times> 'g"
  draw :: "'g \<Rightarrow> nat \<times> 'g"
  mt19937 :: "nat \<Rightarrow> 'g"
  sort_heap :: "('s \<times> real \<Rightarrow> real) \<Rightarrow> ('s \<times> real) list \<Rightarrow> ('s \<times> real) list"
  pow_float :: "real \<Rightarrow> int \<Rightarrow> real"
  make_object :: "nat list \<Rightarrow> nat"

section \<open>EvolutionarySearch\<close>

subsection \<open>The retention heap\<close>

text \<open>
  \<^verbatim>\<open>heap\<close> is a vector kept in heap order by \<^verbatim>\<open>std::push_heap\<close> and
  \<^verbatim>\<open>std::pop_heap\<close> under \<^verbatim>\<open>cmp\<close>, which puts an entry of least score at the front.
  The model keeps the entries as a list and reads the front as a least entry
  (\<open>least_item x xs\<close> for the heap \<open>x # xs\<close>); which of several least entries is at the
  front depends on the heap layout, and the model takes the first of them.
\<close>

fun least_item :: "'s \<times> real \<Rightarrow> ('s \<times> real) list \<Rightarrow> 's \<times> real" where
  "least_item x [] = x"
| "least_item x (y # ys) = (if snd y < snd x then least_item y ys else least_item x ys)"

record 's retention =
  heap :: "('s \<times> real) list"
  in_heap :: "string set"
  max_score :: real

text \<open>
  The body of the loop over the current generation. Reading the front of an empty heap
  (possible only when \<open>out_size\<close> is not positive) is reported as an out-of-bounds read.
\<close>

definition maintain_heap ::
  "('s \<Rightarrow> string) \<Rightarrow> int \<Rightarrow> 's \<times> real \<Rightarrow> 's retention \<Rightarrow> error + 's retention" where
  "maintain_heap to_str out_size item r =
     (if to_str (fst item) \<notin> in_heap r then
        (if int (length (heap r)) < out_size then
           Inr (r\<lparr>heap := heap r @ [item],
                  in_heap := insert (to_str (fst item)) (in_heap r),
                  max_score := (if max_score r < snd item then snd item else max_score r)\<rparr>)
         else
           (case heap r of
              [] \<Rightarrow> Inl OutOfBoundsRead
            | x # xs \<Rightarrow>
                if snd (least_item x xs) < snd item then
                  Inr (r\<lparr>heap := remove1 (least_item x xs) (heap r) @ [item],
                         in_heap := insert (to_str (fst item))
                                      (in_heap r - {to_str (fst (least_item x xs))}),
                         max_score := (if max_score r < snd item then snd item else max_score r)\<rparr>)
                else
                  Inr (r\<lparr>max_score :=
                           (if max_score r < snd item then snd item else max_score r)\<rparr>)))
      else Inr r)"

fun maintain_heap_all ::
  "('s \<Rightarrow> string) \<Rightarrow> int \<Rightarrow> ('s \<times> real) list \<Rightarrow> 's retention \<Rightarrow> error + 's retention" where
  "maintain_heap_all to_str out_size [] r = Inr r"
| "maintain_heap_all to_str out_size (item # items) r =
     (case maintain_heap to_str out_size item r of
        Inl e \<Rightarrow> Inl e
      | Inr r' \<Rightarrow> maintain_heap_all to_str out_size items r')"

subsection \<open>Scoring a generation\<close>

text \<open>
  For a dynamic task the score of a state is the largest of its per-instance scores (and
  at least 0), raised to the power \<^verbatim>\<open>floor_div(n_trials, 100) + 1\<close>; the per-instance
  scores are a flat \<open>instances \<times> states\<close> array.
\<close>

definition dyn_pop_scores ::
  "utils \<Rightarrow> (real \<Rightarrow> int \<Rightarrow> real) \<Rightarrow> int \<Rightarrow> nat \<Rightarrow> nat \<Rightarrow> real list \<Rightarrow> error + real list" where
  "dyn_pop_scores U std_pow trials num_insts num_states all_scores =
     (if 0 < num_states \<and> length all_scores < num_insts * num_states then Inl OutOfBoundsRead
      else Inr (map (\<lambda>state_id.
                  std_pow
                    (fold (\<lambda>wkl_inst_id s. max s (all_scores ! (wkl_inst_id * num_states + state_id)))
                       [0 ..< num_insts] 0)
                    (floor_div U trials 100 + 1))
                [0 ..< num_states]))"

definition score_generation ::
  "utils \<Rightarrow> ('s, 'g, 'm) collaborators \<Rightarrow> bool \<Rightarrow> nat \<Rightarrow> 'm \<Rightarrow> int \<Rightarrow> 's list \<Rightarrow>
   error + ('s list \<times> real list)" where
  "score_generation U E is_dyn num_insts model trials pnow =
     (let pruned = PruneInvalidState E (InferBound E pnow) in
      if is_dyn then
        (case dyn_pop_scores U (pow_float E) trials num_insts (length pruned)
                (PredictForAllInstances E model pruned) of
           Inl e \<Rightarrow> Inl e
         | Inr pop_scores \<Rightarrow> Inr (pruned, pop_scores))
      else
        (let pop_scores = Predict E model pruned in
         if length pop_scores < length pruned then Inl OutOfBoundsRead
         else Inr (pruned, pop_scores)))"

subsection \<open>Mutation\<close>

record ('s, 'g) breeding =
  pnext :: "'s list"
  gen :: 'g
  mutation_success_ct :: int
  mutation_fail_ct :: int

text \<open>
  One round of the \<^verbatim>\<open>while (pnext->size() < population)\<close> loop: choose a parent, decide
  whether to mutate it, and if so choose a rule and apply it to a copy of the parent.
\<close>

definition mutation_round ::
  "('s, 'g, 'm) collaborators \<Rightarrow> ('s, 'g) PopulationMutationRule list \<Rightarrow> real \<Rightarrow>
   real list \<Rightarrow> real list \<Rightarrow> 's list \<Rightarrow> ('s, 'g) breeding \<Rightarrow> error + ('s, 'g) breeding" where
  "mutation_round E mutation_rules prob pop_selection_probs rule_selection_probs pnow b =
     (case RandomChoose E pop_selection_probs (gen b) of
        (parent, g1) \<Rightarrow>
          if length pnow \<le> parent then Inl OutOfBoundsRead
          else
            (case dis E g1 of
               (u, g2) \<Rightarrow>
                 if u < prob then
                   (case RandomChoose E rule_selection_probs g2 of
                      (rule, g3) \<Rightarrow>
                        if length mutation_rules \<le> rule then Inl OutOfBoundsRead
                        else
                          (case Apply (mutation_rules ! rule) (pnow ! parent) g3 of
                             ((kValid, tmp_s), g4) \<Rightarrow>
                               Inr (b\<lparr>pnext := pnext b @ [tmp_s], gen := g4,
                                      mutation_success_ct := mutation_success_ct b + 1\<rparr>)
                           | ((kInvalid, tmp_s), g4) \<Rightarrow>
                               Inr (b\<lparr>gen := g4,
                                      mutation_fail_ct := mutation_fail_ct b + 1\<rparr>)))
                 else Inr (b\<lparr>pnext := pnext b @ [pnow ! parent], gen := g2\<rparr>)))"

text \<open>
  The loop has no bound on the number of failed mutations, so it is a partial function:
  \<open>None\<close> is a run that never fills the next generation.
\<close>

partial_function (option) mutation_loop ::
  "(('s, 'g) breeding \<Rightarrow> error + ('s, 'g) breeding) \<Rightarrow> nat \<Rightarrow> ('s, 'g) breeding \<Rightarrow>
   (error + ('s, 'g) breeding) option" where
  "mutation_loop body population_size b =
     (if length (pnext b) < population_size then
        (case body b of
           Inl e \<Rightarrow> Some (Inl e)
         | Inr b' \<Rightarrow> mutation_loop body population_size b')
      else Some (Inr b))"

subsection \<open>The generations\<close>

record ('s, 'g) evolution =
  pnow :: "'s list"
  kept :: "'s retention"
  breed :: "('s, 'g) breeding"

text \<open>The first half of a generation: score it and offer every scored state to the heap.\<close>

definition offer_generation ::
  "utils \<Rightarrow> ('s, 'g, 'm) collaborators \<Rightarrow> bool \<Rightarrow> nat \<Rightarrow> 'm \<Rightarrow> int \<Rightarrow> int \<Rightarrow>
   ('s, 'g) evolution \<Rightarrow> error + ('s list \<times> real list \<times> 's retention)" where
  "offer_generation U E is_dyn num_insts model trials out_size ev =
     (case score_generation U E is_dyn num_insts model trials (pnow ev) of
        Inl e \<Rightarrow> Inl e
      | Inr (pruned, pop_scores) \<Rightarrow>
          (case maintain_heap_all (ToStr E) out_size (zip pruned pop_scores) (kept ev) of
             Inl e \<Rightarrow> Inl e
           | Inr r \<Rightarrow> Inr (pruned, pop_scores, r)))"

text \<open>
  The genetic loop, by the number of generations still to breed: the last generation stops
  after the heap has seen it, every other one breeds the next generation from its scored
  states.
\<close>

fun generations ::
  "utils \<Rightarrow> ('s, 'g, 'm) collaborators \<Rightarrow> ('s, 'g) PopulationMutationRule list \<Rightarrow>
   SketchParams \<Rightarrow> bool \<Rightarrow> nat \<Rightarrow> 'm \<Rightarrow> int \<Rightarrow> int \<Rightarrow> nat \<Rightarrow> ('s, 'g) evolution \<Rightarrow>
   (error + ('s, 'g) evolution) option" where
  "generations U E mutation_rules params is_dyn num_insts model trials out_size 0 ev =
     (case offer_generation U E is_dyn num_insts model trials out_size ev of
        Inl e \<Rightarrow> Some (Inl e)
      | Inr (pruned, pop_scores, r) \<Rightarrow> Some (Inr (ev\<lparr>pnow := pruned, kept := r\<rparr>)))"
| "generations U E mutation_rules params is_dyn num_insts model trials out_size (Suc n) ev =
     (case offer_generation U E is_dyn num_insts model trials out_size ev of
        Inl e \<Rightarrow> Some (Inl e)
      | Inr (pruned, pop_scores, r) \<Rightarrow>
          (case mutation_loop
                  (mutation_round E mutation_rules (mutation_prob params)
                     (ComputePrefixSumProb E pop_scores)
                     (ComputePrefixSumProb E (map weight mutation_rules))
                     pruned)
                  (size_t_of (population params))
                  ((breed ev)\<lparr>pnext := []\<rparr>) of
             None \<Rightarrow> None
           | Some (Inl e) \<Rightarrow> Some (Inl e)
           | Some (Inr b) \<Rightarrow>
               generations U E mutation_rules params is_dyn num_insts model trials out_size n
                 (ev\<lparr>pnow := pnext b, kept := r, breed := b\<rparr>)))"

text \<open>
  \<^verbatim>\<open>EvolutionarySearch\<close>: at most two breeding rounds under a random cost model, no
  generation at all when \<open>num_iters + 1\<close> is not positive, and at the end the heap sorted
  by descending score. The result is the list of best states and the advanced random
  generator. Before the loop the function reserves room for \<open>out_size\<close> heap items and
  for \<open>population\<close> scores; both counts are converted to \<^verbatim>\<open>size_t\<close>, so a negative
  one exceeds what a vector can hold and \<^verbatim>\<open>reserve\<close> throws.
\<close>

definition EvolutionarySearch ::
  "utils \<Rightarrow> ('s, 'g, 'm) collaborators \<Rightarrow> ('s, 'g) PopulationMutationRule list \<Rightarrow>
   SketchParams \<Rightarrow> bool \<Rightarrow> nat \<Rightarrow> ('s, 'g, 'm) SketchPolicyNode \<Rightarrow> 's list \<Rightarrow> int \<Rightarrow>
   (error + ('s list \<times> ('s, 'g, 'm) SketchPolicyNode)) option" where
  "EvolutionarySearch U E mutation_rules params is_dyn num_insts policy init_population out_size =
     (let iters = (if IsRandomModel E (program_cost_model policy) \<and> 2 < num_iters params
                   then 2 else num_iters params)
      in if out_size < 0 \<or> population params < 0 then Some (Inl LengthError)
         else if iters + 1 \<le> 0 then Some (Inr ([], policy))
         else
           (case generations U E mutation_rules params is_dyn num_insts
                   (program_cost_model policy) (n_trials policy) out_size (nat iters)
                   \<lparr>pnow = init_population,
                    kept = \<lparr>heap = [], in_heap = measured_states_set policy,
                            max_score = - 1 / 10 ^ 10\<rparr>,
                    breed = \<lparr>pnext = [], gen = rand_gen policy,
                             mutation_success_ct = 0, mutation_fail_ct = 0\<rparr>\<rparr> of
              None \<Rightarrow> None
            | Some (Inl e) \<Rightarrow> Some (Inl e)
            | Some (Inr ev) \<Rightarrow>
                Some (Inr (map fst (sort_heap E snd (heap (kept ev))),
                           policy\<lparr>rand_gen := gen (breed ev)\<rparr>))))"


section \<open>GenerateSketches\<close>

datatype ConditionKind = kSkip | kApply | kApplyAndSkipRest

text \<open>
  \<^verbatim>\<open>cur_stage_id_map\<close> is an \<^verbatim>\<open>unordered_map\<close> with \<^verbatim>\<open>ObjectHash\<close> and
  \<^verbatim>\<open>ObjectEqual\<close>: its key is the identity of a state object, not the steps the object
  holds. So the model keeps the objects apart from their contents: an object is an address,
  and what a rule returns in a pair is either the object it was given or a new object with
  the contents the rule has built. State objects are immutable once built.
\<close>

type_synonym address = nat

datatype produced = Given | Made State

text \<open>
  A sketch derivation rule is asked with the policy (read only), the state and the stage;
  unlike a population rule it is given no random generator. \<open>'p\<close> is the type of the
  policy.
\<close>

record 'p SketchGenerationRule =
  MeetCondition :: "'p \<Rightarrow> State \<Rightarrow> int \<Rightarrow> ConditionKind"
  SketchApply :: "'p \<Rightarrow> State \<Rightarrow> int \<Rightarrow> (produced \<times> int) list"

text \<open>
  What the enumeration works on: the addresses of the objects made so far (every one of
  them is a key of the map, which keeps it alive), their contents, the map of working
  positions (reading a key that was never written gives 0, as \<^verbatim>\<open>operator[]\<close> does), the
  buffer that collects the next frontier, and the finished states.
\<close>

record sketching =
  live :: "address list"
  content :: "address \<Rightarrow> State"
  cur_stage_id_map :: "address \<Rightarrow> int"
  pnext_states :: "address list"
  out_sketches :: "State list"

text \<open>
  The body of the innermost loop for one pair that a rule has returned for the object at
  \<open>a\<close>: \<^verbatim>\<open>cur_stage_id_map[pair.first] = pair.second; pnext->push_back(pair.first)\<close>.
  The address of a new object is chosen by the runtime (\<open>new_object\<close>, which sees the
  addresses in use).
\<close>

definition emit ::
  "(address list \<Rightarrow> address) \<Rightarrow> address \<Rightarrow> produced \<times> int \<Rightarrow> sketching \<Rightarrow> sketching" where
  "emit new_object a pair st =
     (case pair of
        (Given, sid) \<Rightarrow>
          st\<lparr>cur_stage_id_map := (cur_stage_id_map st)(a := sid),
             pnext_states := pnext_states st @ [a]\<rparr>
      | (Made state, sid) \<Rightarrow>
          let b = new_object (live st)
          in st\<lparr>live := live st @ [b],
                content := (content st)(b := state),
                cur_stage_id_map := (cur_stage_id_map st)(b := sid),
                pnext_states := pnext_states st @ [b]\<rparr>)"

text \<open>
  All rules in order on one state, with the stage that was read before the walk; a rule
  that applies with \<open>kApplyAndSkipRest\<close> ends the walk.
\<close>

fun try_rules ::
  "(address list \<Rightarrow> address) \<Rightarrow> 'p SketchGenerationRule list \<Rightarrow> 'p \<Rightarrow> address \<Rightarrow> State \<Rightarrow> int \<Rightarrow>
   sketching \<Rightarrow> sketching" where
  "try_rules new_object [] p a state sid st = st"
| "try_rules new_object (rule # rules) p a state sid st =
     (case MeetCondition rule p state sid of
        kSkip \<Rightarrow> try_rules new_object rules p a state sid st
      | kApply \<Rightarrow>
          try_rules new_object rules p a state sid
            (fold (emit new_object a) (SketchApply rule p state sid) st)
      | kApplyAndSkipRest \<Rightarrow>
          fold (emit new_object a) (SketchApply rule p state sid) st)"

text \<open>
  The body of the loop over the frontier for the object at \<open>a\<close>: its working position is
  read from the map now, so it is the last one written for this object, also when the
  object has been pushed more than once.
\<close>

definition visit ::
  "(address list \<Rightarrow> address) \<Rightarrow> 'p SketchGenerationRule list \<Rightarrow> 'p \<Rightarrow> address \<Rightarrow>
   sketching \<Rightarrow> sketching" where
  "visit new_object rules p a st =
     (let sid = cur_stage_id_map st a
      in if sid < 0 then st\<lparr>out_sketches := out_sketches st @ [content st a]\<rparr>
         else try_rules new_object rules p a (content st a) sid st)"

text \<open>One wave: \<^verbatim>\<open>pnext->clear()\<close> and the loop over \<^verbatim>\<open>*pnow\<close>.\<close>

definition expand_wave ::
  "(address list \<Rightarrow> address) \<Rightarrow> 'p SketchGenerationRule list \<Rightarrow> 'p \<Rightarrow> address list \<Rightarrow>
   sketching \<Rightarrow> sketching" where
  "expand_wave new_object rules p pnow_states st =
     fold (visit new_object rules p) pnow_states (st\<lparr>pnext_states := []\<rparr>)"

text \<open>
  The waves go on while the frontier is not empty, each wave taking the buffer that the
  wave before it has filled; the rules decide whether that ends.
\<close>

partial_function (option) sketch_while ::
  "(address list \<Rightarrow> sketching \<Rightarrow> sketching) \<Rightarrow> address list \<Rightarrow> sketching \<Rightarrow>
   State list option" where
  "sketch_while wave pnow_states st =
     (if pnow_states \<noteq> []
      then sketch_while wave (pnext_states (wave pnow_states st)) (wave pnow_states st)
      else Some (out_sketches st))"

text \<open>
  The pass over the finished states: the step before every reduction-factor step must be
  a split step (checked) and gets the single undefined length \<open>[None]\<close>. A
  reduction-factor step in first position fails the check \<^verbatim>\<open>ICHECK_GE(step_id, 1)\<close>.
\<close>

fun split_before_rfactor :: "Step list \<Rightarrow> error + Step list" where
  "split_before_rfactor [] = Inr []"
| "split_before_rfactor [s] = Inr [s]"
| "split_before_rfactor (s # RfactorStep # rest) =
     (case s of
        SplitStep sid iid ext lens i2o \<Rightarrow>
          (case split_before_rfactor (RfactorStep # rest) of
             Inl e \<Rightarrow> Inl e
           | Inr steps \<Rightarrow> Inr (SplitStep sid iid ext [None] i2o # steps))
      | _ \<Rightarrow> Inl CheckFailed)"
| "split_before_rfactor (s # t # rest) =
     (case split_before_rfactor (t # rest) of
        Inl e \<Rightarrow> Inl e
      | Inr steps \<Rightarrow> Inr (s # steps))"

definition rfactor_hack :: "State \<Rightarrow> error + State" where
  "rfactor_hack state =
     (case transform_steps state of
        RfactorStep # _ \<Rightarrow> Inl CheckFailed
      | steps \<Rightarrow>
          (case split_before_rfactor steps of
             Inl e \<Rightarrow> Inl e
           | Inr steps' \<Rightarrow> Inr (state\<lparr>transform_steps := steps'\<rparr>)))"

definition GenerateSketches ::
  "(address list \<Rightarrow> address) \<Rightarrow> 'p SketchGenerationRule list \<Rightarrow> 'p \<Rightarrow> State \<Rightarrow>
   (error + State list) option" where
  "GenerateSketches new_object sketch_rules p init_state =
     (let a = new_object []
      in case sketch_while (expand_wave new_object sketch_rules p) [a]
                \<lparr>live = [a], content = (\<lambda>b. init_state),
                 cur_stage_id_map = (\<lambda>b. 0)(a := int (stages_size init_state) - 1),
                 pnext_states = [], out_sketches = []\<rparr> of
           None \<Rightarrow> None
         | Some finished \<Rightarrow> Some (map_err rfactor_hack finished))"

text \<open>
  Two rules for concrete runs. The first always moves on to the previous stage and, as
  \<^verbatim>\<open>RuleSkipStage\<close> does, returns the state object it was given; the second, at stage 0
  of a state without steps, builds a new state that splits and factors the reduction.
\<close>

definition skip_stage_rule :: "'p SketchGenerationRule" where
  "skip_stage_rule =
     \<lparr>MeetCondition = (\<lambda>p state sid. kApply),
      SketchApply = (\<lambda>p state sid. [(Given, sid - 1)])\<rparr>"

definition add_rfactor_rule :: "'p SketchGenerationRule" where
  "add_rfactor_rule =
     \<lparr>MeetCondition =
        (\<lambda>p state sid. if sid = 0 \<and> transform_steps state = [] then kApplyAndSkipRest else kSkip),
      SketchApply =
        (\<lambda>p state sid.
           [(Made (state\<lparr>transform_steps :=
                            [SplitStep 0 0 (\<lambda>inst. Some 8) [Some 2] True, RfactorStep]\<rparr>),
             sid - 1)])\<rparr>"

text \<open>
  Two ways of choosing the address of a new object for concrete runs: one past the
  largest address in use, and the first even address above all addresses in use.
\<close>

definition next_address :: "address list \<Rightarrow> address" where
  "next_address used = Suc (fold max used 0)"

definition even_address :: "address list \<Rightarrow> address" where
  "even_address used = 2 * Suc (fold max used 0)"

text \<open>
  For a run that goes wrong: a rule that returns a new state with one more step and, after
  it, the state it was given; and a choice of addresses that hands out address 0 again and
  again.
\<close>

definition fork_rule :: "'p SketchGenerationRule" where
  "fork_rule =
     \<lparr>MeetCondition = (\<lambda>p state sid. kApplyAndSkipRest),
      SketchApply =
        (\<lambda>p state sid.
           [(Made (state\<lparr>transform_steps := transform_steps state @ [OtherStep]\<rparr>), sid - 1),
            (Given, sid - 1)])\<rparr>"

definition stuck_address :: "address list \<Rightarrow> address" where
  "stuck_address used = 0"

subsection \<open>Runs that differ in the addresses of their objects\<close>

text \<open>
  Two stages of the enumeration are the same up to a renaming \<open>r\<close> of the addresses when
  \<open>r\<close> maps the objects of the first one by one to the objects of the second, with the
  same contents and working positions, and the buffers and the finished states agree.
\<close>

definition renamed :: "(address \<Rightarrow> address) \<Rightarrow> sketching \<Rightarrow> sketching \<Rightarrow> bool" where
  "renamed r st st' \<longleftrightarrow>
     inj_on r (set (live st)) \<and>
     live st' = map r (live st) \<and>
     (\<forall>a \<in> set (live st).
        content st' (r a) = content st a \<and>
        cur_stage_id_map st' (r a) = cur_stage_id_map st a) \<and>
     pnext_states st' = map r (pnext_states st) \<and>
     set (pnext_states st) \<subseteq> set (live st) \<and>
     out_sketches st' = out_sketches st"

section \<open>SampleInitPopulation\<close>

text \<open>
  The local variables of the sampling loop, together with the member
  \<^verbatim>\<open>sample_init_min_pop_\<close>, which the loop reads in its condition and halves.
  \<open>iter\<close> starts at 1 and is incremented at the end of every wave, so \<open>iter - 1\<close> waves
  have run.
\<close>

record ('s, 'g) sampling =
  out_states :: "'s list"
  explored_state_strs :: "string set"
  iter :: nat
  unchange_cnt :: nat
  fail_ct :: int
  rand_gens :: "'g list"
  target :: int

text \<open>Apply the initialization rules in order to a copy of the sketch; stop at the first
  invalid one.\<close>

fun apply_init_rules ::
  "('s, 'g) PopulationMutationRule list \<Rightarrow> 's \<Rightarrow> 'g \<Rightarrow> 's option \<times> 'g" where
  "apply_init_rules [] tmp_s g = (Some tmp_s, g)"
| "apply_init_rules (rule # rules) tmp_s g =
     (case Apply rule tmp_s g of
        ((kInvalid, s'), g') \<Rightarrow> (None, g')
      | ((kValid, s'), g') \<Rightarrow> apply_init_rules rules s' g')"

text \<open>
  One slot of a wave: choose a sketch with the slot's own generator
  (\<^verbatim>\<open>rand_gens[index]() % sketches.size()\<close>) and apply the rules to it. The slots are
  independent of each other, so the parallel loop is a map over the generators.
\<close>

definition sample_slot ::
  "('s, 'g, 'm) collaborators \<Rightarrow> ('s, 'g) PopulationMutationRule list \<Rightarrow> 's list \<Rightarrow> 'g \<Rightarrow>
   error + ('s option \<times> 'g)" where
  "sample_slot E init_rules sketches g =
     (if sketches = [] then Inl DivisionByZero
      else
        (case draw E g of
           (r, g') \<Rightarrow> Inr (apply_init_rules init_rules (sketches ! (r mod length sketches)) g')))"

text \<open>
  The scored candidates of a wave are accepted one by one: a candidate is accepted when
  its score exceeds the reject floor and its string has not been explored; an accepted
  candidate resets \<open>unchange_cnt\<close>, a rejected one counts as a failure.
\<close>

fun accept_candidates ::
  "('s \<Rightarrow> string) \<Rightarrow> ('s \<times> real) list \<Rightarrow> ('s, 'g) sampling \<Rightarrow> ('s, 'g) sampling" where
  "accept_candidates to_str [] st = st"
| "accept_candidates to_str ((s, score) # rest) st =
     accept_candidates to_str rest
       (if - (10 ^ 10) < score \<and> to_str s \<notin> explored_state_strs st
        then st\<lparr>explored_state_strs := insert (to_str s) (explored_state_strs st),
                out_states := out_states st @ [s],
                unchange_cnt := 0\<rparr>
        else st\<lparr>fail_ct := fail_ct st + 1\<rparr>)"

text \<open>
  One wave: the body of the \<^verbatim>\<open>while\<close> loop. After the wave, when \<open>unchange_cnt\<close> has
  reached 5, a target above 1 is halved and the counter starts again.
\<close>

definition sample_wave ::
  "('s, 'g, 'm) collaborators \<Rightarrow> ('s, 'g) PopulationMutationRule list \<Rightarrow> 'm \<Rightarrow> 's list \<Rightarrow>
   ('s, 'g) sampling \<Rightarrow> error + ('s, 'g) sampling" where
  "sample_wave E init_rules model sketches st =
     (if rand_gens st = [] then Inl OutOfBoundsRead
      else
        (case map_err (sample_slot E init_rules sketches) (rand_gens st) of
           Inl e \<Rightarrow> Inl e
         | Inr slots \<Rightarrow>
             let temp_states = map fst slots;
                 cand_states = map the (filter (\<lambda>s. s \<noteq> None) temp_states);
                 st1 = st\<lparr>rand_gens := map snd slots,
                          fail_ct := fail_ct st + int (length (filter (\<lambda>s. s = None) temp_states)),
                          unchange_cnt := unchange_cnt st + 1\<rparr>;
                 pruned = PruneInvalidState E (InferBound E cand_states);
                 pop_scores = Predict E model pruned
             in if cand_states \<noteq> [] \<and> length pop_scores < length pruned then Inl OutOfBoundsRead
                else
                  let st2 = (if cand_states \<noteq> []
                             then accept_candidates (ToStr E) (zip pruned pop_scores) st1
                             else st1);
                      st3 = (if unchange_cnt st2 = 5
                             then st2\<lparr>target := (if 1 < target st2 then target st2 div 2
                                                   else target st2),
                                      unchange_cnt := 0\<rparr>
                             else st2)
                  in Inr (st3\<lparr>iter := iter st3 + 1\<rparr>)))"

text \<open>
  The loop runs while fewer states than the target have been accepted. Nothing bounds the
  number of waves (a target of 1 is never lowered), so it is a partial function.
\<close>

partial_function (option) sample_while ::
  "(('s, 'g) sampling \<Rightarrow> error + ('s, 'g) sampling) \<Rightarrow> ('s, 'g) sampling \<Rightarrow>
   (error + ('s, 'g) sampling) option" where
  "sample_while wave st =
     (if int (length (out_states st)) < target st then
        (case wave st of
           Inl e \<Rightarrow> Some (Inl e)
         | Inr st' \<Rightarrow> sample_while wave st')
      else Some (Inr st))"

text \<open>Seeding the per-slot generators: one draw from \<^verbatim>\<open>rand_gen\<close> for each of them.\<close>

fun seed_rand_gens :: "('s, 'g, 'm) collaborators \<Rightarrow> nat \<Rightarrow> 'g \<Rightarrow> 'g list \<times> 'g" where
  "seed_rand_gens E 0 g = ([], g)"
| "seed_rand_gens E (Suc n) g =
     (case draw E g of
        (seed, g') \<Rightarrow>
          (case seed_rand_gens E n g' of (gens, g'') \<Rightarrow> (mt19937 E seed # gens, g'')))"

definition sampling_start ::
  "('s, 'g, 'm) collaborators \<Rightarrow> SketchParams \<Rightarrow> ('s, 'g, 'm) SketchPolicyNode \<Rightarrow>
   ('s, 'g) sampling" where
  "sampling_start E params policy =
     \<lparr>out_states = [], explored_state_strs = {}, iter = 1, unchange_cnt = 0, fail_ct = 0,
      rand_gens = fst (seed_rand_gens E (nat (population params)) (rand_gen policy)),
      target = sample_init_min_pop policy\<rparr>"

definition SampleInitPopulation ::
  "('s, 'g, 'm) collaborators \<Rightarrow> ('s, 'g) PopulationMutationRule list \<Rightarrow> SketchParams \<Rightarrow>
   ('s, 'g, 'm) SketchPolicyNode \<Rightarrow> 's list \<Rightarrow>
   (error + ('s list \<times> ('s, 'g, 'm) SketchPolicyNode)) option" where
  "SampleInitPopulation E init_rules params policy sketches =
     (case sample_while (sample_wave E init_rules (program_cost_model policy) sketches)
             (sampling_start E params policy) of
        None \<Rightarrow> None
      | Some (Inl e) \<Rightarrow> Some (Inl e)
      | Some (Inr st) \<Rightarrow>
          Some (Inr (out_states st,
                     policy\<lparr>rand_gen := snd (seed_rand_gens E (nat (population params))
                                                (rand_gen policy)),
                            sample_init_min_pop := target st\<rparr>)))"

subsection \<open>Concrete collaborators\<close>

text \<open>
  For concrete runs a state is a name with a variant number and its canonical string is
  the name; the random generator is a tape of numbers, read one per draw (a draw from the
  uniform distribution is the number divided by ten, an exhausted tape gives 0, and a
  generator made from a seed is an empty tape); the cost model returns fixed scores.
\<close>

definition tape_draw :: "nat list \<Rightarrow> nat \<times> nat list" where
  "tape_draw g = (case g of [] \<Rightarrow> (0, []) | x # g' \<Rightarrow> (x, g'))"





definition example_params :: SketchParams where
  "example_params =
     \<lparr>population = 2, mutation_prob = 1 / 2, num_iters = 0, eps_greedy = 1 / 20,
      use_measured_ratio = 1 / 5, empty_retry_count = 1\<rparr>"



text \<open>A policy over schedule states whose random generator is the given tape.\<close>

definition tape_policy :: "nat list \<Rightarrow> (State, nat list, unit) SketchPolicyNode" where
  "tape_policy g =
     \<lparr>rand_gen = g, program_cost_model = (), sample_init_min_pop = 0, sketch_cache = [],
      measured_states_set = {}, measured_states_vector = [], measured_states_throughputs = [],
      n_trials = 0, num_measure_per_iter = 0, curr_inst_opt_prob = []\<rparr>"

section \<open>Construction of a search task\<close>

text \<open>
  The constructor \<^verbatim>\<open>SearchTask::SearchTask\<close>. Of \<^verbatim>\<open>HardwareParams\<close> the model keeps
  \<open>num_cores\<close>; the default parameters of a target, which come from the device API or
  end in \<^verbatim>\<open>LOG(FATAL)\<close>, are a parameter.

  The constructor executes \<^verbatim>\<open>node->shape_vars = std::move(shape_vars)\<close> and only then
  tests \<^verbatim>\<open>if (shape_vars)\<close>. Moving an object handle takes the pointer over and leaves
  the handle it was moved from null, so the test reads an empty handle.
\<close>

definition moved_from :: "'a option \<Rightarrow> 'a option" where
  "moved_from handle = None"

definition SearchTask_ctor ::
  "(error + int) \<Rightarrow> int option \<Rightarrow> HardwareAPI \<Rightarrow> string list option \<Rightarrow>
   wkl_inst list option \<Rightarrow> real list option \<Rightarrow> error + SearchTask" where
  "SearchTask_ctor default_hardware_params hardware_params hw
     ctor_shape_vars ctor_wkl_insts ctor_wkl_inst_weights =
     (case (case hardware_params of Some p \<Rightarrow> Inr p | None \<Rightarrow> default_hardware_params) of
        Inl e \<Rightarrow> Inl e
      | Inr cores \<Rightarrow>
          (let node_shape_vars = ctor_shape_vars;
               local_shape_vars = moved_from ctor_shape_vars
           in if local_shape_vars \<noteq> None \<and> ctor_wkl_insts = None then Inl CheckFailed
              else if local_shape_vars \<noteq> None \<and> ctor_wkl_inst_weights = None
              then Inl CheckFailed
              else
                Inr \<lparr>hardware_api = hw, num_cores = cores, shape_vars = node_shape_vars,
                     wkl_insts = (case ctor_wkl_insts of Some insts \<Rightarrow> insts | None \<Rightarrow> []),
                     wkl_inst_weights =
                       (case ctor_wkl_inst_weights of Some ws \<Rightarrow> ws | None \<Rightarrow> [])\<rparr>))"

section \<open>Search\<close>

text \<open>
  What a measurement and a build report back, as far as \<^verbatim>\<open>Search\<close> reads them, and the
  calls that \<^verbatim>\<open>Search\<close> makes on the measurer, the builder and the cost model, recorded in
  the order in which they are made.
\<close>

record MeasureResult =
  costs :: "real list"

record BuildResult =
  error_no :: int

datatype call = Called_Reset | Called_Update | Called_Measure | Called_Build

text \<open>
  Code of other translation units, taken as parameters: \<^verbatim>\<open>Argsort\<close> and
  \<^verbatim>\<open>RandomSampleStates\<close> of \<^verbatim>\<open>utils.h\<close>, the cost model's \<^verbatim>\<open>Update\<close>, the measurer with
  its builder and its records of the best results, the estimates of the compute DAG,
  \<^verbatim>\<open>AdaptStateToWorkload\<close> (of which only the adapted score is read), and the two methods
  of \<^verbatim>\<open>TopKDispatcher\<close>. An \<^verbatim>\<open>unordered_map\<close> from instances to states is an association
  list with one entry for each key, read with \<open>map_of\<close>. \<^verbatim>\<open>ComputePrefixSumProb\<close> appears a
  second time because here its argument is a list of quotients that may be infinite.
\<close>

record ('s, 'g, 'm, 'ms) measurement =
  Argsort :: "fp list \<Rightarrow> int list"
  RandomSampleStates :: "'s list \<Rightarrow> 'g \<Rightarrow> int \<Rightarrow> 's list \<times> 'g"
  Update :: "'m \<Rightarrow> 's list \<Rightarrow> MeasureResult list \<Rightarrow> 'm"
  Reset :: "'ms \<Rightarrow> 'ms"
  Measure :: "'ms \<Rightarrow> ('s, 'g, 'm) SketchPolicyNode \<Rightarrow> 's list \<Rightarrow> MeasureResult list \<times> 'ms"
  Build :: "'ms \<Rightarrow> ('s \<times> wkl_inst) list \<Rightarrow> BuildResult list"
  best_ct :: "'ms \<Rightarrow> int"
  has_valid :: "'ms \<Rightarrow> bool"
  best_states :: "'ms \<Rightarrow> 's list"
  best_inst_flops :: "'ms \<Rightarrow> real list"
  FloatArrayMean :: "real list \<Rightarrow> real"
  CherryPickWorkloadInstance :: "'s \<Rightarrow> wkl_inst \<times> real \<times> real"
  EstimateFlopForInst :: "string list \<Rightarrow> wkl_inst \<Rightarrow> real"
  AdaptStateToWorkload :: "'s \<Rightarrow> wkl_inst \<Rightarrow> fp \<Rightarrow> fp"
  dispatch :: "fp list \<Rightarrow> nat \<Rightarrow> (nat \<times> nat) list"
  MapWklInstsToStates ::
    "(nat \<times> nat) list \<Rightarrow> 's list \<Rightarrow> fp list \<Rightarrow> wkl_inst list \<Rightarrow> fp list \<Rightarrow>
     (nat \<times> nat) list \<times> 's list \<times> fp list \<times> fp list"
  ComputePrefixSumProb_fp :: "fp list \<Rightarrow> real list"

text \<open>
  Conversion of a \<^verbatim>\<open>double\<close> to \<^verbatim>\<open>int\<close> drops the fraction. For a value that has no
  \<^verbatim>\<open>int\<close> (too large, infinite or NaN) the language leaves the conversion undefined; the
  model gives what the conversion instruction of the machine gives, the least \<^verbatim>\<open>int\<close>.
\<close>

definition to_int :: "fp \<Rightarrow> int" where
  "to_int x =
     (case x of
        Finite a \<Rightarrow>
          (let t = (if 0 \<le> a then \<lfloor>a\<rfloor> else \<lceil>a\<rceil>)
           in if - (2 ^ 31) \<le> t \<and> t < 2 ^ 31 then t else - (2 ^ 31))
      | _ \<Rightarrow> - (2 ^ 31))"

text \<open>
  \<^verbatim>\<open>static_cast<int>(GetDoubleParam(params, key) * n)\<close>: the parameter is a \<^verbatim>\<open>double\<close>,
  the \<^verbatim>\<open>int\<close> is converted to \<^verbatim>\<open>double\<close>, and the rounded product is truncated.
\<close>

definition double_times_int :: "real \<Rightarrow> int \<Rightarrow> int" where
  "double_times_int ratio n =
     to_int (fp_mul to_double (to_double ratio) (to_double (real_of_int n)))"

text \<open>
  A read or a write outside a \<^verbatim>\<open>std::vector\<close> has no defined behaviour; the model stops
  there with an error.
\<close>

definition vector_at :: "'a list \<Rightarrow> nat \<Rightarrow> error + 'a" where
  "vector_at xs i = (if i < length xs then Inr (xs ! i) else Inl OutOfBoundsRead)"

definition write_at :: "'a list \<Rightarrow> nat \<Rightarrow> 'a \<Rightarrow> error + 'a list" where
  "write_at xs i v = (if i < length xs then Inr (xs[i := v]) else Inl OutOfBoundsRead)"

text \<open>A loop that updates a value and may stop the run.\<close>

fun fold_err :: "('a \<Rightarrow> 'b \<Rightarrow> error + 'b) \<Rightarrow> 'a list \<Rightarrow> 'b \<Rightarrow> error + 'b" where
  "fold_err f [] acc = Inr acc"
| "fold_err f (x # xs) acc =
     (case f x acc of
        Inl e \<Rightarrow> Inl e
      | Inr acc' \<Rightarrow> fold_err f xs acc')"

text \<open>\<^verbatim>\<open>operator[]\<close> of an \<^verbatim>\<open>unordered_map\<close> adds the key with value 0 when it is absent.\<close>

definition touch :: "(nat \<times> nat) list \<Rightarrow> nat \<Rightarrow> (nat \<times> nat) list" where
  "touch m k = (case map_of m k of None \<Rightarrow> m @ [(k, 0)] | Some v \<Rightarrow> m)"

definition lookup :: "(nat \<times> nat) list \<Rightarrow> nat \<Rightarrow> nat" where
  "lookup m k = (case map_of m k of None \<Rightarrow> 0 | Some v \<Rightarrow> v)"

subsection \<open>SearchOneRound\<close>

text \<open>The measured state that \<^verbatim>\<open>measured_states_vector_[indices[i]]\<close> reads.\<close>

definition measured_at :: "'s list \<Rightarrow> int list \<Rightarrow> nat \<Rightarrow> error + 's" where
  "measured_at measured indices i =
     (case vector_at indices i of
        Inl e \<Rightarrow> Inl e
      | Inr k \<Rightarrow> (if 0 \<le> k then vector_at measured (nat k) else Inl OutOfBoundsRead))"

text \<open>
  One round: fill the sketch cache if it is empty, sample the initial population, add the
  best measured states, draw the random states when they are asked for and there is a
  place to put them (\<open>random_states\<close> is \<open>None\<close> for the null pointer), and run the
  evolutionary search for \<^verbatim>\<open>num_measure_per_iter_ * 2\<close> states. The rules of sketch
  generation are given the policy itself.
\<close>

definition SearchOneRound ::
  "utils \<Rightarrow> (State, 'g, 'm) collaborators \<Rightarrow> (State, 'g, 'm, 'ms) measurement \<Rightarrow>
   (State, 'g, 'm) SketchPolicyNode SketchGenerationRule list \<Rightarrow>
   (State, 'g) PopulationMutationRule list \<Rightarrow> (State, 'g) PopulationMutationRule list \<Rightarrow>
   SketchParams \<Rightarrow> bool \<Rightarrow> nat \<Rightarrow> State \<Rightarrow> (State, 'g, 'm) SketchPolicyNode \<Rightarrow> int \<Rightarrow>
   State list option \<Rightarrow>
   (error + (State list \<times> State list option \<times> (State, 'g, 'm) SketchPolicyNode)) option" where
  "SearchOneRound U E A sketch_rules init_rules mutation_rules params is_dyn num_insts
     init_state policy num_random_states random_states =
     (let num_use_measured =
            min (int (length (measured_states_vector policy)))
                (double_times_int (use_measured_ratio params) (population params))
      in case (if sketch_cache policy = []
               then GenerateSketches (make_object E) sketch_rules policy init_state
               else Some (Inr (sketch_cache policy))) of
           None \<Rightarrow> None
         | Some (Inl e) \<Rightarrow> Some (Inl e)
         | Some (Inr sketches) \<Rightarrow>
             (case SampleInitPopulation E init_rules params
                     (policy\<lparr>sketch_cache := sketches\<rparr>) sketches of
                None \<Rightarrow> None
              | Some (Inl e) \<Rightarrow> Some (Inl e)
              | Some (Inr (sampled, policy1)) \<Rightarrow>
                  (case map_err (measured_at (measured_states_vector policy1)
                                   (Argsort A (measured_states_throughputs policy1)))
                          [0..<nat num_use_measured] of
                     Inl e \<Rightarrow> Some (Inl e)
                   | Inr measured \<Rightarrow>
                       (let init_population = sampled @ measured;
                            drawn = RandomSampleStates A init_population (rand_gen policy1)
                                      num_random_states;
                            asked = (0 < num_random_states \<and> random_states \<noteq> None);
                            policy2 = (if asked then policy1\<lparr>rand_gen := snd drawn\<rparr>
                                       else policy1)
                        in case EvolutionarySearch U E mutation_rules params is_dyn num_insts
                                  policy2 init_population (num_measure_per_iter policy2 * 2) of
                             None \<Rightarrow> None
                           | Some (Inl e) \<Rightarrow> Some (Inl e)
                           | Some (Inr (best, policy3)) \<Rightarrow>
                               Some (Inr (best,
                                          (if asked then Some (fst drawn) else random_states),
                                          policy3))))))"

subsection \<open>PickStatesWithEpsGreedy\<close>

text \<open>
  The picking loop takes the next state from the best or from the random states, by
  preference according to how many inputs there are already, and keeps it unless its
  string has been measured. The two offsets are the parts of the lists not yet read. The
  triple holds the inputs, the set of measured strings and the measured states.
\<close>

definition pick_state ::
  "('s \<Rightarrow> string) \<Rightarrow> 's \<Rightarrow> 's list \<times> string set \<times> 's list \<Rightarrow> 's list \<times> string set \<times> 's list" where
  "pick_state to_str state acc =
     (case acc of
        (picked, strs, measured) \<Rightarrow>
          (if to_str state \<notin> strs
           then (picked @ [state], insert (to_str state) strs, measured @ [state])
           else acc))"

fun pick_loop ::
  "('s \<Rightarrow> string) \<Rightarrow> int \<Rightarrow> int \<Rightarrow> 's list \<Rightarrow> 's list \<Rightarrow> 's list \<times> string set \<times> 's list \<Rightarrow>
   's list \<times> string set \<times> 's list" where
  "pick_loop to_str limit num_good [] [] acc = acc"
| "pick_loop to_str limit num_good (b # bs) [] acc =
     (if int (length (fst acc)) < limit
      then pick_loop to_str limit num_good bs [] (pick_state to_str b acc)
      else acc)"
| "pick_loop to_str limit num_good [] (r # rs) acc =
     (if int (length (fst acc)) < limit
      then pick_loop to_str limit num_good [] rs (pick_state to_str r acc)
      else acc)"
| "pick_loop to_str limit num_good (b # bs) (r # rs) acc =
     (if int (length (fst acc)) < limit
      then (if int (length (fst acc)) < num_good
            then pick_loop to_str limit num_good bs (r # rs) (pick_state to_str b acc)
            else pick_loop to_str limit num_good (b # bs) rs (pick_state to_str r acc))
      else acc)"

definition PickStatesWithEpsGreedy ::
  "('s, 'g, 'm) collaborators \<Rightarrow> SketchParams \<Rightarrow> ('s, 'g, 'm) SketchPolicyNode \<Rightarrow> 's list \<Rightarrow>
   's list \<Rightarrow> int \<Rightarrow> 's list \<times> ('s, 'g, 'm) SketchPolicyNode" where
  "PickStatesWithEpsGreedy E params policy best random remaining_n_trials =
     (let num_random = double_times_int (eps_greedy params) (num_measure_per_iter policy);
          num_good = num_measure_per_iter policy - num_random
      in case pick_loop (ToStr E) (min (num_measure_per_iter policy) remaining_n_trials)
                num_good best random
                ([], measured_states_set policy, measured_states_vector policy) of
           (picked, strs, measured) \<Rightarrow>
             (picked, policy\<lparr>measured_states_set := strs,
                             measured_states_vector := measured\<rparr>))"

subsection \<open>CalculateInstOptProb\<close>

text \<open>
  The priority of an instance is \<^verbatim>\<open>flop * weight / best_inst_flops[i]\<close>: a product of
  two \<^verbatim>\<open>double\<close>s divided by a \<^verbatim>\<open>float\<close>, stored in a vector of \<^verbatim>\<open>float\<close>. The
  numbers that code outside the sources returns are given as the real numbers they denote;
  a zero among them counts as positive.
\<close>

definition inst_opt_priority ::
  "('s, 'g, 'm, 'ms) measurement \<Rightarrow> SearchTask \<Rightarrow> 'ms \<Rightarrow> nat \<Rightarrow> error + fp" where
  "inst_opt_priority A task ms i =
     (case shape_vars task of
        None \<Rightarrow> Inl NoValue
      | Some vars \<Rightarrow>
          (case array_at (wkl_insts task) i of
             Inl e \<Rightarrow> Inl e
           | Inr inst \<Rightarrow>
               (let flop = EstimateFlopForInst A vars inst
                in if \<not> 0 < flop then Inl CheckFailed
                   else
                     (case array_at (wkl_inst_weights task) i of
                        Inl e \<Rightarrow> Inl e
                      | Inr w \<Rightarrow>
                          (case vector_at (best_inst_flops A ms) i of
                             Inl e \<Rightarrow> Inl e
                           | Inr b \<Rightarrow>
                               Inr (fp_cast to_float
                                      (fp_div to_double
                                         (fp_mul to_double (to_double flop) (to_double w))
                                         (to_float b))))))))"

definition CalculateInstOptProb ::
  "('s, 'g, 'm, 'ms) measurement \<Rightarrow> SearchTask \<Rightarrow> bool \<Rightarrow> 'ms \<Rightarrow> ('s, 'g, 'm) SketchPolicyNode \<Rightarrow>
   error + ('s, 'g, 'm) SketchPolicyNode" where
  "CalculateInstOptProb A task is_dyn ms policy =
     (if \<not> is_dyn then Inl CheckFailed
      else
        (case map_err (inst_opt_priority A task ms) [0..<length (wkl_insts task)] of
           Inl e \<Rightarrow> Inl e
         | Inr priorities \<Rightarrow>
             Inr (policy\<lparr>curr_inst_opt_prob := ComputePrefixSumProb_fp A priorities\<rparr>)))"

subsection \<open>The final dispatch\<close>

text \<open>
  The adapted scores form a table of one row for each instance, stored row by row in a
  vector of \<^verbatim>\<open>wkl_insts.size() * measured_states_throughputs_.size()\<close> zeros and addressed
  with rows of length \<^verbatim>\<open>measured_states_vector_.size()\<close>.
\<close>

definition adapt_one ::
  "('s, 'g, 'm, 'ms) measurement \<Rightarrow> SearchTask \<Rightarrow> 's list \<Rightarrow> fp list \<Rightarrow> nat \<times> nat \<Rightarrow> fp list \<Rightarrow>
   error + fp list" where
  "adapt_one A task measured throughputs ids adapted =
     (case ids of
        (state_id, inst_id) \<Rightarrow>
          (case vector_at measured state_id of
             Inl e \<Rightarrow> Inl e
           | Inr state \<Rightarrow>
               (case array_at (wkl_insts task) inst_id of
                  Inl e \<Rightarrow> Inl e
                | Inr inst \<Rightarrow>
                    (case vector_at throughputs state_id of
                       Inl e \<Rightarrow> Inl e
                     | Inr throughput \<Rightarrow>
                         write_at adapted (inst_id * length measured + state_id)
                           (AdaptStateToWorkload A state inst throughput)))))"

definition adapted_scores ::
  "('s, 'g, 'm, 'ms) measurement \<Rightarrow> SearchTask \<Rightarrow> 's list \<Rightarrow> fp list \<Rightarrow> error + fp list" where
  "adapted_scores A task measured throughputs =
     fold_err (adapt_one A task measured throughputs)
       (concat (map (\<lambda>state_id. map (\<lambda>inst_id. (state_id, inst_id))
                                    [0..<length (wkl_insts task)])
                    [0..<length throughputs]))
       (replicate (length (wkl_insts task) * length throughputs) (Finite 0))"

text \<open>The variables of the \<^verbatim>\<open>do\<close> loop, with the calls made so far.\<close>

record 's dispatching =
  adapted_candidate_flops :: "fp list"
  changed_adapted_candidate_flops :: bool
  next_wkl_inst_ids :: "nat list"
  inst_id_disp_map :: "(nat \<times> nat) list"
  selected_candidate_states :: "'s list"
  made :: "call list"

text \<open>The build input for one instance: the state selected for it, with the instance.\<close>

definition test_input ::
  "SearchTask \<Rightarrow> 's list \<Rightarrow> nat \<Rightarrow> (nat \<times> nat) list \<times> ('s \<times> wkl_inst) list \<Rightarrow>
   error + ((nat \<times> nat) list \<times> ('s \<times> wkl_inst) list)" where
  "test_input task selected inst_id acc =
     (case acc of
        (disp_map, test_inputs) \<Rightarrow>
          (case vector_at selected (lookup disp_map inst_id) of
             Inl e \<Rightarrow> Inl e
           | Inr state \<Rightarrow>
               (case array_at (wkl_insts task) inst_id of
                  Inl e \<Rightarrow> Inl e
                | Inr inst \<Rightarrow> Inr (touch disp_map inst_id, test_inputs @ [(state, inst)]))))"

text \<open>
  What the loop over the build results does for one instance: on a failed build it
  writes a 0 into the table, in the row of the instance at the position that the
  dispatch map gives for the instance, and appends the instance to
  \<^verbatim>\<open>next_wkl_inst_ids\<close>. The log line of that branch reads \<^verbatim>\<open>wkl_insts\<close> and the selected
  states at the same position.
\<close>

definition check_build ::
  "SearchTask \<Rightarrow> nat \<Rightarrow> nat list \<Rightarrow> BuildResult list \<Rightarrow> nat \<Rightarrow> 's dispatching \<Rightarrow>
   error + 's dispatching" where
  "check_build task row wkl_inst_ids build_results inst_i d =
     (case vector_at wkl_inst_ids inst_i of
        Inl e \<Rightarrow> Inl e
      | Inr inst_id \<Rightarrow>
          (let state_id = lookup (inst_id_disp_map d) inst_id;
               d1 = d\<lparr>inst_id_disp_map := touch (inst_id_disp_map d) inst_id\<rparr>
           in case array_at build_results inst_i of
                Inl e \<Rightarrow> Inl e
              | Inr res \<Rightarrow>
                  (if error_no res \<noteq> 0 then
                     (case array_at (wkl_insts task) state_id of
                        Inl e \<Rightarrow> Inl e
                      | Inr logged_inst \<Rightarrow>
                          (case vector_at (selected_candidate_states d1) state_id of
                             Inl e \<Rightarrow> Inl e
                           | Inr logged_state \<Rightarrow>
                               (case write_at (adapted_candidate_flops d1)
                                       (inst_id * row + state_id) (Finite 0) of
                                  Inl e \<Rightarrow> Inl e
                                | Inr adapted \<Rightarrow>
                                    Inr (d1\<lparr>adapted_candidate_flops := adapted,
                                            next_wkl_inst_ids :=
                                              next_wkl_inst_ids d1 @ [inst_id]\<rparr>))))
                   else Inr d1)))"

text \<open>
  The body of the \<^verbatim>\<open>do\<close> loop: dispatch on the table, map the instances to states, build
  the selected state of every instance in \<^verbatim>\<open>wkl_inst_ids\<close>, and go through the build
  results. At the end the keys of the dispatch map are used to read \<^verbatim>\<open>wkl_insts\<close> for
  the log.
\<close>

definition dispatch_pass ::
  "('s, 'g, 'm, 'ms) measurement \<Rightarrow> SearchTask \<Rightarrow> 's list \<Rightarrow> fp list \<Rightarrow> 'ms \<Rightarrow> nat list \<Rightarrow>
   's dispatching \<Rightarrow> error + 's dispatching" where
  "dispatch_pass A task measured throughputs ms wkl_inst_ids d =
     (case MapWklInstsToStates A
             (dispatch A (adapted_candidate_flops d) (length measured))
             measured throughputs (wkl_insts task) (adapted_candidate_flops d) of
        (disp_map, selected, selected_flops, inst_predicted_flops) \<Rightarrow>
          (case fold_err (test_input task selected) wkl_inst_ids (disp_map, []) of
             Inl e \<Rightarrow> Inl e
           | Inr (disp_map1, test_inputs) \<Rightarrow>
               (let build_results = Build A ms test_inputs
                in if length build_results \<noteq> length test_inputs then Inl CheckFailed
                   else
                     (case fold_err
                             (check_build task (length measured) wkl_inst_ids build_results)
                             [0..<length wkl_inst_ids]
                             (d\<lparr>inst_id_disp_map := disp_map1,
                                selected_candidate_states := selected,
                                next_wkl_inst_ids := [],
                                made := made d @ [Called_Build]\<rparr>) of
                        Inl e \<Rightarrow> Inl e
                      | Inr d' \<Rightarrow>
                          (if list_all (\<lambda>entry. fst entry < length (wkl_insts task))
                                (inst_id_disp_map d')
                           then Inr d' else Inl OutOfBoundsRead)))))"

partial_function (option) dispatch_do_while ::
  "('s dispatching \<Rightarrow> error + 's dispatching) \<Rightarrow> 's dispatching \<Rightarrow>
   (error + 's dispatching) option" where
  "dispatch_do_while body d =
     (case body d of
        Inl e \<Rightarrow> Some (Inl e)
      | Inr d' \<Rightarrow>
          (if changed_adapted_candidate_flops d' then dispatch_do_while body d'
           else Some (Inr d')))"

text \<open>The variables before the first pass: nothing changed, nothing selected.\<close>

definition dispatch_start :: "fp list \<Rightarrow> call list \<Rightarrow> 's dispatching" where
  "dispatch_start adapted calls =
     \<lparr>adapted_candidate_flops = adapted,
      changed_adapted_candidate_flops = False,
      next_wkl_inst_ids = [],
      inst_id_disp_map = [],
      selected_candidate_states = [],
      made = calls\<rparr>"

definition final_dispatch ::
  "('s, 'g, 'm, 'ms) measurement \<Rightarrow> SearchTask \<Rightarrow> 's list \<Rightarrow> fp list \<Rightarrow> 'ms \<Rightarrow> call list \<Rightarrow>
   (error + (('s list \<times> (nat \<times> nat) list) \<times> call list)) option" where
  "final_dispatch A task measured throughputs ms trace =
     (case adapted_scores A task measured throughputs of
        Inl e \<Rightarrow> Some (Inl e)
      | Inr adapted \<Rightarrow>
          (case dispatch_do_while
                  (dispatch_pass A task measured throughputs ms [0..<length (wkl_insts task)])
                  (dispatch_start adapted trace) of
             None \<Rightarrow> None
           | Some (Inl e) \<Rightarrow> Some (Inl e)
           | Some (Inr d) \<Rightarrow>
               Some (Inr ((selected_candidate_states d, inst_id_disp_map d), made d))))"

subsection \<open>The measurement loop\<close>

text \<open>The variables of the \<^verbatim>\<open>while (ct < n_trials)\<close> loop, the policy, the measurer and the
  calls made so far.\<close>

record ('g, 'm, 'ms) searching =
  ct :: int
  retries_left :: int
  round_best :: "State list"
  round_random :: "State list"
  inputs :: "State list"
  results :: "MeasureResult list"
  node :: "(State, 'g, 'm) SketchPolicyNode"
  measurer :: 'ms
  trace :: "call list"

text \<open>
  The throughputs that the loop appends after a measurement:
  \<^verbatim>\<open>flop_ct / adaption_penalty / FloatArrayMean(costs)\<close> for a dynamic task, with a
  \<^verbatim>\<open>float\<close> penalty, and \<^verbatim>\<open>1.0 / FloatArrayMean(costs)\<close> otherwise. The quotients are
  computed in \<^verbatim>\<open>double\<close> and stored in a vector of \<^verbatim>\<open>float\<close>.
\<close>

definition measured_throughputs ::
  "(State, 'g, 'm, 'ms) measurement \<Rightarrow> bool \<Rightarrow> State list \<Rightarrow> MeasureResult list \<Rightarrow>
   error + fp list" where
  "measured_throughputs A is_dyn states measurements =
     (if is_dyn then
        (if length states \<noteq> length measurements then Inl CheckFailed
         else Inr (map (\<lambda>(state, res).
                          (case CherryPickWorkloadInstance A state of
                             (inst, flop_ct, adaption_penalty) \<Rightarrow>
                               fp_cast to_float
                                 (fp_div to_double
                                    (fp_div to_double (to_double flop_ct)
                                       (to_float adaption_penalty))
                                    (to_double (FloatArrayMean A (costs res))))))
                       (zip states measurements)))
      else Inr (map (\<lambda>res. fp_cast to_float
                                (fp_div to_double (Finite 1)
                                   (to_double (FloatArrayMean A (costs res)))))
                  measurements))"

text \<open>
  One pass through the body of the loop. The result says whether the loop goes on
  (\<open>True\<close>) or is left with \<^verbatim>\<open>break\<close> (\<open>False\<close>).
\<close>

definition search_iteration ::
  "utils \<Rightarrow> (State, 'g, 'm) collaborators \<Rightarrow> (State, 'g, 'm, 'ms) measurement \<Rightarrow>
   (State, 'g, 'm) SketchPolicyNode SketchGenerationRule list \<Rightarrow>
   (State, 'g) PopulationMutationRule list \<Rightarrow> (State, 'g) PopulationMutationRule list \<Rightarrow>
   SketchParams \<Rightarrow> SearchTask \<Rightarrow> bool \<Rightarrow> State \<Rightarrow> int \<Rightarrow> int \<Rightarrow> int \<Rightarrow>
   ('g, 'm, 'ms) searching \<Rightarrow> (error + bool \<times> ('g, 'm, 'ms) searching) option" where
  "search_iteration U E A sketch_rules init_rules mutation_rules params task is_dyn init_state
     trials early_stopping num_random st =
     (let st1 = (if inputs st \<noteq> []
                 then st\<lparr>node := (node st)\<lparr>program_cost_model :=
                                    Update A (program_cost_model (node st)) (inputs st)
                                      (results st)\<rparr>,
                         trace := trace st @ [Called_Update]\<rparr>
                 else st)
      in case SearchOneRound U E A sketch_rules init_rules mutation_rules params is_dyn
                (length (wkl_insts task)) init_state (node st1) (num_random * 3)
                (Some (round_random st1)) of
           None \<Rightarrow> None
         | Some (Inl e) \<Rightarrow> Some (Inl e)
         | Some (Inr (best, random, policy1)) \<Rightarrow>
             (let best1 = InferBound E best;
                  random1 = InferBound E (case random of None \<Rightarrow> [] | Some rs \<Rightarrow> rs)
              in case PickStatesWithEpsGreedy E params policy1 best1 random1 (trials - ct st1) of
                   (picked, policy2) \<Rightarrow>
                     (let st2 = st1\<lparr>round_best := best1, round_random := random1,
                                    inputs := picked, node := policy2\<rparr>
                      in if picked = [] then
                           Some (Inr (0 < retries_left st2,
                                      st2\<lparr>retries_left := retries_left st2 - 1\<rparr>))
                         else
                           (case Measure A (measurer st2) policy2 picked of
                              (measurements, ms) \<Rightarrow>
                                (let st3 = st2\<lparr>retries_left := empty_retry_count params,
                                               results := measurements, measurer := ms,
                                               trace := trace st2 @ [Called_Measure]\<rparr>
                                 in case (if is_dyn
                                          then CalculateInstOptProb A task is_dyn ms policy2
                                          else Inr policy2) of
                                      Inl e \<Rightarrow> Some (Inl e)
                                    | Inr policy3 \<Rightarrow>
                                        (let st4 = st3\<lparr>node := policy3,
                                                       ct := ct st3 + int (length picked)\<rparr>
                                         in if early_stopping < ct st4 - best_ct A ms \<and>
                                               has_valid A ms
                                            then Some (Inr (False, st4))
                                            else
                                              (case measured_throughputs A is_dyn picked
                                                      measurements of
                                                 Inl e \<Rightarrow> Some (Inl e)
                                               | Inr ts \<Rightarrow>
                                                   Some (Inr (True,
                                                     st4\<lparr>node := policy3
                                                       \<lparr>n_trials := ct st4,
                                                        measured_states_throughputs :=
                                                          measured_states_throughputs policy3
                                                          @ ts\<rparr>\<rparr>)))))))))"

text \<open>Nothing in the loop bounds the number of passes that measure nothing new while
  retries are left and are being reset, so it is a partial function.\<close>

partial_function (option) search_while ::
  "(('g, 'm, 'ms) searching \<Rightarrow> (error + bool \<times> ('g, 'm, 'ms) searching) option) \<Rightarrow> int \<Rightarrow>
   ('g, 'm, 'ms) searching \<Rightarrow> (error + ('g, 'm, 'ms) searching) option" where
  "search_while body trials st =
     (if ct st < trials then
        (case body st of
           None \<Rightarrow> None
         | Some (Inl e) \<Rightarrow> Some (Inl e)
         | Some (Inr (go_on, st')) \<Rightarrow>
             (if go_on then search_while body trials st' else Some (Inr st')))
      else Some (Inr st))"

subsection \<open>Search\<close>

text \<open>
  \<^verbatim>\<open>Search\<close> returns the states with the dispatch map; the model returns with them the
  policy and the measurer as the call leaves them and the calls it made. The parameter
  \<open>n_trials\<close> of the source is \<open>trials\<close> here, the member of the same name being a field of
  the policy.
\<close>

definition Search ::
  "utils \<Rightarrow> (State, 'g, 'm) collaborators \<Rightarrow> (State, 'g, 'm, 'ms) measurement \<Rightarrow>
   (State, 'g, 'm) SketchPolicyNode SketchGenerationRule list \<Rightarrow>
   (State, 'g) PopulationMutationRule list \<Rightarrow> (State, 'g) PopulationMutationRule list \<Rightarrow>
   SketchParams \<Rightarrow> SearchTask \<Rightarrow> bool \<Rightarrow> State \<Rightarrow> (State, 'g, 'm) SketchPolicyNode \<Rightarrow> 'ms \<Rightarrow>
   int \<Rightarrow> int \<Rightarrow> int \<Rightarrow>
   (error + ((State list \<times> (nat \<times> nat) list) \<times> (State, 'g, 'm) SketchPolicyNode \<times> 'ms \<times>
             call list)) option" where
  "Search U E A sketch_rules init_rules mutation_rules params task is_dyn init_state policy ms
     trials early_stopping measure_per_iter =
     (let policy0 = policy\<lparr>num_measure_per_iter := measure_per_iter\<rparr>
      in if trials \<le> 1 then
           (case SearchOneRound U E A sketch_rules init_rules mutation_rules params is_dyn
                   (length (wkl_insts task)) init_state policy0 0 None of
              None \<Rightarrow> None
            | Some (Inl e) \<Rightarrow> Some (Inl e)
            | Some (Inr (best, random, policy1)) \<Rightarrow>
                (if \<not> 0 < length best then Some (Inl CheckFailed)
                 else Some (Inr (([best ! 0], []), policy1, ms, []))))
         else
           (let num_random = double_times_int (eps_greedy params) measure_per_iter;
                stopping = (if early_stopping < 0 then 1073741823 else early_stopping)
            in case search_while
                      (search_iteration U E A sketch_rules init_rules mutation_rules params
                         task is_dyn init_state trials stopping num_random)
                      trials
                      \<lparr>ct = 0, retries_left = empty_retry_count params, round_best = [],
                       round_random = [], inputs = [], results = [], node = policy0,
                       measurer = Reset A ms, trace = [Called_Reset]\<rparr> of
                 None \<Rightarrow> None
               | Some (Inl e) \<Rightarrow> Some (Inl e)
               | Some (Inr st) \<Rightarrow>
                   (if is_dyn then
                      (case final_dispatch A task (measured_states_vector (node st))
                              (measured_states_throughputs (node st)) (measurer st)
                              (trace st) of
                         None \<Rightarrow> None
                       | Some (Inl e) \<Rightarrow> Some (Inl e)
                       | Some (Inr (chosen, calls)) \<Rightarrow>
                           Some (Inr (chosen, node st, measurer st, calls)))
                    else Some (Inr ((best_states A (measurer st), []), node st,
                                    measurer st, trace st)))))"

subsection \<open>Concrete collaborators of Search\<close>

text \<open>
  For concrete runs over schedule states, the canonical string of a state has one letter
  for each of its steps; the other collaborators are those of the tape.
\<close>

definition step_letter :: "Step \<Rightarrow> char" where
  "step_letter step =
     (case step of
        SplitStep sid iid ext ls io \<Rightarrow> CHR ''S''
      | RfactorStep \<Rightarrow> CHR ''R''
      | OtherStep \<Rightarrow> CHR ''O'')"

definition schedule_collaborators :: "real list \<Rightarrow> (State, nat list, unit) collaborators" where
  "schedule_collaborators scores =
     \<lparr>ToStr = (\<lambda>s. map step_letter (transform_steps s)),
      InferBound = (\<lambda>ss. ss), PruneInvalidState = (\<lambda>ss. ss),
      Predict = (\<lambda>m ss. scores), PredictForAllInstances = (\<lambda>m ss. scores),
      IsRandomModel = (\<lambda>m. False), ComputePrefixSumProb = (\<lambda>ps. ps),
      RandomChoose = (\<lambda>ps g. tape_draw g),
      dis = (\<lambda>g. (real (fst (tape_draw g)) / 10, snd (tape_draw g))),
      draw = tape_draw, mt19937 = (\<lambda>seed. []),
      sort_heap = sort_desc, pow_float = (\<lambda>x n. power_int x n),
      make_object = next_address\<rparr>"

text \<open>
  A dispatcher for concrete runs that works like the selection at the end of
  \<^verbatim>\<open>EfficientSearch\<close>: every instance gets the state with the highest adapted score in
  its row (the first state if no score exceeds 0), the selected states are listed in
  the order of the instances, and the dispatch map sends an instance to its place in
  that list.
\<close>

fun fp_less :: "fp \<Rightarrow> fp \<Rightarrow> bool" where
  "fp_less NaN y = False"
| "fp_less x NaN = False"
| "fp_less (Finite a) (Finite b) = (a < b)"
| "fp_less (Finite a) PosInf = True"
| "fp_less NegInf (Finite b) = True"
| "fp_less NegInf PosInf = True"
| "fp_less x y = False"

definition top_state :: "fp list \<Rightarrow> nat" where
  "top_state row =
     fst (fold (\<lambda>(state_id, score) (select_state_id, max_score).
                  if fp_less max_score score then (state_id, score)
                  else (select_state_id, max_score))
            (zip [0..<length row] row) (0, Finite 0))"

definition top1_dispatch :: "fp list \<Rightarrow> nat \<Rightarrow> (nat \<times> nat) list" where
  "top1_dispatch adapted num_states =
     map (\<lambda>inst_id. (inst_id, top_state (take num_states (drop (inst_id * num_states) adapted))))
       [0..<length adapted div num_states]"

definition by_instance ::
  "(nat \<times> nat) list \<Rightarrow> 's list \<Rightarrow> fp list \<Rightarrow> wkl_inst list \<Rightarrow> fp list \<Rightarrow>
   (nat \<times> nat) list \<times> 's list \<times> fp list \<times> fp list" where
  "by_instance raw measured throughputs insts adapted =
     (map (\<lambda>inst_id. (inst_id, inst_id)) [0..<length insts],
      map (\<lambda>inst_id. measured ! lookup raw inst_id) [0..<length insts],
      map (\<lambda>inst_id. throughputs ! lookup raw inst_id) [0..<length insts],
      map (\<lambda>inst_id. adapted ! (inst_id * length measured + lookup raw inst_id))
        [0..<length insts])"

text \<open>
  A measurer for concrete runs: every measurement costs 1, the builder fails on the
  instances listed in \<open>failing\<close> and on no other, and adapting a state to an instance
  leaves its throughput as it is.
\<close>

definition example_measurement :: "wkl_inst list \<Rightarrow> ('s, nat list, unit, unit) measurement" where
  "example_measurement failing =
     \<lparr>Argsort = (\<lambda>ts. map int [0..<length ts]),
      RandomSampleStates = (\<lambda>ss g n. (take (nat n) ss, g)),
      Update = (\<lambda>m ss rs. m),
      Reset = (\<lambda>ms. ms),
      Measure = (\<lambda>ms p ss. (map (\<lambda>s. \<lparr>costs = [1]\<rparr>) ss, ms)),
      Build = (\<lambda>ms test_inputs.
                 map (\<lambda>(s, inst). \<lparr>error_no = (if inst \<in> set failing then 1 else 0)\<rparr>)
                   test_inputs),
      best_ct = (\<lambda>ms. 0),
      has_valid = (\<lambda>ms. True),
      best_states = (\<lambda>ms. []),
      best_inst_flops = (\<lambda>ms. []),
      FloatArrayMean = (\<lambda>cs. sum_list cs / real (length cs)),
      CherryPickWorkloadInstance = (\<lambda>s. ([], 1, 1)),
      EstimateFlopForInst = (\<lambda>vars inst. 1),
      AdaptStateToWorkload = (\<lambda>s inst throughput. throughput),
      dispatch = top1_dispatch,
      MapWklInstsToStates = by_instance,
      ComputePrefixSumProb_fp = (\<lambda>ps. [])\<rparr>"

text \<open>A dynamic task with three instances of its one shape variable.\<close>

definition three_instances :: SearchTask where
  "three_instances =
     example_task\<lparr>wkl_insts := [[64], [128], [256]], wkl_inst_weights := [1, 1, 1]\<rparr>"

text \<open>
  A static task, the sketch that the two example rules generate from the initial state of
  two stages, a policy that has measured nothing and asks for one sampled state, and the
  same policy after it has measured that sketch.
\<close>

definition static_task :: SearchTask where
  "static_task = example_task\<lparr>shape_vars := None, wkl_insts := [], wkl_inst_weights := []\<rparr>"

definition two_stages :: State where
  "two_stages = \<lparr>transform_steps = [], stages_size = 2\<rparr>"

definition factored :: State where
  "factored =
     \<lparr>transform_steps = [SplitStep 0 0 (\<lambda>inst. Some 8) [None] True, RfactorStep],
      stages_size = 2\<rparr>"

definition fresh_policy :: "(State, nat list, unit) SketchPolicyNode" where
  "fresh_policy = (tape_policy [])\<lparr>sample_init_min_pop := 1\<rparr>"

definition spent_policy :: "(State, nat list, unit) SketchPolicyNode" where
  "spent_policy =
     fresh_policy\<lparr>sketch_cache := [factored],
                   measured_states_set := {''SR''},
                   measured_states_vector := [factored],
                   measured_states_throughputs := [Finite 1],
                   n_trials := 1\<rparr>"

section \<open>Evaluating the rounding\<close>

lemma rne_int [simp]: "rne (of_int m) = m"
  by (simp add: rne_def)

lemma rne_near:
  assumes "\<bar>x - of_int m\<bar> < 1 / 2"
  shows "rne x = m"
proof (cases "of_int m \<le> x")
  case True
  with assms have "\<lfloor>x\<rfloor> = m" by (intro floor_unique) (auto simp: abs_if split: if_splits)
  with assms True show ?thesis by (auto simp: rne_def Let_def)
next
  case False
  with assms have f: "\<lfloor>x\<rfloor> = m - 1" by (intro floor_unique) (auto simp: abs_if split: if_splits)
  with assms False show ?thesis by (auto simp: rne_def Let_def)
qed

lemma rne_half: "rne (of_int n + 1 / 2) = (if even n then n else n + 1)"
proof -
  have "\<lfloor>(of_int n :: real) + 1 / 2\<rfloor> = n" by (intro floor_unique) auto
  then show ?thesis by (simp add: rne_def Let_def)
qed

lemma floor_log2:
  assumes "2 powi e \<le> x" "x < 2 powi (e + 1)"
  shows "\<lfloor>log 2 x\<rfloor> = e"
proof -
  have "(0 :: real) < 2 powi e" by (simp add: zero_less_power_int)
  with assms(1) have pos: "0 < x" by linarith
  have a: "2 powr (of_int e) = (2 :: real) powi e"
    by (simp add: powr_real_of_int')
  have b: "2 powr (of_int e + 1) = (2 :: real) powi (e + 1)"
    using powr_real_of_int' [of 2 "e + 1"] by simp
  have "of_int e \<le> log 2 x"
    using assms(1) pos a by (simp add: le_log_iff)
  moreover have "log 2 x < of_int e + 1"
    using assms(2) pos b by (simp add: log_less_iff)
  ultimately show ?thesis by (intro floor_unique) auto
qed

text \<open>
  A number between \<open>2^e\<close> and \<open>2^(e + 1)\<close> rounds to \<open>m\<close> units in the last place, once
  \<open>m\<close> is known to be the nearest integer.
\<close>

lemma round_to_eval:
  assumes "2 powi e \<le> \<bar>x\<bar>" "\<bar>x\<bar> < 2 powi (e + 1)" "1 - emax \<le> e"
    and "rne (x / 2 powi (e - int p + 1)) = m"
    and "\<bar>of_int m * 2 powi (e - int p + 1)\<bar> < (2 :: real) powi (emax + 1)"
  shows "round_to p emax x = Finite (of_int m * 2 powi (e - int p + 1))"
proof -
  have "(0 :: real) < 2 powi e" by (simp add: zero_less_power_int)
  with assms(1) have "0 < \<bar>x\<bar>" by linarith
  then have "x \<noteq> 0" by simp
  moreover have "\<lfloor>log 2 \<bar>x\<bar>\<rfloor> = e" using assms(1,2) by (rule floor_log2)
  moreover have "max e (1 - emax) = e" using assms(3) by simp
  ultimately show ?thesis
    using assms(4,5) by (simp add: round_to_def Let_def)
qed

text \<open>A number that the format represents is not changed by rounding.\<close>

lemma round_to_exact:
  assumes m: "\<bar>m\<bar> < 2 ^ p" and q: "2 - emax - int p \<le> q"
    and fin: "\<bar>of_int m * 2 powi q\<bar> < (2 :: real) powi (emax + 1)"
  shows "round_to p emax (of_int m * 2 powi q) = Finite (of_int m * 2 powi q)"
proof (cases "m = 0")
  case True
  then show ?thesis by (simp add: round_to_def)
next
  case False
  define x :: real where "x = of_int m * 2 powi q"
  have x0: "x \<noteq> 0" using False by (simp add: x_def)
  define k where "k = \<lfloor>log 2 \<bar>x\<bar>\<rfloor>"
  define e where "e = max k (1 - emax)"
  have "\<bar>x\<bar> < 2 powi (int p + q)"
  proof -
    have "\<bar>x\<bar> = of_int \<bar>m\<bar> * 2 powi q" by (simp add: x_def abs_mult)
    also have "\<dots> < 2 ^ p * 2 powi q"
    proof -
      have "(of_int \<bar>m\<bar> :: real) < of_int (2 ^ p)" using m by (simp only: of_int_less_iff)
      then have "(of_int \<bar>m\<bar> :: real) < 2 ^ p" by simp
      then show ?thesis by (simp add: zero_less_power_int)
    qed
    also have "\<dots> = 2 powi (int p + q)" by (simp add: power_int_add)
    finally show ?thesis .
  qed
  moreover have "2 powi k \<le> \<bar>x\<bar>"
  proof -
    have "of_int k \<le> log 2 \<bar>x\<bar>" unfolding k_def by (rule of_int_floor_le)
    then have "2 powr (of_int k) \<le> \<bar>x\<bar>" using x0 by (simp add: le_log_iff)
    then show ?thesis by (simp add: powr_real_of_int')
  qed
  ultimately have lt: "(2 :: real) powi k < 2 powi (int p + q)" by linarith
  have "k < int p + q"
  proof (rule ccontr)
    assume "\<not> k < int p + q"
    then have "int p + q \<le> k" by simp
    then have "(2 :: real) powi (int p + q) \<le> 2 powi k"
      by (rule power_int_increasing) simp
    with lt show False by linarith
  qed
  then have le: "e - int p + 1 \<le> q" using q by (simp add: e_def)
  define j where "j = nat (q - (e - int p + 1))"
  have "x / 2 powi (e - int p + 1) = of_int m * 2 powi (q - (e - int p + 1))"
    by (simp add: x_def power_int_diff)
  also have "\<dots> = of_int (m * 2 ^ j)"
    using le by (simp add: j_def power_int_def)
  finally have eq: "x / 2 powi (e - int p + 1) = of_int (m * 2 ^ j)" .
  have z: "rne (x / 2 powi (e - int p + 1)) = m * 2 ^ j"
    unfolding eq by (rule rne_int)
  have again: "of_int (m * 2 ^ j) * 2 powi (e - int p + 1) = x"
  proof -
    have "of_int (m * 2 ^ j) * 2 powi (e - int p + 1)
          = (of_int m :: real) * (2 powi (int j) * 2 powi (e - int p + 1))"
      by (simp add: mult.assoc)
    also have "\<dots> = of_int m * 2 powi (int j + (e - int p + 1))"
      by (simp add: power_int_add)
    also have "int j + (e - int p + 1) = q" using le by (simp add: j_def)
    finally show ?thesis by (simp add: x_def)
  qed
  have r: "of_int (rne (x / 2 powi (e - int p + 1))) * 2 powi (e - int p + 1) = x"
    unfolding z by (rule again)
  have small: "\<not> 2 powi (emax + 1) \<le> \<bar>x\<bar>"
    using fin by (simp add: x_def)
  have "round_to p emax x = Finite x"
    using x0 r small by (simp add: round_to_def Let_def e_def k_def)
  then show ?thesis by (simp add: x_def)
qed

lemma to_float_int: "\<bar>m\<bar> < 2 ^ 24 \<Longrightarrow> to_float (of_int m) = Finite (of_int m)"
  using round_to_exact [of m 24 127 0] by (simp add: to_float_def)

lemma to_double_int: "\<bar>m\<bar> < 2 ^ 53 \<Longrightarrow> to_double (of_int m) = Finite (of_int m)"
  using round_to_exact [of m 53 1023 0] by (simp add: to_double_def)

lemma to_float_nat: "n < 2 ^ 24 \<Longrightarrow> to_float (real n) = Finite (real n)"
  using to_float_int [of "int n"] by simp

lemma to_double_nat: "n < 2 ^ 53 \<Longrightarrow> to_double (real n) = Finite (real n)"
  using to_double_int [of "int n"] by simp

lemma to_float_numeral [simp]:
  "(numeral n :: int) < 2 ^ 24 \<Longrightarrow> to_float (numeral n) = Finite (numeral n)"
  using to_float_int [of "numeral n"] by simp

lemma to_double_numeral [simp]:
  "(numeral n :: int) < 2 ^ 53 \<Longrightarrow> to_double (numeral n) = Finite (numeral n)"
  using to_double_int [of "numeral n"] by simp

lemma to_float_0 [simp]: "to_float 0 = Finite 0"
  by (simp add: to_float_def round_to_def)

lemma to_double_0 [simp]: "to_double 0 = Finite 0"
  by (simp add: to_double_def round_to_def)

lemma to_float_1 [simp]: "to_float 1 = Finite 1"
  using to_float_int [of 1] by simp

lemma to_double_1 [simp]: "to_double 1 = Finite 1"
  using to_double_int [of 1] by simp

subsection \<open>The thresholds of the relaxation loops\<close>

declare occupancy_ratio.simps [simp del] padding_threshold.simps [simp del]

text \<open>
  The values that the two threshold variables take in the first 21 rounds, each obtained
  by rounding the exact difference.
\<close>

lemma double_095: "to_double (95 / 100) = Finite (4278419646001971 / 4503599627370496)"
proof -
  have "rne (95 / 100 / 2 powi ((- 1) - int 53 + 1)) = 8556839292003942"
    by (rule rne_near) (simp add: power_int_minus field_simps)
  from round_to_eval [where e = "- 1" and p = 53 and emax = 1023 and x = "95 / 100", OF _ _ _ this]
  show ?thesis by (simp add: to_double_def power_int_minus)
qed

lemma double_005: "to_double (5 / 100) = Finite (3602879701896397 / 72057594037927936)"
proof -
  have "rne (5 / 100 / 2 powi ((- 5) - int 53 + 1)) = 7205759403792794"
    by (rule rne_near) (simp add: power_int_minus field_simps)
  from round_to_eval [where e = "- 5" and p = 53 and emax = 1023 and x = "5 / 100", OF _ _ _ this]
  show ?thesis by (simp add: to_double_def power_int_minus)
qed

lemma padding_threshold_0: "padding_threshold 0 = Finite (4278419646001971 / 4503599627370496)"
  by (simp only: padding_threshold.simps double_095)

lemma double_step_1: "to_double (64851834634135139 / 72057594037927936) = Finite (2026619832316723 / 2251799813685248)"
proof -
  have "rne ((64851834634135139 / 72057594037927936) / 2 powi ((- 1) - int 53 + 1)) = 8106479329266892"
    by (rule rne_near) (simp add: power_int_minus field_simps)
  from round_to_eval [where e = "- 1" and p = 53 and emax = 1023 and x = "64851834634135139 / 72057594037927936", OF _ _ _ this]
  show ?thesis by (simp add: to_double_def power_int_minus)
qed

lemma padding_threshold_1: "padding_threshold 1 = Finite (2026619832316723 / 2251799813685248)"
proof -
  have "(1 :: nat) = Suc 0" by simp
  then have "padding_threshold 1 = padding_threshold (Suc 0)" by (rule arg_cong)
  also have "\<dots> = to_double (4278419646001971 / 4503599627370496 + - (3602879701896397 / 72057594037927936))"
    by (simp only: padding_threshold.simps(2) padding_threshold_0 double_005 fp_sub_def fp_neg.simps fp_add.simps)
  also have "4278419646001971 / 4503599627370496 + - (3602879701896397 / 72057594037927936) = (64851834634135139 / 72057594037927936 :: real)" by simp
  finally show ?thesis by (simp only: double_step_1)
qed

lemma double_step_2: "to_double (61248954932238739 / 72057594037927936) = Finite (3828059683264921 / 4503599627370496)"
proof -
  have "rne ((61248954932238739 / 72057594037927936) / 2 powi ((- 1) - int 53 + 1)) = 7656119366529842"
    by (rule rne_near) (simp add: power_int_minus field_simps)
  from round_to_eval [where e = "- 1" and p = 53 and emax = 1023 and x = "61248954932238739 / 72057594037927936", OF _ _ _ this]
  show ?thesis by (simp add: to_double_def power_int_minus)
qed

lemma padding_threshold_2: "padding_threshold 2 = Finite (3828059683264921 / 4503599627370496)"
proof -
  have "(2 :: nat) = Suc 1" by simp
  then have "padding_threshold 2 = padding_threshold (Suc 1)" by (rule arg_cong)
  also have "\<dots> = to_double (2026619832316723 / 2251799813685248 + - (3602879701896397 / 72057594037927936))"
    by (simp only: padding_threshold.simps(2) padding_threshold_1 double_005 fp_sub_def fp_neg.simps fp_add.simps)
  also have "2026619832316723 / 2251799813685248 + - (3602879701896397 / 72057594037927936) = (61248954932238739 / 72057594037927936 :: real)" by simp
  finally show ?thesis by (simp only: double_step_2)
qed

lemma double_step_3: "to_double (57646075230342339 / 72057594037927936) = Finite (900719925474099 / 1125899906842624)"
proof -
  have "rne ((57646075230342339 / 72057594037927936) / 2 powi ((- 1) - int 53 + 1)) = 7205759403792792"
    by (rule rne_near) (simp add: power_int_minus field_simps)
  from round_to_eval [where e = "- 1" and p = 53 and emax = 1023 and x = "57646075230342339 / 72057594037927936", OF _ _ _ this]
  show ?thesis by (simp add: to_double_def power_int_minus)
qed

lemma padding_threshold_3: "padding_threshold 3 = Finite (900719925474099 / 1125899906842624)"
proof -
  have "(3 :: nat) = Suc 2" by simp
  then have "padding_threshold 3 = padding_threshold (Suc 2)" by (rule arg_cong)
  also have "\<dots> = to_double (3828059683264921 / 4503599627370496 + - (3602879701896397 / 72057594037927936))"
    by (simp only: padding_threshold.simps(2) padding_threshold_2 double_005 fp_sub_def fp_neg.simps fp_add.simps)
  also have "3828059683264921 / 4503599627370496 + - (3602879701896397 / 72057594037927936) = (57646075230342339 / 72057594037927936 :: real)" by simp
  finally show ?thesis by (simp only: double_step_3)
qed

lemma double_step_4: "to_double (54043195528445939 / 72057594037927936) = Finite (3377699720527871 / 4503599627370496)"
proof -
  have "rne ((54043195528445939 / 72057594037927936) / 2 powi ((- 1) - int 53 + 1)) = 6755399441055742"
    by (rule rne_near) (simp add: power_int_minus field_simps)
  from round_to_eval [where e = "- 1" and p = 53 and emax = 1023 and x = "54043195528445939 / 72057594037927936", OF _ _ _ this]
  show ?thesis by (simp add: to_double_def power_int_minus)
qed

lemma padding_threshold_4: "padding_threshold 4 = Finite (3377699720527871 / 4503599627370496)"
proof -
  have "(4 :: nat) = Suc 3" by simp
  then have "padding_threshold 4 = padding_threshold (Suc 3)" by (rule arg_cong)
  also have "\<dots> = to_double (900719925474099 / 1125899906842624 + - (3602879701896397 / 72057594037927936))"
    by (simp only: padding_threshold.simps(2) padding_threshold_3 double_005 fp_sub_def fp_neg.simps fp_add.simps)
  also have "900719925474099 / 1125899906842624 + - (3602879701896397 / 72057594037927936) = (54043195528445939 / 72057594037927936 :: real)" by simp
  finally show ?thesis by (simp only: double_step_4)
qed

lemma double_step_5: "to_double (50440315826549539 / 72057594037927936) = Finite (1576259869579673 / 2251799813685248)"
proof -
  have "rne ((50440315826549539 / 72057594037927936) / 2 powi ((- 1) - int 53 + 1)) = 6305039478318692"
    by (rule rne_near) (simp add: power_int_minus field_simps)
  from round_to_eval [where e = "- 1" and p = 53 and emax = 1023 and x = "50440315826549539 / 72057594037927936", OF _ _ _ this]
  show ?thesis by (simp add: to_double_def power_int_minus)
qed

lemma padding_threshold_5: "padding_threshold 5 = Finite (1576259869579673 / 2251799813685248)"
proof -
  have "(5 :: nat) = Suc 4" by simp
  then have "padding_threshold 5 = padding_threshold (Suc 4)" by (rule arg_cong)
  also have "\<dots> = to_double (3377699720527871 / 4503599627370496 + - (3602879701896397 / 72057594037927936))"
    by (simp only: padding_threshold.simps(2) padding_threshold_4 double_005 fp_sub_def fp_neg.simps fp_add.simps)
  also have "3377699720527871 / 4503599627370496 + - (3602879701896397 / 72057594037927936) = (50440315826549539 / 72057594037927936 :: real)" by simp
  finally show ?thesis by (simp only: double_step_5)
qed

lemma double_step_6: "to_double (46837436124653139 / 72057594037927936) = Finite (2927339757790821 / 4503599627370496)"
proof -
  have "rne ((46837436124653139 / 72057594037927936) / 2 powi ((- 1) - int 53 + 1)) = 5854679515581642"
    by (rule rne_near) (simp add: power_int_minus field_simps)
  from round_to_eval [where e = "- 1" and p = 53 and emax = 1023 and x = "46837436124653139 / 72057594037927936", OF _ _ _ this]
  show ?thesis by (simp add: to_double_def power_int_minus)
qed

lemma padding_threshold_6: "padding_threshold 6 = Finite (2927339757790821 / 4503599627370496)"
proof -
  have "(6 :: nat) = Suc 5" by simp
  then have "padding_threshold 6 = padding_threshold (Suc 5)" by (rule arg_cong)
  also have "\<dots> = to_double (1576259869579673 / 2251799813685248 + - (3602879701896397 / 72057594037927936))"
    by (simp only: padding_threshold.simps(2) padding_threshold_5 double_005 fp_sub_def fp_neg.simps fp_add.simps)
  also have "1576259869579673 / 2251799813685248 + - (3602879701896397 / 72057594037927936) = (46837436124653139 / 72057594037927936 :: real)" by simp
  finally show ?thesis by (simp only: double_step_6)
qed

lemma double_step_7: "to_double (43234556422756739 / 72057594037927936) = Finite (337769972052787 / 562949953421312)"
proof -
  have "rne ((43234556422756739 / 72057594037927936) / 2 powi ((- 1) - int 53 + 1)) = 5404319552844592"
    by (rule rne_near) (simp add: power_int_minus field_simps)
  from round_to_eval [where e = "- 1" and p = 53 and emax = 1023 and x = "43234556422756739 / 72057594037927936", OF _ _ _ this]
  show ?thesis by (simp add: to_double_def power_int_minus)
qed

lemma padding_threshold_7: "padding_threshold 7 = Finite (337769972052787 / 562949953421312)"
proof -
  have "(7 :: nat) = Suc 6" by simp
  then have "padding_threshold 7 = padding_threshold (Suc 6)" by (rule arg_cong)
  also have "\<dots> = to_double (2927339757790821 / 4503599627370496 + - (3602879701896397 / 72057594037927936))"
    by (simp only: padding_threshold.simps(2) padding_threshold_6 double_005 fp_sub_def fp_neg.simps fp_add.simps)
  also have "2927339757790821 / 4503599627370496 + - (3602879701896397 / 72057594037927936) = (43234556422756739 / 72057594037927936 :: real)" by simp
  finally show ?thesis by (simp only: double_step_7)
qed

lemma double_step_8: "to_double (39631676720860339 / 72057594037927936) = Finite (2476979795053771 / 4503599627370496)"
proof -
  have "rne ((39631676720860339 / 72057594037927936) / 2 powi ((- 1) - int 53 + 1)) = 4953959590107542"
    by (rule rne_near) (simp add: power_int_minus field_simps)
  from round_to_eval [where e = "- 1" and p = 53 and emax = 1023 and x = "39631676720860339 / 72057594037927936", OF _ _ _ this]
  show ?thesis by (simp add: to_double_def power_int_minus)
qed

lemma padding_threshold_8: "padding_threshold 8 = Finite (2476979795053771 / 4503599627370496)"
proof -
  have "(8 :: nat) = Suc 7" by simp
  then have "padding_threshold 8 = padding_threshold (Suc 7)" by (rule arg_cong)
  also have "\<dots> = to_double (337769972052787 / 562949953421312 + - (3602879701896397 / 72057594037927936))"
    by (simp only: padding_threshold.simps(2) padding_threshold_7 double_005 fp_sub_def fp_neg.simps fp_add.simps)
  also have "337769972052787 / 562949953421312 + - (3602879701896397 / 72057594037927936) = (39631676720860339 / 72057594037927936 :: real)" by simp
  finally show ?thesis by (simp only: double_step_8)
qed

lemma double_step_9: "to_double (36028797018963939 / 72057594037927936) = Finite (9007199254740985 / 18014398509481984)"
proof -
  have "rne ((36028797018963939 / 72057594037927936) / 2 powi ((- 2) - int 53 + 1)) = 9007199254740985"
    by (rule rne_near) (simp add: power_int_minus field_simps)
  from round_to_eval [where e = "- 2" and p = 53 and emax = 1023 and x = "36028797018963939 / 72057594037927936", OF _ _ _ this]
  show ?thesis by (simp add: to_double_def power_int_minus)
qed

lemma padding_threshold_9: "padding_threshold 9 = Finite (9007199254740985 / 18014398509481984)"
proof -
  have "(9 :: nat) = Suc 8" by simp
  then have "padding_threshold 9 = padding_threshold (Suc 8)" by (rule arg_cong)
  also have "\<dots> = to_double (2476979795053771 / 4503599627370496 + - (3602879701896397 / 72057594037927936))"
    by (simp only: padding_threshold.simps(2) padding_threshold_8 double_005 fp_sub_def fp_neg.simps fp_add.simps)
  also have "2476979795053771 / 4503599627370496 + - (3602879701896397 / 72057594037927936) = (36028797018963939 / 72057594037927936 :: real)" by simp
  finally show ?thesis by (simp only: double_step_9)
qed

lemma double_step_10: "to_double (32425917317067543 / 72057594037927936) = Finite (4053239664633443 / 9007199254740992)"
proof -
  have "rne ((32425917317067543 / 72057594037927936) / 2 powi ((- 2) - int 53 + 1)) = 8106479329266886"
    by (rule rne_near) (simp add: power_int_minus field_simps)
  from round_to_eval [where e = "- 2" and p = 53 and emax = 1023 and x = "32425917317067543 / 72057594037927936", OF _ _ _ this]
  show ?thesis by (simp add: to_double_def power_int_minus)
qed

lemma padding_threshold_10: "padding_threshold 10 = Finite (4053239664633443 / 9007199254740992)"
proof -
  have "(10 :: nat) = Suc 9" by simp
  then have "padding_threshold 10 = padding_threshold (Suc 9)" by (rule arg_cong)
  also have "\<dots> = to_double (9007199254740985 / 18014398509481984 + - (3602879701896397 / 72057594037927936))"
    by (simp only: padding_threshold.simps(2) padding_threshold_9 double_005 fp_sub_def fp_neg.simps fp_add.simps)
  also have "9007199254740985 / 18014398509481984 + - (3602879701896397 / 72057594037927936) = (32425917317067543 / 72057594037927936 :: real)" by simp
  finally show ?thesis by (simp only: double_step_10)
qed

lemma double_step_11: "to_double (28823037615171147 / 72057594037927936) = Finite (7205759403792787 / 18014398509481984)"
proof -
  have "rne ((28823037615171147 / 72057594037927936) / 2 powi ((- 2) - int 53 + 1)) = 7205759403792787"
    by (rule rne_near) (simp add: power_int_minus field_simps)
  from round_to_eval [where e = "- 2" and p = 53 and emax = 1023 and x = "28823037615171147 / 72057594037927936", OF _ _ _ this]
  show ?thesis by (simp add: to_double_def power_int_minus)
qed

lemma padding_threshold_11: "padding_threshold 11 = Finite (7205759403792787 / 18014398509481984)"
proof -
  have "(11 :: nat) = Suc 10" by simp
  then have "padding_threshold 11 = padding_threshold (Suc 10)" by (rule arg_cong)
  also have "\<dots> = to_double (4053239664633443 / 9007199254740992 + - (3602879701896397 / 72057594037927936))"
    by (simp only: padding_threshold.simps(2) padding_threshold_10 double_005 fp_sub_def fp_neg.simps fp_add.simps)
  also have "4053239664633443 / 9007199254740992 + - (3602879701896397 / 72057594037927936) = (28823037615171147 / 72057594037927936 :: real)" by simp
  finally show ?thesis by (simp only: double_step_11)
qed

lemma double_step_12: "to_double (25220157913274751 / 72057594037927936) = Finite (197032483697459 / 562949953421312)"
proof -
  have "rne ((25220157913274751 / 72057594037927936) / 2 powi ((- 2) - int 53 + 1)) = 6305039478318688"
    by (rule rne_near) (simp add: power_int_minus field_simps)
  from round_to_eval [where e = "- 2" and p = 53 and emax = 1023 and x = "25220157913274751 / 72057594037927936", OF _ _ _ this]
  show ?thesis by (simp add: to_double_def power_int_minus)
qed

lemma padding_threshold_12: "padding_threshold 12 = Finite (197032483697459 / 562949953421312)"
proof -
  have "(12 :: nat) = Suc 11" by simp
  then have "padding_threshold 12 = padding_threshold (Suc 11)" by (rule arg_cong)
  also have "\<dots> = to_double (7205759403792787 / 18014398509481984 + - (3602879701896397 / 72057594037927936))"
    by (simp only: padding_threshold.simps(2) padding_threshold_11 double_005 fp_sub_def fp_neg.simps fp_add.simps)
  also have "7205759403792787 / 18014398509481984 + - (3602879701896397 / 72057594037927936) = (25220157913274751 / 72057594037927936 :: real)" by simp
  finally show ?thesis by (simp only: double_step_12)
qed

lemma double_step_13: "to_double (21617278211378355 / 72057594037927936) = Finite (5404319552844589 / 18014398509481984)"
proof -
  have "rne ((21617278211378355 / 72057594037927936) / 2 powi ((- 2) - int 53 + 1)) = 5404319552844589"
    by (rule rne_near) (simp add: power_int_minus field_simps)
  from round_to_eval [where e = "- 2" and p = 53 and emax = 1023 and x = "21617278211378355 / 72057594037927936", OF _ _ _ this]
  show ?thesis by (simp add: to_double_def power_int_minus)
qed

lemma padding_threshold_13: "padding_threshold 13 = Finite (5404319552844589 / 18014398509481984)"
proof -
  have "(13 :: nat) = Suc 12" by simp
  then have "padding_threshold 13 = padding_threshold (Suc 12)" by (rule arg_cong)
  also have "\<dots> = to_double (197032483697459 / 562949953421312 + - (3602879701896397 / 72057594037927936))"
    by (simp only: padding_threshold.simps(2) padding_threshold_12 double_005 fp_sub_def fp_neg.simps fp_add.simps)
  also have "197032483697459 / 562949953421312 + - (3602879701896397 / 72057594037927936) = (21617278211378355 / 72057594037927936 :: real)" by simp
  finally show ?thesis by (simp only: double_step_13)
qed

lemma double_step_14: "to_double (18014398509481959 / 72057594037927936) = Finite (2251799813685245 / 9007199254740992)"
proof -
  have "(18014398509481959 / 72057594037927936) / 2 powi ((- 3) - int 53 + 1) = (of_int (9007199254740979) + 1 / 2 :: real)"
    by (simp add: power_int_minus field_simps)
  then have "rne ((18014398509481959 / 72057594037927936) / 2 powi ((- 3) - int 53 + 1)) = 9007199254740980"
    by (simp only: rne_half) simp
  from round_to_eval [where e = "- 3" and p = 53 and emax = 1023 and x = "18014398509481959 / 72057594037927936", OF _ _ _ this]
  show ?thesis by (simp add: to_double_def power_int_minus)
qed

lemma padding_threshold_14: "padding_threshold 14 = Finite (2251799813685245 / 9007199254740992)"
proof -
  have "(14 :: nat) = Suc 13" by simp
  then have "padding_threshold 14 = padding_threshold (Suc 13)" by (rule arg_cong)
  also have "\<dots> = to_double (5404319552844589 / 18014398509481984 + - (3602879701896397 / 72057594037927936))"
    by (simp only: padding_threshold.simps(2) padding_threshold_13 double_005 fp_sub_def fp_neg.simps fp_add.simps)
  also have "5404319552844589 / 18014398509481984 + - (3602879701896397 / 72057594037927936) = (18014398509481959 / 72057594037927936 :: real)" by simp
  finally show ?thesis by (simp only: double_step_14)
qed

lemma double_step_15: "to_double (14411518807585563 / 72057594037927936) = Finite (3602879701896391 / 18014398509481984)"
proof -
  have "(14411518807585563 / 72057594037927936) / 2 powi ((- 3) - int 53 + 1) = (of_int (7205759403792781) + 1 / 2 :: real)"
    by (simp add: power_int_minus field_simps)
  then have "rne ((14411518807585563 / 72057594037927936) / 2 powi ((- 3) - int 53 + 1)) = 7205759403792782"
    by (simp only: rne_half) simp
  from round_to_eval [where e = "- 3" and p = 53 and emax = 1023 and x = "14411518807585563 / 72057594037927936", OF _ _ _ this]
  show ?thesis by (simp add: to_double_def power_int_minus)
qed

lemma padding_threshold_15: "padding_threshold 15 = Finite (3602879701896391 / 18014398509481984)"
proof -
  have "(15 :: nat) = Suc 14" by simp
  then have "padding_threshold 15 = padding_threshold (Suc 14)" by (rule arg_cong)
  also have "\<dots> = to_double (2251799813685245 / 9007199254740992 + - (3602879701896397 / 72057594037927936))"
    by (simp only: padding_threshold.simps(2) padding_threshold_14 double_005 fp_sub_def fp_neg.simps fp_add.simps)
  also have "2251799813685245 / 9007199254740992 + - (3602879701896397 / 72057594037927936) = (14411518807585563 / 72057594037927936 :: real)" by simp
  finally show ?thesis by (simp only: double_step_15)
qed

lemma double_step_16: "to_double (10808639105689167 / 72057594037927936) = Finite (675539944105573 / 4503599627370496)"
proof -
  have "(10808639105689167 / 72057594037927936) / 2 powi ((- 3) - int 53 + 1) = (of_int (5404319552844583) + 1 / 2 :: real)"
    by (simp add: power_int_minus field_simps)
  then have "rne ((10808639105689167 / 72057594037927936) / 2 powi ((- 3) - int 53 + 1)) = 5404319552844584"
    by (simp only: rne_half) simp
  from round_to_eval [where e = "- 3" and p = 53 and emax = 1023 and x = "10808639105689167 / 72057594037927936", OF _ _ _ this]
  show ?thesis by (simp add: to_double_def power_int_minus)
qed

lemma padding_threshold_16: "padding_threshold 16 = Finite (675539944105573 / 4503599627370496)"
proof -
  have "(16 :: nat) = Suc 15" by simp
  then have "padding_threshold 16 = padding_threshold (Suc 15)" by (rule arg_cong)
  also have "\<dots> = to_double (3602879701896391 / 18014398509481984 + - (3602879701896397 / 72057594037927936))"
    by (simp only: padding_threshold.simps(2) padding_threshold_15 double_005 fp_sub_def fp_neg.simps fp_add.simps)
  also have "3602879701896391 / 18014398509481984 + - (3602879701896397 / 72057594037927936) = (10808639105689167 / 72057594037927936 :: real)" by simp
  finally show ?thesis by (simp only: double_step_16)
qed

lemma double_step_17: "to_double (7205759403792771 / 72057594037927936) = Finite (7205759403792771 / 72057594037927936)"
  using round_to_exact [of "7205759403792771" 53 1023 "- 56"]
  by (simp add: to_double_def power_int_minus)

lemma padding_threshold_17: "padding_threshold 17 = Finite (7205759403792771 / 72057594037927936)"
proof -
  have "(17 :: nat) = Suc 16" by simp
  then have "padding_threshold 17 = padding_threshold (Suc 16)" by (rule arg_cong)
  also have "\<dots> = to_double (675539944105573 / 4503599627370496 + - (3602879701896397 / 72057594037927936))"
    by (simp only: padding_threshold.simps(2) padding_threshold_16 double_005 fp_sub_def fp_neg.simps fp_add.simps)
  also have "675539944105573 / 4503599627370496 + - (3602879701896397 / 72057594037927936) = (7205759403792771 / 72057594037927936 :: real)" by simp
  finally show ?thesis by (simp only: double_step_17)
qed

lemma double_step_18: "to_double (1801439850948187 / 36028797018963968) = Finite (1801439850948187 / 36028797018963968)"
  using round_to_exact [of "1801439850948187" 53 1023 "- 55"]
  by (simp add: to_double_def power_int_minus)

lemma padding_threshold_18: "padding_threshold 18 = Finite (1801439850948187 / 36028797018963968)"
proof -
  have "(18 :: nat) = Suc 17" by simp
  then have "padding_threshold 18 = padding_threshold (Suc 17)" by (rule arg_cong)
  also have "\<dots> = to_double (7205759403792771 / 72057594037927936 + - (3602879701896397 / 72057594037927936))"
    by (simp only: padding_threshold.simps(2) padding_threshold_17 double_005 fp_sub_def fp_neg.simps fp_add.simps)
  also have "7205759403792771 / 72057594037927936 + - (3602879701896397 / 72057594037927936) = (1801439850948187 / 36028797018963968 :: real)" by simp
  finally show ?thesis by (simp only: double_step_18)
qed

lemma double_step_19: "to_double (- (23 / 72057594037927936)) = Finite (- (23 / 72057594037927936))"
  using round_to_exact [of "- 23" 53 1023 "- 56"]
  by (simp add: to_double_def power_int_minus)

lemma padding_threshold_19: "padding_threshold 19 = Finite (- (23 / 72057594037927936))"
proof -
  have "(19 :: nat) = Suc 18" by simp
  then have "padding_threshold 19 = padding_threshold (Suc 18)" by (rule arg_cong)
  also have "\<dots> = to_double (1801439850948187 / 36028797018963968 + - (3602879701896397 / 72057594037927936))"
    by (simp only: padding_threshold.simps(2) padding_threshold_18 double_005 fp_sub_def fp_neg.simps fp_add.simps)
  also have "1801439850948187 / 36028797018963968 + - (3602879701896397 / 72057594037927936) = (- (23 / 72057594037927936) :: real)" by simp
  finally show ?thesis by (simp only: double_step_19)
qed

lemma double_step_20: "to_double (- (900719925474105 / 18014398509481984)) = Finite (- (900719925474105 / 18014398509481984))"
  using round_to_exact [of "- 900719925474105" 53 1023 "- 54"]
  by (simp add: to_double_def power_int_minus)

lemma padding_threshold_20: "padding_threshold 20 = Finite (- (900719925474105 / 18014398509481984))"
proof -
  have "(20 :: nat) = Suc 19" by simp
  then have "padding_threshold 20 = padding_threshold (Suc 19)" by (rule arg_cong)
  also have "\<dots> = to_double (- (23 / 72057594037927936) + - (3602879701896397 / 72057594037927936))"
    by (simp only: padding_threshold.simps(2) padding_threshold_19 double_005 fp_sub_def fp_neg.simps fp_add.simps)
  also have "- (23 / 72057594037927936) + - (3602879701896397 / 72057594037927936) = (- (900719925474105 / 18014398509481984) :: real)" by simp
  finally show ?thesis by (simp only: double_step_20)
qed

lemma float_095: "to_float (4278419646001971 / 4503599627370496) = Finite (15938355 / 16777216)"
proof -
  have "rne ((4278419646001971 / 4503599627370496) / 2 powi ((- 1) - int 24 + 1)) = 15938355"
    by (rule rne_near) (simp add: power_int_minus field_simps)
  from round_to_eval [where e = "- 1" and p = 24 and emax = 127 and x = "4278419646001971 / 4503599627370496", OF _ _ _ this]
  show ?thesis by (simp add: to_float_def power_int_minus)
qed

lemma occupancy_ratio_0: "occupancy_ratio 0 = Finite (15938355 / 16777216)"
  by (simp only: occupancy_ratio.simps double_095 fp_cast.simps float_095)

lemma float_step_1_double: "to_double (64851833775141683 / 72057594037927936) = Finite (4053239610946355 / 4503599627370496)"
proof -
  have "rne ((64851833775141683 / 72057594037927936) / 2 powi ((- 1) - int 53 + 1)) = 8106479221892710"
    by (rule rne_near) (simp add: power_int_minus field_simps)
  from round_to_eval [where e = "- 1" and p = 53 and emax = 1023 and x = "64851833775141683 / 72057594037927936", OF _ _ _ this]
  show ?thesis by (simp add: to_double_def power_int_minus)
qed

lemma float_step_1: "to_float (4053239610946355 / 4503599627370496) = Finite (7549747 / 8388608)"
proof -
  have "rne ((4053239610946355 / 4503599627370496) / 2 powi ((- 1) - int 24 + 1)) = 15099494"
    by (rule rne_near) (simp add: power_int_minus field_simps)
  from round_to_eval [where e = "- 1" and p = 24 and emax = 127 and x = "4053239610946355 / 4503599627370496", OF _ _ _ this]
  show ?thesis by (simp add: to_float_def power_int_minus)
qed

lemma occupancy_ratio_1: "occupancy_ratio 1 = Finite (7549747 / 8388608)"
proof -
  have "(1 :: nat) = Suc 0" by simp
  then have "occupancy_ratio 1 = occupancy_ratio (Suc 0)" by (rule arg_cong)
  also have "\<dots> = fp_cast to_float (to_double (15938355 / 16777216 + - (3602879701896397 / 72057594037927936)))"
    by (simp only: occupancy_ratio.simps(2) occupancy_ratio_0 double_005 fp_sub_def fp_neg.simps fp_add.simps)
  also have "15938355 / 16777216 + - (3602879701896397 / 72057594037927936) = (64851833775141683 / 72057594037927936 :: real)" by simp
  finally show ?thesis by (simp only: float_step_1_double fp_cast.simps float_step_1)
qed

lemma float_step_2_double: "to_double (61248953214251827 / 72057594037927936) = Finite (3828059575890739 / 4503599627370496)"
proof -
  have "rne ((61248953214251827 / 72057594037927936) / 2 powi ((- 1) - int 53 + 1)) = 7656119151781478"
    by (rule rne_near) (simp add: power_int_minus field_simps)
  from round_to_eval [where e = "- 1" and p = 53 and emax = 1023 and x = "61248953214251827 / 72057594037927936", OF _ _ _ this]
  show ?thesis by (simp add: to_double_def power_int_minus)
qed

lemma float_step_2: "to_float (3828059575890739 / 4503599627370496) = Finite (14260633 / 16777216)"
proof -
  have "rne ((3828059575890739 / 4503599627370496) / 2 powi ((- 1) - int 24 + 1)) = 14260633"
    by (rule rne_near) (simp add: power_int_minus field_simps)
  from round_to_eval [where e = "- 1" and p = 24 and emax = 127 and x = "3828059575890739 / 4503599627370496", OF _ _ _ this]
  show ?thesis by (simp add: to_float_def power_int_minus)
qed

lemma occupancy_ratio_2: "occupancy_ratio 2 = Finite (14260633 / 16777216)"
proof -
  have "(2 :: nat) = Suc 1" by simp
  then have "occupancy_ratio 2 = occupancy_ratio (Suc 1)" by (rule arg_cong)
  also have "\<dots> = fp_cast to_float (to_double (7549747 / 8388608 + - (3602879701896397 / 72057594037927936)))"
    by (simp only: occupancy_ratio.simps(2) occupancy_ratio_1 double_005 fp_sub_def fp_neg.simps fp_add.simps)
  also have "7549747 / 8388608 + - (3602879701896397 / 72057594037927936) = (61248953214251827 / 72057594037927936 :: real)" by simp
  finally show ?thesis by (simp only: float_step_2_double fp_cast.simps float_step_2)
qed

lemma float_step_3_double: "to_double (57646072653361971 / 72057594037927936) = Finite (3602879540835123 / 4503599627370496)"
proof -
  have "rne ((57646072653361971 / 72057594037927936) / 2 powi ((- 1) - int 53 + 1)) = 7205759081670246"
    by (rule rne_near) (simp add: power_int_minus field_simps)
  from round_to_eval [where e = "- 1" and p = 53 and emax = 1023 and x = "57646072653361971 / 72057594037927936", OF _ _ _ this]
  show ?thesis by (simp add: to_double_def power_int_minus)
qed

lemma float_step_3: "to_float (3602879540835123 / 4503599627370496) = Finite (3355443 / 4194304)"
proof -
  have "rne ((3602879540835123 / 4503599627370496) / 2 powi ((- 1) - int 24 + 1)) = 13421772"
    by (rule rne_near) (simp add: power_int_minus field_simps)
  from round_to_eval [where e = "- 1" and p = 24 and emax = 127 and x = "3602879540835123 / 4503599627370496", OF _ _ _ this]
  show ?thesis by (simp add: to_float_def power_int_minus)
qed

lemma occupancy_ratio_3: "occupancy_ratio 3 = Finite (3355443 / 4194304)"
proof -
  have "(3 :: nat) = Suc 2" by simp
  then have "occupancy_ratio 3 = occupancy_ratio (Suc 2)" by (rule arg_cong)
  also have "\<dots> = fp_cast to_float (to_double (14260633 / 16777216 + - (3602879701896397 / 72057594037927936)))"
    by (simp only: occupancy_ratio.simps(2) occupancy_ratio_2 double_005 fp_sub_def fp_neg.simps fp_add.simps)
  also have "14260633 / 16777216 + - (3602879701896397 / 72057594037927936) = (57646072653361971 / 72057594037927936 :: real)" by simp
  finally show ?thesis by (simp only: float_step_3_double fp_cast.simps float_step_3)
qed

lemma float_step_4_double: "to_double (54043192092472115 / 72057594037927936) = Finite (3377699505779507 / 4503599627370496)"
proof -
  have "rne ((54043192092472115 / 72057594037927936) / 2 powi ((- 1) - int 53 + 1)) = 6755399011559014"
    by (rule rne_near) (simp add: power_int_minus field_simps)
  from round_to_eval [where e = "- 1" and p = 53 and emax = 1023 and x = "54043192092472115 / 72057594037927936", OF _ _ _ this]
  show ?thesis by (simp add: to_double_def power_int_minus)
qed

lemma float_step_4: "to_float (3377699505779507 / 4503599627370496) = Finite (12582911 / 16777216)"
proof -
  have "rne ((3377699505779507 / 4503599627370496) / 2 powi ((- 1) - int 24 + 1)) = 12582911"
    by (rule rne_near) (simp add: power_int_minus field_simps)
  from round_to_eval [where e = "- 1" and p = 24 and emax = 127 and x = "3377699505779507 / 4503599627370496", OF _ _ _ this]
  show ?thesis by (simp add: to_float_def power_int_minus)
qed

lemma occupancy_ratio_4: "occupancy_ratio 4 = Finite (12582911 / 16777216)"
proof -
  have "(4 :: nat) = Suc 3" by simp
  then have "occupancy_ratio 4 = occupancy_ratio (Suc 3)" by (rule arg_cong)
  also have "\<dots> = fp_cast to_float (to_double (3355443 / 4194304 + - (3602879701896397 / 72057594037927936)))"
    by (simp only: occupancy_ratio.simps(2) occupancy_ratio_3 double_005 fp_sub_def fp_neg.simps fp_add.simps)
  also have "3355443 / 4194304 + - (3602879701896397 / 72057594037927936) = (54043192092472115 / 72057594037927936 :: real)" by simp
  finally show ?thesis by (simp only: float_step_4_double fp_cast.simps float_step_4)
qed

lemma float_step_5_double: "to_double (50440311531582259 / 72057594037927936) = Finite (3152519470723891 / 4503599627370496)"
proof -
  have "rne ((50440311531582259 / 72057594037927936) / 2 powi ((- 1) - int 53 + 1)) = 6305038941447782"
    by (rule rne_near) (simp add: power_int_minus field_simps)
  from round_to_eval [where e = "- 1" and p = 53 and emax = 1023 and x = "50440311531582259 / 72057594037927936", OF _ _ _ this]
  show ?thesis by (simp add: to_double_def power_int_minus)
qed

lemma float_step_5: "to_float (3152519470723891 / 4503599627370496) = Finite (5872025 / 8388608)"
proof -
  have "rne ((3152519470723891 / 4503599627370496) / 2 powi ((- 1) - int 24 + 1)) = 11744050"
    by (rule rne_near) (simp add: power_int_minus field_simps)
  from round_to_eval [where e = "- 1" and p = 24 and emax = 127 and x = "3152519470723891 / 4503599627370496", OF _ _ _ this]
  show ?thesis by (simp add: to_float_def power_int_minus)
qed

lemma occupancy_ratio_5: "occupancy_ratio 5 = Finite (5872025 / 8388608)"
proof -
  have "(5 :: nat) = Suc 4" by simp
  then have "occupancy_ratio 5 = occupancy_ratio (Suc 4)" by (rule arg_cong)
  also have "\<dots> = fp_cast to_float (to_double (12582911 / 16777216 + - (3602879701896397 / 72057594037927936)))"
    by (simp only: occupancy_ratio.simps(2) occupancy_ratio_4 double_005 fp_sub_def fp_neg.simps fp_add.simps)
  also have "12582911 / 16777216 + - (3602879701896397 / 72057594037927936) = (50440311531582259 / 72057594037927936 :: real)" by simp
  finally show ?thesis by (simp only: float_step_5_double fp_cast.simps float_step_5)
qed

lemma float_step_6_double: "to_double (46837430970692403 / 72057594037927936) = Finite (2927339435668275 / 4503599627370496)"
proof -
  have "rne ((46837430970692403 / 72057594037927936) / 2 powi ((- 1) - int 53 + 1)) = 5854678871336550"
    by (rule rne_near) (simp add: power_int_minus field_simps)
  from round_to_eval [where e = "- 1" and p = 53 and emax = 1023 and x = "46837430970692403 / 72057594037927936", OF _ _ _ this]
  show ?thesis by (simp add: to_double_def power_int_minus)
qed

lemma float_step_6: "to_float (2927339435668275 / 4503599627370496) = Finite (10905189 / 16777216)"
proof -
  have "rne ((2927339435668275 / 4503599627370496) / 2 powi ((- 1) - int 24 + 1)) = 10905189"
    by (rule rne_near) (simp add: power_int_minus field_simps)
  from round_to_eval [where e = "- 1" and p = 24 and emax = 127 and x = "2927339435668275 / 4503599627370496", OF _ _ _ this]
  show ?thesis by (simp add: to_float_def power_int_minus)
qed

lemma occupancy_ratio_6: "occupancy_ratio 6 = Finite (10905189 / 16777216)"
proof -
  have "(6 :: nat) = Suc 5" by simp
  then have "occupancy_ratio 6 = occupancy_ratio (Suc 5)" by (rule arg_cong)
  also have "\<dots> = fp_cast to_float (to_double (5872025 / 8388608 + - (3602879701896397 / 72057594037927936)))"
    by (simp only: occupancy_ratio.simps(2) occupancy_ratio_5 double_005 fp_sub_def fp_neg.simps fp_add.simps)
  also have "5872025 / 8388608 + - (3602879701896397 / 72057594037927936) = (46837430970692403 / 72057594037927936 :: real)" by simp
  finally show ?thesis by (simp only: float_step_6_double fp_cast.simps float_step_6)
qed

lemma float_step_7_double: "to_double (43234550409802547 / 72057594037927936) = Finite (2702159400612659 / 4503599627370496)"
proof -
  have "rne ((43234550409802547 / 72057594037927936) / 2 powi ((- 1) - int 53 + 1)) = 5404318801225318"
    by (rule rne_near) (simp add: power_int_minus field_simps)
  from round_to_eval [where e = "- 1" and p = 53 and emax = 1023 and x = "43234550409802547 / 72057594037927936", OF _ _ _ this]
  show ?thesis by (simp add: to_double_def power_int_minus)
qed

lemma float_step_7: "to_float (2702159400612659 / 4503599627370496) = Finite (1258291 / 2097152)"
proof -
  have "rne ((2702159400612659 / 4503599627370496) / 2 powi ((- 1) - int 24 + 1)) = 10066328"
    by (rule rne_near) (simp add: power_int_minus field_simps)
  from round_to_eval [where e = "- 1" and p = 24 and emax = 127 and x = "2702159400612659 / 4503599627370496", OF _ _ _ this]
  show ?thesis by (simp add: to_float_def power_int_minus)
qed

lemma occupancy_ratio_7: "occupancy_ratio 7 = Finite (1258291 / 2097152)"
proof -
  have "(7 :: nat) = Suc 6" by simp
  then have "occupancy_ratio 7 = occupancy_ratio (Suc 6)" by (rule arg_cong)
  also have "\<dots> = fp_cast to_float (to_double (10905189 / 16777216 + - (3602879701896397 / 72057594037927936)))"
    by (simp only: occupancy_ratio.simps(2) occupancy_ratio_6 double_005 fp_sub_def fp_neg.simps fp_add.simps)
  also have "10905189 / 16777216 + - (3602879701896397 / 72057594037927936) = (43234550409802547 / 72057594037927936 :: real)" by simp
  finally show ?thesis by (simp only: float_step_7_double fp_cast.simps float_step_7)
qed

lemma float_step_8_double: "to_double (39631669848912691 / 72057594037927936) = Finite (2476979365557043 / 4503599627370496)"
proof -
  have "rne ((39631669848912691 / 72057594037927936) / 2 powi ((- 1) - int 53 + 1)) = 4953958731114086"
    by (rule rne_near) (simp add: power_int_minus field_simps)
  from round_to_eval [where e = "- 1" and p = 53 and emax = 1023 and x = "39631669848912691 / 72057594037927936", OF _ _ _ this]
  show ?thesis by (simp add: to_double_def power_int_minus)
qed

lemma float_step_8: "to_float (2476979365557043 / 4503599627370496) = Finite (9227467 / 16777216)"
proof -
  have "rne ((2476979365557043 / 4503599627370496) / 2 powi ((- 1) - int 24 + 1)) = 9227467"
    by (rule rne_near) (simp add: power_int_minus field_simps)
  from round_to_eval [where e = "- 1" and p = 24 and emax = 127 and x = "2476979365557043 / 4503599627370496", OF _ _ _ this]
  show ?thesis by (simp add: to_float_def power_int_minus)
qed

lemma occupancy_ratio_8: "occupancy_ratio 8 = Finite (9227467 / 16777216)"
proof -
  have "(8 :: nat) = Suc 7" by simp
  then have "occupancy_ratio 8 = occupancy_ratio (Suc 7)" by (rule arg_cong)
  also have "\<dots> = fp_cast to_float (to_double (1258291 / 2097152 + - (3602879701896397 / 72057594037927936)))"
    by (simp only: occupancy_ratio.simps(2) occupancy_ratio_7 double_005 fp_sub_def fp_neg.simps fp_add.simps)
  also have "1258291 / 2097152 + - (3602879701896397 / 72057594037927936) = (39631669848912691 / 72057594037927936 :: real)" by simp
  finally show ?thesis by (simp only: float_step_8_double fp_cast.simps float_step_8)
qed

lemma float_step_9_double: "to_double (36028789288022835 / 72057594037927936) = Finite (9007197322005709 / 18014398509481984)"
proof -
  have "rne ((36028789288022835 / 72057594037927936) / 2 powi ((- 2) - int 53 + 1)) = 9007197322005709"
    by (rule rne_near) (simp add: power_int_minus field_simps)
  from round_to_eval [where e = "- 2" and p = 53 and emax = 1023 and x = "36028789288022835 / 72057594037927936", OF _ _ _ this]
  show ?thesis by (simp add: to_double_def power_int_minus)
qed

lemma float_step_9: "to_float (9007197322005709 / 18014398509481984) = Finite (4194303 / 8388608)"
proof -
  have "rne ((9007197322005709 / 18014398509481984) / 2 powi ((- 2) - int 24 + 1)) = 16777212"
    by (rule rne_near) (simp add: power_int_minus field_simps)
  from round_to_eval [where e = "- 2" and p = 24 and emax = 127 and x = "9007197322005709 / 18014398509481984", OF _ _ _ this]
  show ?thesis by (simp add: to_float_def power_int_minus)
qed

lemma occupancy_ratio_9: "occupancy_ratio 9 = Finite (4194303 / 8388608)"
proof -
  have "(9 :: nat) = Suc 8" by simp
  then have "occupancy_ratio 9 = occupancy_ratio (Suc 8)" by (rule arg_cong)
  also have "\<dots> = fp_cast to_float (to_double (9227467 / 16777216 + - (3602879701896397 / 72057594037927936)))"
    by (simp only: occupancy_ratio.simps(2) occupancy_ratio_8 double_005 fp_sub_def fp_neg.simps fp_add.simps)
  also have "9227467 / 16777216 + - (3602879701896397 / 72057594037927936) = (36028789288022835 / 72057594037927936 :: real)" by simp
  finally show ?thesis by (simp only: float_step_9_double fp_cast.simps float_step_9)
qed

lemma float_step_10_double: "to_double (32425908727132979 / 72057594037927936) = Finite (8106477181783245 / 18014398509481984)"
proof -
  have "rne ((32425908727132979 / 72057594037927936) / 2 powi ((- 2) - int 53 + 1)) = 8106477181783245"
    by (rule rne_near) (simp add: power_int_minus field_simps)
  from round_to_eval [where e = "- 2" and p = 53 and emax = 1023 and x = "32425908727132979 / 72057594037927936", OF _ _ _ this]
  show ?thesis by (simp add: to_double_def power_int_minus)
qed

lemma float_step_10: "to_float (8106477181783245 / 18014398509481984) = Finite (7549745 / 16777216)"
proof -
  have "rne ((8106477181783245 / 18014398509481984) / 2 powi ((- 2) - int 24 + 1)) = 15099490"
    by (rule rne_near) (simp add: power_int_minus field_simps)
  from round_to_eval [where e = "- 2" and p = 24 and emax = 127 and x = "8106477181783245 / 18014398509481984", OF _ _ _ this]
  show ?thesis by (simp add: to_float_def power_int_minus)
qed

lemma occupancy_ratio_10: "occupancy_ratio 10 = Finite (7549745 / 16777216)"
proof -
  have "(10 :: nat) = Suc 9" by simp
  then have "occupancy_ratio 10 = occupancy_ratio (Suc 9)" by (rule arg_cong)
  also have "\<dots> = fp_cast to_float (to_double (4194303 / 8388608 + - (3602879701896397 / 72057594037927936)))"
    by (simp only: occupancy_ratio.simps(2) occupancy_ratio_9 double_005 fp_sub_def fp_neg.simps fp_add.simps)
  also have "4194303 / 8388608 + - (3602879701896397 / 72057594037927936) = (32425908727132979 / 72057594037927936 :: real)" by simp
  finally show ?thesis by (simp only: float_step_10_double fp_cast.simps float_step_10)
qed

lemma float_step_11_double: "to_double (28823028166243123 / 72057594037927936) = Finite (7205757041560781 / 18014398509481984)"
proof -
  have "rne ((28823028166243123 / 72057594037927936) / 2 powi ((- 2) - int 53 + 1)) = 7205757041560781"
    by (rule rne_near) (simp add: power_int_minus field_simps)
  from round_to_eval [where e = "- 2" and p = 53 and emax = 1023 and x = "28823028166243123 / 72057594037927936", OF _ _ _ this]
  show ?thesis by (simp add: to_double_def power_int_minus)
qed

lemma float_step_11: "to_float (7205757041560781 / 18014398509481984) = Finite (1677721 / 4194304)"
proof -
  have "rne ((7205757041560781 / 18014398509481984) / 2 powi ((- 2) - int 24 + 1)) = 13421768"
    by (rule rne_near) (simp add: power_int_minus field_simps)
  from round_to_eval [where e = "- 2" and p = 24 and emax = 127 and x = "7205757041560781 / 18014398509481984", OF _ _ _ this]
  show ?thesis by (simp add: to_float_def power_int_minus)
qed

lemma occupancy_ratio_11: "occupancy_ratio 11 = Finite (1677721 / 4194304)"
proof -
  have "(11 :: nat) = Suc 10" by simp
  then have "occupancy_ratio 11 = occupancy_ratio (Suc 10)" by (rule arg_cong)
  also have "\<dots> = fp_cast to_float (to_double (7549745 / 16777216 + - (3602879701896397 / 72057594037927936)))"
    by (simp only: occupancy_ratio.simps(2) occupancy_ratio_10 double_005 fp_sub_def fp_neg.simps fp_add.simps)
  also have "7549745 / 16777216 + - (3602879701896397 / 72057594037927936) = (28823028166243123 / 72057594037927936 :: real)" by simp
  finally show ?thesis by (simp only: float_step_11_double fp_cast.simps float_step_11)
qed

lemma float_step_12_double: "to_double (25220147605353267 / 72057594037927936) = Finite (6305036901338317 / 18014398509481984)"
proof -
  have "rne ((25220147605353267 / 72057594037927936) / 2 powi ((- 2) - int 53 + 1)) = 6305036901338317"
    by (rule rne_near) (simp add: power_int_minus field_simps)
  from round_to_eval [where e = "- 2" and p = 53 and emax = 1023 and x = "25220147605353267 / 72057594037927936", OF _ _ _ this]
  show ?thesis by (simp add: to_double_def power_int_minus)
qed

lemma float_step_12: "to_float (6305036901338317 / 18014398509481984) = Finite (5872023 / 16777216)"
proof -
  have "rne ((6305036901338317 / 18014398509481984) / 2 powi ((- 2) - int 24 + 1)) = 11744046"
    by (rule rne_near) (simp add: power_int_minus field_simps)
  from round_to_eval [where e = "- 2" and p = 24 and emax = 127 and x = "6305036901338317 / 18014398509481984", OF _ _ _ this]
  show ?thesis by (simp add: to_float_def power_int_minus)
qed

lemma occupancy_ratio_12: "occupancy_ratio 12 = Finite (5872023 / 16777216)"
proof -
  have "(12 :: nat) = Suc 11" by simp
  then have "occupancy_ratio 12 = occupancy_ratio (Suc 11)" by (rule arg_cong)
  also have "\<dots> = fp_cast to_float (to_double (1677721 / 4194304 + - (3602879701896397 / 72057594037927936)))"
    by (simp only: occupancy_ratio.simps(2) occupancy_ratio_11 double_005 fp_sub_def fp_neg.simps fp_add.simps)
  also have "1677721 / 4194304 + - (3602879701896397 / 72057594037927936) = (25220147605353267 / 72057594037927936 :: real)" by simp
  finally show ?thesis by (simp only: float_step_12_double fp_cast.simps float_step_12)
qed

lemma float_step_13_double: "to_double (21617267044463411 / 72057594037927936) = Finite (5404316761115853 / 18014398509481984)"
proof -
  have "rne ((21617267044463411 / 72057594037927936) / 2 powi ((- 2) - int 53 + 1)) = 5404316761115853"
    by (rule rne_near) (simp add: power_int_minus field_simps)
  from round_to_eval [where e = "- 2" and p = 53 and emax = 1023 and x = "21617267044463411 / 72057594037927936", OF _ _ _ this]
  show ?thesis by (simp add: to_double_def power_int_minus)
qed

lemma float_step_13: "to_float (5404316761115853 / 18014398509481984) = Finite (2516581 / 8388608)"
proof -
  have "rne ((5404316761115853 / 18014398509481984) / 2 powi ((- 2) - int 24 + 1)) = 10066324"
    by (rule rne_near) (simp add: power_int_minus field_simps)
  from round_to_eval [where e = "- 2" and p = 24 and emax = 127 and x = "5404316761115853 / 18014398509481984", OF _ _ _ this]
  show ?thesis by (simp add: to_float_def power_int_minus)
qed

lemma occupancy_ratio_13: "occupancy_ratio 13 = Finite (2516581 / 8388608)"
proof -
  have "(13 :: nat) = Suc 12" by simp
  then have "occupancy_ratio 13 = occupancy_ratio (Suc 12)" by (rule arg_cong)
  also have "\<dots> = fp_cast to_float (to_double (5872023 / 16777216 + - (3602879701896397 / 72057594037927936)))"
    by (simp only: occupancy_ratio.simps(2) occupancy_ratio_12 double_005 fp_sub_def fp_neg.simps fp_add.simps)
  also have "5872023 / 16777216 + - (3602879701896397 / 72057594037927936) = (21617267044463411 / 72057594037927936 :: real)" by simp
  finally show ?thesis by (simp only: float_step_13_double fp_cast.simps float_step_13)
qed

lemma float_step_14_double: "to_double (18014386483573555 / 72057594037927936) = Finite (4503596620893389 / 18014398509481984)"
proof -
  have "(18014386483573555 / 72057594037927936) / 2 powi ((- 3) - int 53 + 1) = (of_int (9007193241786777) + 1 / 2 :: real)"
    by (simp add: power_int_minus field_simps)
  then have "rne ((18014386483573555 / 72057594037927936) / 2 powi ((- 3) - int 53 + 1)) = 9007193241786778"
    by (simp only: rne_half) simp
  from round_to_eval [where e = "- 3" and p = 53 and emax = 1023 and x = "18014386483573555 / 72057594037927936", OF _ _ _ this]
  show ?thesis by (simp add: to_double_def power_int_minus)
qed

lemma float_step_14: "to_float (4503596620893389 / 18014398509481984) = Finite (16777205 / 67108864)"
proof -
  have "rne ((4503596620893389 / 18014398509481984) / 2 powi ((- 3) - int 24 + 1)) = 16777205"
    by (rule rne_near) (simp add: power_int_minus field_simps)
  from round_to_eval [where e = "- 3" and p = 24 and emax = 127 and x = "4503596620893389 / 18014398509481984", OF _ _ _ this]
  show ?thesis by (simp add: to_float_def power_int_minus)
qed

lemma occupancy_ratio_14: "occupancy_ratio 14 = Finite (16777205 / 67108864)"
proof -
  have "(14 :: nat) = Suc 13" by simp
  then have "occupancy_ratio 14 = occupancy_ratio (Suc 13)" by (rule arg_cong)
  also have "\<dots> = fp_cast to_float (to_double (2516581 / 8388608 + - (3602879701896397 / 72057594037927936)))"
    by (simp only: occupancy_ratio.simps(2) occupancy_ratio_13 double_005 fp_sub_def fp_neg.simps fp_add.simps)
  also have "2516581 / 8388608 + - (3602879701896397 / 72057594037927936) = (18014386483573555 / 72057594037927936 :: real)" by simp
  finally show ?thesis by (simp only: float_step_14_double fp_cast.simps float_step_14)
qed

lemma float_step_15_double: "to_double (14411506996425523 / 72057594037927936) = Finite (3602876749106381 / 18014398509481984)"
proof -
  have "(14411506996425523 / 72057594037927936) / 2 powi ((- 3) - int 53 + 1) = (of_int (7205753498212761) + 1 / 2 :: real)"
    by (simp add: power_int_minus field_simps)
  then have "rne ((14411506996425523 / 72057594037927936) / 2 powi ((- 3) - int 53 + 1)) = 7205753498212762"
    by (simp only: rne_half) simp
  from round_to_eval [where e = "- 3" and p = 53 and emax = 1023 and x = "14411506996425523 / 72057594037927936", OF _ _ _ this]
  show ?thesis by (simp add: to_double_def power_int_minus)
qed

lemma float_step_15: "to_float (3602876749106381 / 18014398509481984) = Finite (6710881 / 33554432)"
proof -
  have "rne ((3602876749106381 / 18014398509481984) / 2 powi ((- 3) - int 24 + 1)) = 13421762"
    by (rule rne_near) (simp add: power_int_minus field_simps)
  from round_to_eval [where e = "- 3" and p = 24 and emax = 127 and x = "3602876749106381 / 18014398509481984", OF _ _ _ this]
  show ?thesis by (simp add: to_float_def power_int_minus)
qed

lemma occupancy_ratio_15: "occupancy_ratio 15 = Finite (6710881 / 33554432)"
proof -
  have "(15 :: nat) = Suc 14" by simp
  then have "occupancy_ratio 15 = occupancy_ratio (Suc 14)" by (rule arg_cong)
  also have "\<dots> = fp_cast to_float (to_double (16777205 / 67108864 + - (3602879701896397 / 72057594037927936)))"
    by (simp only: occupancy_ratio.simps(2) occupancy_ratio_14 double_005 fp_sub_def fp_neg.simps fp_add.simps)
  also have "16777205 / 67108864 + - (3602879701896397 / 72057594037927936) = (14411506996425523 / 72057594037927936 :: real)" by simp
  finally show ?thesis by (simp only: float_step_15_double fp_cast.simps float_step_15)
qed

lemma float_step_16_double: "to_double (10808627509277491 / 72057594037927936) = Finite (2702156877319373 / 18014398509481984)"
proof -
  have "(10808627509277491 / 72057594037927936) / 2 powi ((- 3) - int 53 + 1) = (of_int (5404313754638745) + 1 / 2 :: real)"
    by (simp add: power_int_minus field_simps)
  then have "rne ((10808627509277491 / 72057594037927936) / 2 powi ((- 3) - int 53 + 1)) = 5404313754638746"
    by (simp only: rne_half) simp
  from round_to_eval [where e = "- 3" and p = 53 and emax = 1023 and x = "10808627509277491 / 72057594037927936", OF _ _ _ this]
  show ?thesis by (simp add: to_double_def power_int_minus)
qed

lemma float_step_16: "to_float (2702156877319373 / 18014398509481984) = Finite (10066319 / 67108864)"
proof -
  have "rne ((2702156877319373 / 18014398509481984) / 2 powi ((- 3) - int 24 + 1)) = 10066319"
    by (rule rne_near) (simp add: power_int_minus field_simps)
  from round_to_eval [where e = "- 3" and p = 24 and emax = 127 and x = "2702156877319373 / 18014398509481984", OF _ _ _ this]
  show ?thesis by (simp add: to_float_def power_int_minus)
qed

lemma occupancy_ratio_16: "occupancy_ratio 16 = Finite (10066319 / 67108864)"
proof -
  have "(16 :: nat) = Suc 15" by simp
  then have "occupancy_ratio 16 = occupancy_ratio (Suc 15)" by (rule arg_cong)
  also have "\<dots> = fp_cast to_float (to_double (6710881 / 33554432 + - (3602879701896397 / 72057594037927936)))"
    by (simp only: occupancy_ratio.simps(2) occupancy_ratio_15 double_005 fp_sub_def fp_neg.simps fp_add.simps)
  also have "6710881 / 33554432 + - (3602879701896397 / 72057594037927936) = (10808627509277491 / 72057594037927936 :: real)" by simp
  finally show ?thesis by (simp only: float_step_16_double fp_cast.simps float_step_16)
qed

lemma float_step_17_double: "to_double (7205748022129459 / 72057594037927936) = Finite (7205748022129459 / 72057594037927936)"
  using round_to_exact [of "7205748022129459" 53 1023 "- 56"]
  by (simp add: to_double_def power_int_minus)

lemma float_step_17: "to_float (7205748022129459 / 72057594037927936) = Finite (1677719 / 16777216)"
proof -
  have "rne ((7205748022129459 / 72057594037927936) / 2 powi ((- 4) - int 24 + 1)) = 13421752"
    by (rule rne_near) (simp add: power_int_minus field_simps)
  from round_to_eval [where e = "- 4" and p = 24 and emax = 127 and x = "7205748022129459 / 72057594037927936", OF _ _ _ this]
  show ?thesis by (simp add: to_float_def power_int_minus)
qed

lemma occupancy_ratio_17: "occupancy_ratio 17 = Finite (1677719 / 16777216)"
proof -
  have "(17 :: nat) = Suc 16" by simp
  then have "occupancy_ratio 17 = occupancy_ratio (Suc 16)" by (rule arg_cong)
  also have "\<dots> = fp_cast to_float (to_double (10066319 / 67108864 + - (3602879701896397 / 72057594037927936)))"
    by (simp only: occupancy_ratio.simps(2) occupancy_ratio_16 double_005 fp_sub_def fp_neg.simps fp_add.simps)
  also have "10066319 / 67108864 + - (3602879701896397 / 72057594037927936) = (7205748022129459 / 72057594037927936 :: real)" by simp
  finally show ?thesis by (simp only: float_step_17_double fp_cast.simps float_step_17)
qed

lemma float_step_18_double: "to_double (3602868534981427 / 72057594037927936) = Finite (3602868534981427 / 72057594037927936)"
  using round_to_exact [of "3602868534981427" 53 1023 "- 56"]
  by (simp add: to_double_def power_int_minus)

lemma float_step_18: "to_float (3602868534981427 / 72057594037927936) = Finite (13421731 / 268435456)"
proof -
  have "rne ((3602868534981427 / 72057594037927936) / 2 powi ((- 5) - int 24 + 1)) = 13421731"
    by (rule rne_near) (simp add: power_int_minus field_simps)
  from round_to_eval [where e = "- 5" and p = 24 and emax = 127 and x = "3602868534981427 / 72057594037927936", OF _ _ _ this]
  show ?thesis by (simp add: to_float_def power_int_minus)
qed

lemma occupancy_ratio_18: "occupancy_ratio 18 = Finite (13421731 / 268435456)"
proof -
  have "(18 :: nat) = Suc 17" by simp
  then have "occupancy_ratio 18 = occupancy_ratio (Suc 17)" by (rule arg_cong)
  also have "\<dots> = fp_cast to_float (to_double (1677719 / 16777216 + - (3602879701896397 / 72057594037927936)))"
    by (simp only: occupancy_ratio.simps(2) occupancy_ratio_17 double_005 fp_sub_def fp_neg.simps fp_add.simps)
  also have "1677719 / 16777216 + - (3602879701896397 / 72057594037927936) = (3602868534981427 / 72057594037927936 :: real)" by simp
  finally show ?thesis by (simp only: float_step_18_double fp_cast.simps float_step_18)
qed

lemma float_step_19_double: "to_double (- (11220602061 / 72057594037927936)) = Finite (- (11220602061 / 72057594037927936))"
  using round_to_exact [of "- 11220602061" 53 1023 "- 56"]
  by (simp add: to_double_def power_int_minus)

lemma float_step_19: "to_float (- (11220602061 / 72057594037927936)) = Finite (- (10957619 / 70368744177664))"
proof -
  have "rne ((- (11220602061 / 72057594037927936)) / 2 powi ((- 23) - int 24 + 1)) = - 10957619"
    by (rule rne_near) (simp add: power_int_minus field_simps)
  from round_to_eval [where e = "- 23" and p = 24 and emax = 127 and x = "- (11220602061 / 72057594037927936)", OF _ _ _ this]
  show ?thesis by (simp add: to_float_def power_int_minus)
qed

lemma occupancy_ratio_19: "occupancy_ratio 19 = Finite (- (10957619 / 70368744177664))"
proof -
  have "(19 :: nat) = Suc 18" by simp
  then have "occupancy_ratio 19 = occupancy_ratio (Suc 18)" by (rule arg_cong)
  also have "\<dots> = fp_cast to_float (to_double (13421731 / 268435456 + - (3602879701896397 / 72057594037927936)))"
    by (simp only: occupancy_ratio.simps(2) occupancy_ratio_18 double_005 fp_sub_def fp_neg.simps fp_add.simps)
  also have "13421731 / 268435456 + - (3602879701896397 / 72057594037927936) = (- (11220602061 / 72057594037927936) :: real)" by simp
  finally show ?thesis by (simp only: float_step_19_double fp_cast.simps float_step_19)
qed

lemma float_step_20_double: "to_double (- (3602890922498253 / 72057594037927936)) = Finite (- (3602890922498253 / 72057594037927936))"
  using round_to_exact [of "- 3602890922498253" 53 1023 "- 56"]
  by (simp add: to_double_def power_int_minus)

lemma float_step_20: "to_float (- (3602890922498253 / 72057594037927936)) = Finite (- (13421815 / 268435456))"
proof -
  have "rne ((- (3602890922498253 / 72057594037927936)) / 2 powi ((- 5) - int 24 + 1)) = - 13421815"
    by (rule rne_near) (simp add: power_int_minus field_simps)
  from round_to_eval [where e = "- 5" and p = 24 and emax = 127 and x = "- (3602890922498253 / 72057594037927936)", OF _ _ _ this]
  show ?thesis by (simp add: to_float_def power_int_minus)
qed

lemma occupancy_ratio_20: "occupancy_ratio 20 = Finite (- (13421815 / 268435456))"
proof -
  have "(20 :: nat) = Suc 19" by simp
  then have "occupancy_ratio 20 = occupancy_ratio (Suc 19)" by (rule arg_cong)
  also have "\<dots> = fp_cast to_float (to_double (- (10957619 / 70368744177664) + - (3602879701896397 / 72057594037927936)))"
    by (simp only: occupancy_ratio.simps(2) occupancy_ratio_19 double_005 fp_sub_def fp_neg.simps fp_add.simps)
  also have "- (10957619 / 70368744177664) + - (3602879701896397 / 72057594037927936) = (- (3602890922498253 / 72057594037927936) :: real)" by simp
  finally show ?thesis by (simp only: float_step_20_double fp_cast.simps float_step_20)
qed

lemma padding_threshold_Suc_0: "padding_threshold (Suc 0) = Finite (2026619832316723 / 2251799813685248)"
  using padding_threshold_1 by simp

lemma occupancy_ratio_Suc_0: "occupancy_ratio (Suc 0) = Finite (7549747 / 8388608)"
  using occupancy_ratio_1 by simp

section \<open>The ordering of configurations\<close>

lemma scan_row_refl: "scan_row xs xs = Undecided"
  by (induction xs) auto

lemma scan_row_not_oob: "length xs = length ys \<Longrightarrow> scan_row xs ys \<noteq> OutOfBounds"
  by (induction xs ys rule: list_induct2) auto

lemma scan_row_undecided_iff:
  "length xs = length ys \<Longrightarrow> scan_row xs ys = Undecided \<longleftrightarrow> xs = ys"
  by (induction xs ys rule: list_induct2) auto

lemma scan_row_flip:
  "length xs = length ys \<Longrightarrow> scan_row xs ys = Decided False \<longleftrightarrow> scan_row ys xs = Decided True"
  by (induction xs ys rule: list_induct2) auto

lemma scan_row_trans:
  "length xs = length ys \<Longrightarrow> length ys = length zs \<Longrightarrow>
   scan_row xs ys = Decided True \<Longrightarrow> scan_row ys zs = Decided True \<Longrightarrow>
   scan_row xs zs = Decided True"
  by (induction xs ys zs rule: list_induct3) (auto split: if_splits)

lemma scan_row_append:
  "length xs = length ys \<Longrightarrow>
   scan_row (xs @ us) (ys @ vs) =
     (case scan_row xs ys of Undecided \<Rightarrow> scan_row us vs | r \<Rightarrow> r)"
  by (induction xs ys rule: list_induct2) auto

lemma scan_tiles_concat:
  "map length xss = map length yss \<Longrightarrow>
   scan_tiles xss yss = scan_row (concat xss) (concat yss)"
proof (induction xss yss rule: scan_tiles.induct)
  case (3 xs xss ys yss)
  then have len: "length xs = length ys" and rest: "map length xss = map length yss"
    by simp_all
  show ?case
    using 3 len rest by (simp add: scan_row_append split: scan.splits)
qed auto

lemma length_concat_shape:
  "map length xss = map length yss \<Longrightarrow> length (concat xss) = length (concat yss)"
  by (simp add: length_concat)

lemma same_shape_flat_length:
  "same_shape a b \<Longrightarrow> length (flat_tiles a) = length (flat_tiles b)"
  by (simp add: same_shape_def flat_tiles_def length_concat)

lemma config_less_flat:
  assumes "same_shape a b"
  shows "config_less a b =
           (case scan_row (flat_tiles a) (flat_tiles b) of
              Decided r \<Rightarrow> Some r | OutOfBounds \<Rightarrow> None | Undecided \<Rightarrow> Some False)"
proof -
  from assms have s: "map length (space_tiles a) = map length (space_tiles b)"
    and r: "map length (reduce_tiles a) = map length (reduce_tiles b)"
    by (simp_all add: same_shape_def)
  have l: "length (concat (space_tiles a)) = length (concat (space_tiles b))"
    using s by (rule length_concat_shape)
  show ?thesis
    by (simp add: config_less_def flat_tiles_def scan_tiles_concat [OF s]
        scan_tiles_concat [OF r] scan_row_append [OF l] split: scan.splits)
qed

lemma concat_same_shape_eq:
  "map length xss = map length yss \<Longrightarrow> concat xss = concat yss \<Longrightarrow> xss = yss"
proof (induction xss arbitrary: yss)
  case Nil
  then show ?case by simp
next
  case (Cons xs xss)
  then obtain ys yss' where yss: "yss = ys # yss'" by (cases yss) auto
  with Cons.prems have "length xs = length ys" "map length xss = map length yss'"
    "xs @ concat xss = ys @ concat yss'"
    by simp_all
  then have "xs = ys" "concat xss = concat yss'" by simp_all
  with Cons.IH \<open>map length xss = map length yss'\<close> yss show ?case by simp
qed

lemma flat_tiles_eq_iff:
  assumes "same_shape a b"
  shows "flat_tiles a = flat_tiles b \<longleftrightarrow>
           space_tiles a = space_tiles b \<and> reduce_tiles a = reduce_tiles b"
proof
  assume eq: "flat_tiles a = flat_tiles b"
  from assms have s: "map length (space_tiles a) = map length (space_tiles b)"
    and r: "map length (reduce_tiles a) = map length (reduce_tiles b)"
    by (simp_all add: same_shape_def)
  have l: "length (concat (space_tiles a)) = length (concat (space_tiles b))"
    using s by (rule length_concat_shape)
  from eq l have "concat (space_tiles a) = concat (space_tiles b)"
    "concat (reduce_tiles a) = concat (reduce_tiles b)"
    by (simp_all add: flat_tiles_def)
  then show "space_tiles a = space_tiles b \<and> reduce_tiles a = reduce_tiles b"
    using s r by (simp add: concat_same_shape_eq)
next
  assume "space_tiles a = space_tiles b \<and> reduce_tiles a = reduce_tiles b"
  then show "flat_tiles a = flat_tiles b" by (simp add: flat_tiles_def)
qed

text \<open>
  C9. On configs of one shape the comparison never reads out of bounds, is irreflexive
  and transitive, and two configs are incomparable in both directions exactly when their
  \<open>space_tiles\<close> and \<open>reduce_tiles\<close> are equal: a strict weak ordering whose
  equivalence is equality of the tiles.
\<close>

theorem config_less_strict_weak_order:
  assumes ab: "same_shape a b" and bc: "same_shape b c"
  shows "config_less a a = Some False \<and>
         config_less a b \<noteq> None \<and>
         (config_less a b = Some True \<and> config_less b c = Some True
            \<longrightarrow> config_less a c = Some True) \<and>
         ((config_less a b = Some False \<and> config_less b a = Some False)
            \<longleftrightarrow> (space_tiles a = space_tiles b \<and> reduce_tiles a = reduce_tiles b))"
proof -
  have aa: "same_shape a a" and ba: "same_shape b a" and ac: "same_shape a c"
    using ab bc by (simp_all add: same_shape_def)
  note lab = same_shape_flat_length [OF ab]
  note lbc = same_shape_flat_length [OF bc]
  have irrefl: "config_less a a = Some False"
    by (simp add: config_less_flat [OF aa] scan_row_refl)
  have defined: "config_less a b \<noteq> None"
    using scan_row_not_oob [OF lab]
    by (cases "scan_row (flat_tiles a) (flat_tiles b)")
      (simp_all add: config_less_flat [OF ab])
  have trans: "config_less a c = Some True"
    if "config_less a b = Some True" "config_less b c = Some True"
  proof -
    from that have "scan_row (flat_tiles a) (flat_tiles b) = Decided True"
      "scan_row (flat_tiles b) (flat_tiles c) = Decided True"
      by (auto simp: config_less_flat [OF ab] config_less_flat [OF bc] split: scan.splits)
    then have "scan_row (flat_tiles a) (flat_tiles c) = Decided True"
      using scan_row_trans [OF lab lbc] by simp
    then show ?thesis by (simp add: config_less_flat [OF ac])
  qed
  have equiv: "(config_less a b = Some False \<and> config_less b a = Some False)
                 \<longleftrightarrow> flat_tiles a = flat_tiles b"
  proof
    assume h: "config_less a b = Some False \<and> config_less b a = Some False"
    show "flat_tiles a = flat_tiles b"
    proof (cases "scan_row (flat_tiles a) (flat_tiles b)")
      case (Decided r)
      with h have "scan_row (flat_tiles a) (flat_tiles b) = Decided False"
        by (simp add: config_less_flat [OF ab])
      then have "scan_row (flat_tiles b) (flat_tiles a) = Decided True"
        using scan_row_flip [OF lab] by simp
      with h show ?thesis by (simp add: config_less_flat [OF ba])
    next
      case Undecided
      then show ?thesis using scan_row_undecided_iff [OF lab] by simp
    next
      case OutOfBounds
      then show ?thesis using scan_row_not_oob [OF lab] by simp
    qed
  next
    assume "flat_tiles a = flat_tiles b"
    then show "config_less a b = Some False \<and> config_less b a = Some False"
      by (simp add: config_less_flat [OF ab] config_less_flat [OF ba] scan_row_refl)
  qed
  show ?thesis
    using irrefl defined trans equiv flat_tiles_eq_iff [OF ab] by blast
qed

theorem config_less_strict_weak_order_witness:
  "same_shape (tiles_config [[1, 2], [4]] [[8]]) (tiles_config [[1, 2], [8]] [[1]]) \<and>
   same_shape (tiles_config [[1, 2], [8]] [[1]]) (tiles_config [[1, 2], [8]] [[2]]) \<and>
   config_less (tiles_config [[1, 2], [4]] [[8]]) (tiles_config [[1, 2], [8]] [[1]]) = Some True \<and>
   config_less (tiles_config [[1, 2], [8]] [[1]]) (tiles_config [[1, 2], [8]] [[2]]) = Some True \<and>
   config_less (tiles_config [[1, 2], [4]] [[8]]) (tiles_config [[1, 2], [8]] [[2]]) = Some True \<and>
   config_less (tiles_config [[1, 2], [4]] [[8]]) (tiles_config [[1, 2], [4]] [[8]]) = Some False"
proof -
  have ab: "same_shape (tiles_config [[1, 2], [4]] [[8]]) (tiles_config [[1, 2], [8]] [[1]])"
    by (simp add: same_shape_def tiles_config_def)
  have bc: "same_shape (tiles_config [[1, 2], [8]] [[1]]) (tiles_config [[1, 2], [8]] [[2]])"
    by (simp add: same_shape_def tiles_config_def)
  have lt1: "config_less (tiles_config [[1, 2], [4]] [[8]]) (tiles_config [[1, 2], [8]] [[1]])
               = Some True"
    by (simp add: config_less_def tiles_config_def)
  have lt2: "config_less (tiles_config [[1, 2], [8]] [[1]]) (tiles_config [[1, 2], [8]] [[2]])
               = Some True"
    by (simp add: config_less_def tiles_config_def)
  show ?thesis
    using config_less_strict_weak_order [OF ab bc] ab bc lt1 lt2 by blast
qed

section \<open>Properties of the filters\<close>

subsection \<open>Filters that keep the input order\<close>

lemma subseq_flagged: "subseq (map snd (filter fst (zip v xs))) xs"
proof (induction v arbitrary: xs)
  case Nil
  then show ?case by simp
next
  case (Cons b v)
  then show ?case by (cases xs) (auto intro: subseq_Cons')
qed

lemma keep_valid_subseq:
  assumes "keep_valid v cs ss = Inr (cs', ss')"
  shows "subseq (zip cs' ss') (zip cs ss)"
proof -
  define kept where "kept = map snd (filter fst (zip v (zip cs ss)))"
  from assms have "cs' = map fst kept" "ss' = map snd kept"
    by (simp_all add: keep_valid_def Let_def kept_def split: if_splits)
  then have "zip cs' ss' = kept"
    by (simp add: zip_map_fst_snd)
  then show ?thesis by (simp add: kept_def subseq_flagged)
qed

lemma ThreadsNumberFilter_subseq:
  "ThreadsNumberFilter task cs ss = Inr (cs', ss') \<Longrightarrow> subseq (zip cs' ss') (zip cs ss)"
  by (auto simp: ThreadsNumberFilter_def split: sum.splits dest: keep_valid_subseq)

lemma RegisterLaunchBoundsFilter_subseq:
  "RegisterLaunchBoundsFilter U task cs ss inst = Inr (cs', ss') \<Longrightarrow> subseq (zip cs' ss') (zip cs ss)"
  by (auto simp: RegisterLaunchBoundsFilter_def split: sum.splits option.splits list.splits if_splits dest: keep_valid_subseq)

lemma SharedMemoryLaunchBoundsFilter_subseq:
  "SharedMemoryLaunchBoundsFilter U task cs ss inst = Inr (cs', ss') \<Longrightarrow> subseq (zip cs' ss') (zip cs ss)"
  by (auto simp: SharedMemoryLaunchBoundsFilter_def split: sum.splits option.splits list.splits if_splits dest: keep_valid_subseq)

lemma PaddingFilter_subseq:
  "PaddingFilter U task cs ss inst thr = Inr (cs', ss') \<Longrightarrow> subseq (zip cs' ss') (zip cs ss)"
  by (auto simp: PaddingFilter_def split: sum.splits option.splits list.splits if_splits dest: keep_valid_subseq)

subsection \<open>The relaxation loops\<close>

lemma size_t_of_less: "size_t_of i < 2 ^ 64"
proof -
  have "i mod 2 ^ 64 < 2 ^ 64" by simp
  then show ?thesis unfolding size_t_of_def by (simp add: nat_less_iff)
qed

text \<open>
  The loop over \<open>sm_times\<close> visits the SM multiples from the first to the last, unless
  the last one is the largest \<^verbatim>\<open>size_t\<close>: then the counter wraps and the loop goes on
  forever.
\<close>

lemma sm_times_loop_closed:
  assumes "hi < 2 ^ 64 - 1 \<or> hi < t"
  shows "sm_times_loop push hi t acc = Some (acc @ concat (map push [t ..< Suc hi]))"
  using assms
proof (induction "Suc hi - t" arbitrary: t acc)
  case 0
  then have "hi < t" by simp
  then show ?case by (subst sm_times_loop.simps) simp
next
  case (Suc d)
  from Suc(2) have le: "t \<le> hi" by simp
  with Suc(3) have small: "hi < 2 ^ 64 - 1" by simp
  have "int t + 1 < 2 ^ 64" using le small by simp
  then have step: "size_t_of (int t + 1) = Suc t"
    by (simp add: size_t_of_def nat_add_distrib)
  have "d = Suc hi - Suc t" using Suc(2) by simp
  from Suc(1) [OF this, of "acc @ push t"] small
  have ih: "sm_times_loop push hi (Suc t) (acc @ push t) =
            Some ((acc @ push t) @ concat (map push [Suc t ..< Suc hi]))"
    by simp
  have "[t ..< Suc hi] = t # [Suc t ..< Suc hi]" using le by (simp add: upt_conv_Cons)
  then show ?case using le by (subst sm_times_loop.simps) (simp add: step ih)
qed

lemma sm_times_loop_returns:
  assumes "sm_times_loop push hi t acc = Some r"
  shows "\<not> (t < 2 ^ 64 \<and> 2 ^ 64 - 1 \<le> hi)"
proof (rule sm_times_loop.raw_induct
    [where P = "\<lambda>push hi t acc r. \<not> (t < 2 ^ 64 \<and> 2 ^ 64 - 1 \<le> hi)", OF _ assms])
  fix loop :: "(nat \<Rightarrow> 'a list) \<Rightarrow> nat \<Rightarrow> nat \<Rightarrow> 'a list \<Rightarrow> 'a list option"
    and push hi t acc r
  assume ih: "\<And>push hi t acc r. loop push hi t acc = Some r \<Longrightarrow>
                \<not> (t < 2 ^ 64 \<and> 2 ^ 64 - 1 \<le> hi)"
    and step: "(if t \<le> hi then loop push hi (size_t_of (int t + 1)) (acc @ push t)
                else Some acc) = Some r"
  show "\<not> (t < 2 ^ 64 \<and> 2 ^ 64 - 1 \<le> hi)"
  proof
    assume a: "t < 2 ^ 64 \<and> 2 ^ 64 - 1 \<le> hi"
    then have "t \<le> hi" by simp
    with step have "loop push hi (size_t_of (int t + 1)) (acc @ push t) = Some r" by simp
    from ih [OF this] a size_t_of_less [of "int t + 1"] show False by simp
  qed
qed

lemma sm_times_loop_wraps:
  assumes "t < 2 ^ 64" "2 ^ 64 - 1 \<le> hi"
  shows "sm_times_loop push hi t acc = None"
proof (cases "sm_times_loop push hi t acc")
  case None
  then show ?thesis .
next
  case (Some r)
  from sm_times_loop_returns [OF Some] assms show ?thesis by simp
qed

lemma occupancy_pass_closed:
  assumes "hi < 2 ^ 64 - 1 \<or> hi < lo"
  shows "occupancy_pass U task glb0 lo hi graded k =
           Some (concat (map
             (\<lambda>sm_times.
                filter
                  (\<lambda>gp. sm_multiple U glb0 (fst gp) = sm_times \<and>
                        fp_gt (occupancy_penalty U task (fst gp)) (occupancy_ratio k))
                  graded)
             [lo ..< Suc hi]))"
  unfolding occupancy_pass_def by (simp only: sm_times_loop_closed [OF assms] append_Nil)

lemma occupancy_pass_returns:
  assumes "occupancy_pass U task glb0 lo hi graded k = Some survivors" and "lo < 2 ^ 64"
  shows "survivors = concat (map
             (\<lambda>sm_times.
                filter
                  (\<lambda>gp. sm_multiple U glb0 (fst gp) = sm_times \<and>
                        fp_gt (occupancy_penalty U task (fst gp)) (occupancy_ratio k))
                  graded)
             [lo ..< Suc hi])"
proof -
  from assms(1) have "\<not> (lo < 2 ^ 64 \<and> 2 ^ 64 - 1 \<le> hi)"
    unfolding occupancy_pass_def by (rule sm_times_loop_returns)
  with assms(2) have "hi < 2 ^ 64 - 1 \<or> hi < lo" by simp
  from occupancy_pass_closed [OF this, of U task glb0 graded k] assms(1) show ?thesis by simp
qed

lemma occupancy_while_returns:
  assumes "occupancy_while pass filtered k = Some r"
  shows "if filtered = [] then \<exists>k'. pass k' = Some r \<and> r \<noteq> [] else r = filtered"
proof (rule occupancy_while.raw_induct
    [where P = "\<lambda>pass filtered k r.
       if filtered = [] then \<exists>k'. pass k' = Some r \<and> r \<noteq> [] else r = filtered",
     OF _ assms])
  fix loop :: "(nat \<Rightarrow> 'a list option) \<Rightarrow> 'a list \<Rightarrow> nat \<Rightarrow> 'a list option"
    and pass filtered k r
  assume ih: "\<And>pass filtered k r. loop pass filtered k = Some r \<Longrightarrow>
            (if filtered = [] then \<exists>k'. pass k' = Some r \<and> r \<noteq> [] else r = filtered)"
    and step: "(if filtered = []
                then (case pass k of None \<Rightarrow> None
                      | Some pushed \<Rightarrow> loop pass (filtered @ pushed) (Suc k))
                else Some filtered) = Some r"
  show "if filtered = [] then \<exists>k'. pass k' = Some r \<and> r \<noteq> [] else r = filtered"
  proof (cases "filtered = []")
    case True
    with step obtain pushed where p: "pass k = Some pushed"
      and l: "loop pass pushed (Suc k) = Some r"
      by (auto split: option.splits)
    show ?thesis
    proof (cases "pushed = []")
      case True
      with ih [OF l] \<open>filtered = []\<close> show ?thesis by simp
    next
      case False
      with ih [OF l] have "r = pushed" by simp
      with p False \<open>filtered = []\<close> show ?thesis by auto
    qed
  next
    case False
    with step show ?thesis by simp
  qed
qed

lemma occupancy_while_first:
  assumes "\<forall>j<k. pass (n + j) = Some []" "pass (n + k) = Some r" "r \<noteq> []"
  shows "occupancy_while pass [] n = Some r"
  using assms
proof (induction k arbitrary: n)
  case 0
  then show ?case
    by (subst occupancy_while.simps, simp, subst occupancy_while.simps, simp)
next
  case (Suc k)
  from Suc.prems(1) have first: "pass n = Some []" by (metis add.right_neutral zero_less_Suc)
  have "\<forall>j<k. pass (Suc n + j) = Some []"
  proof (intro allI impI)
    fix j assume "j < k"
    then have "Suc j < Suc k" by simp
    with Suc.prems(1) have "pass (n + Suc j) = Some []" by blast
    then show "pass (Suc n + j) = Some []" by simp
  qed
  moreover from Suc.prems(2) have "pass (Suc n + k) = Some r" by simp
  ultimately have "occupancy_while pass [] (Suc n) = Some r"
    using Suc.prems(3) by (rule Suc.IH)
  then show ?case using first by (subst occupancy_while.simps) simp
qed

lemma occupancy_while_diverges:
  assumes "\<And>k. pass k = Some []"
  shows "occupancy_while pass [] n = None"
proof (cases "occupancy_while pass [] n")
  case None
  then show ?thesis .
next
  case (Some r)
  from occupancy_while_returns [OF Some] obtain k' where "pass k' = Some r" "r \<noteq> []"
    by auto
  with assms [of k'] show ?thesis by simp
qed

lemma in_set_nonempty: "x \<in> set xs \<Longrightarrow> xs \<noteq> []"
  by auto

lemma first_relaxation:
  fixes f :: "nat \<Rightarrow> 'a list"
  assumes "f n \<noteq> []"
  shows "\<exists>k\<le>n. f k \<noteq> [] \<and> (\<forall>j<k. f j = [])"
proof -
  define k where "k = (LEAST k. f k \<noteq> [])"
  have "f k \<noteq> []" unfolding k_def using assms by (rule LeastI)
  moreover have "k \<le> n" unfolding k_def using assms by (rule Least_le)
  moreover have "f j = []" if "j < k" for j
    using not_less_Least [of j "\<lambda>k. f k \<noteq> []"] that unfolding k_def by blast
  ultimately show ?thesis by blast
qed

lemma grouped_sorted:
  "sorted ts \<Longrightarrow>
   sorted (map f (concat (map (\<lambda>t. filter (\<lambda>x. f x = t \<and> Q x) xs) ts)))"
proof (induction ts)
  case Nil
  then show ?case by simp
next
  case (Cons t ts)
  then have "sorted (map f (concat (map (\<lambda>t. filter (\<lambda>x. f x = t \<and> Q x) xs) ts)))"
    and le: "\<forall>t' \<in> set ts. t \<le> t'" by simp_all
  moreover have "sorted (map f ys)" if "\<forall>y \<in> set ys. f y = t" for ys
    using that by (induction ys) auto
  ultimately show ?case by (auto simp: sorted_append)
qed

lemma grouped_filter:
  "distinct ts \<Longrightarrow>
   filter (\<lambda>x. f x = t) (concat (map (\<lambda>t. filter (\<lambda>x. f x = t \<and> Q x) xs) ts)) =
     (if t \<in> set ts then filter (\<lambda>x. f x = t \<and> Q x) xs else [])"
proof (induction ts)
  case Nil
  then show ?case by simp
next
  case (Cons u ts)
  have same: "filter (\<lambda>x. f x = t) (filter (\<lambda>x. f x = u \<and> Q x) xs) =
           (if t = u then filter (\<lambda>x. f x = t \<and> Q x) xs else [])"
    by (induction xs) auto
  from Cons have ih: "filter (\<lambda>x. f x = t) (concat (map (\<lambda>t. filter (\<lambda>x. f x = t \<and> Q x) xs) ts)) =
     (if t \<in> set ts then filter (\<lambda>x. f x = t \<and> Q x) xs else [])" and "u \<notin> set ts"
    by simp_all
  have "filter (\<lambda>x. f x = t) (concat (map (\<lambda>t. filter (\<lambda>x. f x = t \<and> Q x) xs) (u # ts))) =
        filter (\<lambda>x. f x = t) (filter (\<lambda>x. f x = u \<and> Q x) xs) @
        filter (\<lambda>x. f x = t) (concat (map (\<lambda>t. filter (\<lambda>x. f x = t \<and> Q x) xs) ts))"
    by simp
  also have "\<dots> = (if t \<in> set (u # ts) then filter (\<lambda>x. f x = t \<and> Q x) xs else [])"
    unfolding same ih using \<open>u \<notin> set ts\<close> by auto
  finally show ?case .
qed

lemma occupancy_pass_sorted:
  assumes "occupancy_pass U task glb0 lo hi graded k = Some survivors" and "lo < 2 ^ 64"
  shows "sorted (map (\<lambda>gp. sm_multiple U glb0 (fst gp)) survivors)"
  unfolding occupancy_pass_returns [OF assms]
  by (rule grouped_sorted) (simp del: upt_Suc)

lemma occupancy_pass_groups:
  assumes "occupancy_pass U task glb0 lo hi graded k = Some survivors" and "lo < 2 ^ 64"
  shows "subseq (filter (\<lambda>gp. sm_multiple U glb0 (fst gp) = t) survivors) graded"
  unfolding occupancy_pass_returns [OF assms]
  by (subst grouped_filter) auto

lemma map_err_length: "map_err f xs = Inr ys \<Longrightarrow> length ys = length xs"
  by (induction xs arbitrary: ys) (auto split: sum.splits)

lemma occupancy_pass_nonempty:
  assumes "(g, p) \<in> set graded"
    and "lo \<le> sm_multiple U glb0 g" "sm_multiple U glb0 g \<le> hi"
    and "fp_gt (occupancy_penalty U task g) (occupancy_ratio k)"
  shows "concat (map
             (\<lambda>sm_times.
                filter
                  (\<lambda>gp. sm_multiple U glb0 (fst gp) = sm_times \<and>
                        fp_gt (occupancy_penalty U task (fst gp)) (occupancy_ratio k))
                  graded)
             [lo ..< Suc hi]) \<noteq> []"
proof -
  have "sm_multiple U glb0 g \<in> set [lo ..< Suc hi]" using assms(2,3) by auto
  moreover have "(g, p) \<in> set (filter (\<lambda>gp. sm_multiple U glb0 (fst gp) = sm_multiple U glb0 g \<and>
                  fp_gt (occupancy_penalty U task (fst gp)) (occupancy_ratio k)) graded)"
    using assms(1,4) by simp
  ultimately have "(g, p) \<in> set (concat (map
             (\<lambda>sm_times.
                filter
                  (\<lambda>gp. sm_multiple U glb0 (fst gp) = sm_times \<and>
                        fp_gt (occupancy_penalty U task (fst gp)) (occupancy_ratio k))
                  graded)
             [lo ..< Suc hi]))"
    unfolding set_concat set_map by blast
  then show ?thesis by (rule in_set_nonempty)
qed

text \<open>
  \<^verbatim>\<open>OccupancyFilter\<close> returns the candidates of the first round in which anything is
  pushed; such a round comes no later than any round whose threshold some candidate of
  the window exceeds.
\<close>

lemma OccupancyFilter_returns:
  assumes shape: "check_shape_vars task wkl_inst = Inr ()"
    and len: "length configs \<le> length cand_states"
    and grids: "map_err (state_grid_size U wkl_inst) (take (length configs) cand_states) = Inr grids"
    and glb: "array_at (glbmem_sm_partition (hardware_api task)) 0 = Inr glb0"
    and smem: "array_at (smem_sm_partition (hardware_api task)) 1 = Inr smem1"
    and top: "size_t_of (floor_div U (int (fold max grids 0)) glb0) < 2 ^ 64 - 1"
    and i: "i < length configs"
    and lo: "size_t_of smem1 \<le> sm_multiple U glb0 (grids ! i)"
    and hi: "sm_multiple U glb0 (grids ! i) \<le> size_t_of (floor_div U (int (fold max grids 0)) glb0)"
    and pen: "fp_gt (occupancy_penalty U task (grids ! i)) (occupancy_ratio n)"
  shows "\<exists>k kept. k \<le> n \<and> kept \<noteq> [] \<and>
           OccupancyFilter U task configs cand_states wkl_inst =
             Some (Inr (map (fst \<circ> snd) kept, map (snd \<circ> snd) kept)) \<and>
           occupancy_pass U task glb0 (size_t_of smem1)
             (size_t_of (floor_div U (int (fold max grids 0)) glb0))
             (zip grids (zip configs cand_states)) k = Some kept \<and>
           (\<forall>j<k. occupancy_pass U task glb0 (size_t_of smem1)
                     (size_t_of (floor_div U (int (fold max grids 0)) glb0))
                     (zip grids (zip configs cand_states)) j = Some [])"
proof -
  define graded where "graded = zip grids (zip configs cand_states)"
  define pass where "pass = occupancy_pass U task glb0 (size_t_of smem1)
     (size_t_of (floor_div U (int (fold max grids 0)) glb0)) graded"
  define pushed where "pushed = (\<lambda>k. concat (map
             (\<lambda>sm_times.
                filter
                  (\<lambda>gp. sm_multiple U glb0 (fst gp) = sm_times \<and>
                        fp_gt (occupancy_penalty U task (fst gp)) (occupancy_ratio k))
                  graded)
             [size_t_of smem1 ..< Suc (size_t_of (floor_div U (int (fold max grids 0)) glb0))]))"
  have closed: "pass k = Some (pushed k)" for k
    unfolding pass_def pushed_def using top by (intro occupancy_pass_closed) simp
  have lg: "length grids = length configs"
    using map_err_length [OF grids] len by simp
  then have "graded ! i = (grids ! i, configs ! i, cand_states ! i)" "i < length graded"
    using i len by (simp_all add: graded_def)
  then have mem: "(grids ! i, configs ! i, cand_states ! i) \<in> set graded"
    by (metis nth_mem)
  have "pushed n \<noteq> []"
    unfolding pushed_def using mem lo hi pen by (rule occupancy_pass_nonempty)
  from first_relaxation [of pushed, OF this] obtain k where
    k: "k \<le> n" "pushed k \<noteq> []" "\<forall>j<k. pushed j = []" by blast
  have "occupancy_while pass [] 0 = Some (pushed k)"
    using k(2,3) by (intro occupancy_while_first [of k]) (simp_all add: closed)
  then have "OccupancyFilter U task configs cand_states wkl_inst =
          Some (Inr (map (fst \<circ> snd) (pushed k), map (snd \<circ> snd) (pushed k)))"
    using shape len grids glb smem
    by (simp add: OccupancyFilter_def pass_def graded_def)
  with k closed show ?thesis
    unfolding pass_def graded_def by (intro exI [of _ k] exI [of _ "pushed k"]) simp
qed

lemma keep_valid_total:
  assumes "length configs \<le> length cand_states"
  shows "keep_valid valid configs cand_states =
           Inr (map fst (map snd (filter fst (zip valid (zip configs cand_states)))),
                map snd (map snd (filter fst (zip valid (zip configs cand_states)))))"
proof -
  have no: "\<not> list_ex (\<lambda>(v, i). v \<and> length cand_states \<le> i) (zip valid [0 ..< length configs])"
    using assms(1) by (auto simp: list_ex_iff set_zip)
  then show ?thesis by (simp add: keep_valid_def Let_def)
qed

lemma flagged_nonempty:
  assumes "length configs \<le> length cand_states" "length valid = length configs"
    "i < length configs" "valid ! i"
  shows "filter fst (zip valid (zip configs cand_states)) \<noteq> []"
proof -
  have "(zip valid (zip configs cand_states)) ! i = (True, configs ! i, cand_states ! i)"
    "i < length (zip valid (zip configs cand_states))"
    using assms by simp_all
  then have "(True, configs ! i, cand_states ! i) \<in> set (zip valid (zip configs cand_states))"
    by (metis nth_mem)
  then show ?thesis
    unfolding filter_empty_conv by force
qed

lemma padding_relax_first:
  assumes "\<forall>j<k. PaddingFilter U task C S inst (padding_threshold (n + j)) = Inr ([], [])"
    and "PaddingFilter U task C S inst (padding_threshold (n + k)) = Inr (cs, ss)" "cs \<noteq> []"
  shows "padding_relax U task C S inst n = Some (Inr (cs, ss))"
  using assms
proof (induction k arbitrary: n)
  case 0
  then show ?case by (subst padding_relax.simps) simp
next
  case (Suc k)
  from Suc.prems(1) have first: "PaddingFilter U task C S inst (padding_threshold n) = Inr ([], [])"
    by (metis add.right_neutral zero_less_Suc)
  have "\<forall>j<k. PaddingFilter U task C S inst (padding_threshold (Suc n + j)) = Inr ([], [])"
  proof (intro allI impI)
    fix j assume "j < k"
    then have "Suc j < Suc k" by simp
    with Suc.prems(1) have "PaddingFilter U task C S inst (padding_threshold (n + Suc j)) = Inr ([], [])"
      by blast
    then show "PaddingFilter U task C S inst (padding_threshold (Suc n + j)) = Inr ([], [])" by simp
  qed
  moreover from Suc.prems(2)
  have "PaddingFilter U task C S inst (padding_threshold (Suc n + k)) = Inr (cs, ss)" by simp
  ultimately have "padding_relax U task C S inst (Suc n) = Some (Inr (cs, ss))"
    using Suc.prems(3) by (rule Suc.IH)
  then show ?case using first by (subst padding_relax.simps) simp
qed

lemma padding_relax_returns:
  assumes shape: "check_shape_vars task wkl_inst = Inr ()"
    and len: "length configs \<le> length cand_states"
    and pens: "map_err (state_padding_penalty U wkl_inst) (take (length configs) cand_states) = Inr penalties"
    and i: "i < length configs"
    and pen: "fp_gt (penalties ! i) (padding_threshold n)"
  shows "\<exists>k cs ss. k \<le> n \<and> cs \<noteq> [] \<and>
           padding_relax U task configs cand_states wkl_inst 0 = Some (Inr (cs, ss)) \<and>
           PaddingFilter U task configs cand_states wkl_inst (padding_threshold k) = Inr (cs, ss) \<and>
           (\<forall>j<k. PaddingFilter U task configs cand_states wkl_inst (padding_threshold j)
                     = Inr ([], []))"
proof -
  define kept where "kept = (\<lambda>k. map snd (filter fst
     (zip (map (\<lambda>p. fp_gt p (padding_threshold k)) penalties) (zip configs cand_states))))"
  have lp: "length penalties = length configs"
    using map_err_length [OF pens] len by simp
  have pf: "PaddingFilter U task configs cand_states wkl_inst (padding_threshold k) =
          Inr (map fst (kept k), map snd (kept k))" for k
    using shape len pens by (simp add: PaddingFilter_def keep_valid_total kept_def)
  have "map (\<lambda>p. fp_gt p (padding_threshold n)) penalties ! i"
    using i lp pen by simp
  from flagged_nonempty [OF len _ i this] lp have "kept n \<noteq> []"
    by (simp add: kept_def)
  from first_relaxation [of kept, OF this] obtain k where
    k: "k \<le> n" "kept k \<noteq> []" "\<forall>j<k. kept j = []" by blast
  have "padding_relax U task configs cand_states wkl_inst 0 =
          Some (Inr (map fst (kept k), map snd (kept k)))"
    using k(2,3) by (intro padding_relax_first [of k]) (simp_all add: pf)
  with k pf show ?thesis
    by (intro exI [of _ k] exI [of _ "map fst (kept k)"] exI [of _ "map snd (kept k)"]) simp
qed

subsection \<open>Filters that reorder\<close>

lemma insert_desc_mset: "mset (insert_desc key x xs) = add_mset x (mset xs)"
  by (induction xs) auto

lemma insert_desc_set: "set (insert_desc key x xs) = insert x (set xs)"
  by (induction xs) auto

lemma insert_desc_sorted:
  "sorted_wrt (\<lambda>a b. key b \<le> key a) xs \<Longrightarrow>
   sorted_wrt (\<lambda>a b. key b \<le> key a) (insert_desc key x xs)"
  by (induction xs) (auto simp: insert_desc_set)

lemma sort_desc_contract: "sort_contract sort_desc"
proof -
  have "mset (sort_desc key xs) = mset xs \<and>
        sorted_wrt (\<lambda>a b. key b \<le> key a) (sort_desc key xs)"
    for key :: "'a \<Rightarrow> real" and xs
    by (induction xs) (simp_all add: insert_desc_mset insert_desc_sorted)
  then show ?thesis unfolding sort_contract_def by blast
qed

lemma OccupancyFilter_order:
  assumes "OccupancyFilter U task cs ss inst = Some (Inr (cs', ss'))"
  shows "\<exists>grids glb0 kept.
           map_err (state_grid_size U inst) (take (length cs) ss) = Inr grids \<and>
           array_at (glbmem_sm_partition (hardware_api task)) 0 = Inr glb0 \<and>
           cs' = map (fst \<circ> snd) kept \<and> ss' = map (snd \<circ> snd) kept \<and>
           sorted (map (\<lambda>gp. sm_multiple U glb0 (fst gp)) kept) \<and>
           (\<forall>t. subseq (filter (\<lambda>gp. sm_multiple U glb0 (fst gp) = t) kept)
                  (zip grids (zip cs ss)))"
proof -
  from assms obtain grids glb0 smem1 kept where
    g: "map_err (state_grid_size U inst) (take (length cs) ss) = Inr grids"
    and glb: "array_at (glbmem_sm_partition (hardware_api task)) 0 = Inr glb0"
    and w: "occupancy_while
              (occupancy_pass U task glb0 (size_t_of smem1)
                 (size_t_of (floor_div U (int (fold max grids 0)) glb0))
                 (zip grids (zip cs ss))) [] 0 = Some kept"
    and out: "cs' = map (fst \<circ> snd) kept" "ss' = map (snd \<circ> snd) kept"
    by (auto simp: OccupancyFilter_def split: sum.splits if_splits)
  from occupancy_while_returns [OF w] obtain k where
    "occupancy_pass U task glb0 (size_t_of smem1)
                 (size_t_of (floor_div U (int (fold max grids 0)) glb0))
                 (zip grids (zip cs ss)) k = Some kept"
    by auto
  then have "sorted (map (\<lambda>gp. sm_multiple U glb0 (fst gp)) kept)"
    "\<forall>t. subseq (filter (\<lambda>gp. sm_multiple U glb0 (fst gp) = t) kept) (zip grids (zip cs ss))"
    using size_t_of_less [of smem1]
    by (simp_all add: occupancy_pass_sorted occupancy_pass_groups)
  with g glb out show ?thesis by blast
qed

lemma top_by_ratio_order:
  assumes c: "sort_contract std_sort"
    and len: "length ss = length cs"
    and res: "top_by_ratio std_sort level limit cs ss = Inr (cs', ss')"
  shows "length cs' = min limit (length cs) \<and>
         sorted_wrt (\<lambda>a b. compute_intensive_ratio b ! level \<le> compute_intensive_ratio a ! level) cs' \<and>
         mset (zip cs' ss') \<subseteq># mset (zip cs ss)"
proof -
  define key where "key = (\<lambda>ci :: HwAlignedConfig \<times> nat. compute_intensive_ratio (fst ci) ! level)"
  define all where "all = zip cs [0 ..< length cs]"
  define top where "top = take (min limit (length (std_sort key all))) (std_sort key all)"
  from c have ms: "mset (std_sort key all) = mset all"
    and so: "sorted_wrt (\<lambda>a b. key b \<le> key a) (std_sort key all)"
    unfolding sort_contract_def by blast+
  from res have out: "cs' = map fst top" "ss' = map (\<lambda>ci. ss ! snd ci) top"
    by (simp_all add: top_by_ratio_def Let_def key_def all_def top_def split: if_splits)
  have "length (std_sort key all) = length all"
    using ms by (metis size_mset)
  then have l: "length cs' = min limit (length cs)"
    by (simp add: out top_def all_def)
  have "sorted_wrt (\<lambda>a b. key b \<le> key a) top"
    unfolding top_def using so by (rule sorted_wrt_take)
  then have s: "sorted_wrt (\<lambda>a b. compute_intensive_ratio b ! level \<le> compute_intensive_ratio a ! level) cs'"
    by (simp add: out sorted_wrt_map key_def)
  have "mset top \<subseteq># mset all"
  proof -
    have "mset (take (min limit (length (std_sort key all))) (std_sort key all)) \<subseteq>#
          mset (take (min limit (length (std_sort key all))) (std_sort key all)) +
          mset (drop (min limit (length (std_sort key all))) (std_sort key all))"
      by simp
    also have "\<dots> = mset (std_sort key all)"
      by (simp flip: mset_append)
    finally show ?thesis by (simp add: top_def ms)
  qed
  then have "image_mset (\<lambda>ci. (fst ci, ss ! snd ci)) (mset top) \<subseteq>#
             image_mset (\<lambda>ci. (fst ci, ss ! snd ci)) (mset all)"
    by (rule image_mset_subseteq_mono)
  moreover have "map (\<lambda>ci. (fst ci, ss ! snd ci)) all = zip cs ss"
    unfolding all_def using len by (intro nth_equalityI) simp_all
  moreover have "zip cs' ss' = map (\<lambda>ci. (fst ci, ss ! snd ci)) top"
    unfolding out by (induction top) simp_all
  ultimately have "mset (zip cs' ss') \<subseteq># mset (zip cs ss)"
    by (metis mset_map)
  with l s show ?thesis by blast
qed

subsection \<open>Concrete runs\<close>

lemma ceil_utils_simps:
  "floor_div ceil_utils a b = (a + b - 1) div b"
  "floor_by ceil_utils a b = ((a + b - 1) div b) * b"
  by (simp_all add: ceil_utils_def)

lemma example_task_simps:
  "hardware_api example_task = example_hw"
  "num_cores example_task = 2"
  "shape_vars example_task = Some [''T'']"
  by (simp_all add: example_task_def)

lemma example_split_lengths:
  "split_length [1, 1, 8] = 8" "split_length [1, 1, 2] = 2" "split_length [1, 2, 2] = 4"
  "split_length [1, 1, 1] = 1" "split_length [1, 1, 4] = 4"
  by (simp_all add: split_length_def wrap_s64_def)

lemma example_grid_sizes:
  "state_grid_size ceil_utils [8] (Some (split_state 8 [1, 1, 8])) = Inr 1"
  "state_grid_size ceil_utils [8] (Some (split_state 8 [1, 1, 2])) = Inr 4"
  "state_grid_size ceil_utils [8] (Some (split_state 8 [1, 2, 2])) = Inr 2"
  "state_grid_size ceil_utils [8] (Some (split_state 3 [1, 1, 1])) = Inr 3"
  by (simp_all add: state_grid_size_def split_state_def ceil_utils_simps size_t_of_def
      size_t_mul_def example_split_lengths)

lemma float_3_4: "to_float (3 / 4) = Finite (3 / 4)"
  using round_to_exact [of 3 24 127 "- 2"] by (simp add: to_float_def power_int_minus)

lemma double_3_4: "to_double (3 / 4) = Finite (3 / 4)"
  using round_to_exact [of 3 53 1023 "- 2"] by (simp add: to_double_def power_int_minus)

lemma double_1_16: "to_double (1 / 16) = Finite (1 / 16)"
  using round_to_exact [of 1 53 1023 "- 4"] by (simp add: to_double_def power_int_minus)

lemma double_17_16: "to_double (17 / 16) = Finite (17 / 16)"
  using round_to_exact [of 17 53 1023 "- 4"] by (simp add: to_double_def power_int_minus)

lemma example_padding:
  "state_padding_penalty ceil_utils [8] (Some (split_state 8 [1, 1, 2])) = Inr (Finite 1)"
  "state_padding_penalty ceil_utils [8] (Some (split_state 8 [1, 2, 2])) = Inr (Finite 1)"
  "state_padding_penalty ceil_utils [8] (Some (split_state 3 [1, 1, 4])) = Inr (Finite (3 / 4))"
  by (simp_all add: state_padding_penalty_def split_state_def ceil_utils_simps padding_ratio_def
      example_split_lengths double_3_4 float_3_4)

lemma example_occupancy_penalty:
  "occupancy_penalty ceil_utils example_task 4 = Finite 1"
  "occupancy_penalty ceil_utils example_task 2 = Finite 1"
  "occupancy_penalty ceil_utils example_task 3 = Finite (3 / 4)"
  by (simp_all add: occupancy_penalty_def example_task_simps example_hw_def ceil_utils_simps
      size_t_of_def fp_sub_def float_3_4)

lemma ratio_config_neq: "ratio_config 256 [2, 2] \<noteq> ratio_config 128 [1, 1]"
  by (simp add: ratio_config_def)

lemma ex_threads: "ThreadsNumberFilter example_task [ratio_config 128 [1, 1], ratio_config 256 [2, 2]]
     [Some (split_state 8 [1, 1, 2]), Some (split_state 8 [1, 2, 2])] =
   Inr ([ratio_config 128 [1, 1], ratio_config 256 [2, 2]],
     [Some (split_state 8 [1, 1, 2]), Some (split_state 8 [1, 2, 2])])"
  by (simp add: ThreadsNumberFilter_def threads_aligned_def example_task_simps example_hw_def
      array_at_def ratio_config_def keep_valid_def wrap_s64_def)

lemma ex_blocks: "blocks_in_sm ceil_utils example_task 4 = Inr 2" "blocks_in_sm ceil_utils example_task 2 = Inr 2"
  by (simp_all add: blocks_in_sm_def example_task_simps example_hw_def array_at_def size_t_of_def ceil_utils_simps)

lemma ex_reg: "RegisterLaunchBoundsFilter ceil_utils example_task [ratio_config 128 [1, 1], ratio_config 256 [2, 2]]
     [Some (split_state 8 [1, 1, 2]), Some (split_state 8 [1, 2, 2])] [8] =
   Inr ([ratio_config 128 [1, 1], ratio_config 256 [2, 2]],
     [Some (split_state 8 [1, 1, 2]), Some (split_state 8 [1, 2, 2])])"
proof -
  have "register_bounds_ok ceil_utils example_task [8] 1 (ratio_config 128 [1, 1], Some (split_state 8 [1, 1, 2])) = Inr True"
    "register_bounds_ok ceil_utils example_task [8] 1 (ratio_config 256 [2, 2], Some (split_state 8 [1, 2, 2])) = Inr True"
    by (simp_all add: register_bounds_ok_def example_grid_sizes ex_blocks first_reduce_tile_def
        ratio_config_def example_task_simps example_hw_def wrap_s32_def size_t_of_def
        size_t_mul_def double_1_16 double_17_16)
  then show ?thesis 
    by (simp add: RegisterLaunchBoundsFilter_def example_task_simps keep_valid_def split_state_def)
qed

lemma ex_smem: "SharedMemoryLaunchBoundsFilter ceil_utils example_task [ratio_config 128 [1, 1], ratio_config 256 [2, 2]]
     [Some (split_state 8 [1, 1, 2]), Some (split_state 8 [1, 2, 2])] [8] =
   Inr ([ratio_config 128 [1, 1], ratio_config 256 [2, 2]],
     [Some (split_state 8 [1, 1, 2]), Some (split_state 8 [1, 2, 2])])"
proof -
  have "smem_bounds_ok ceil_utils example_task [8] (ratio_config 128 [1, 1], Some (split_state 8 [1, 1, 2])) = Inr True"
    "smem_bounds_ok ceil_utils example_task [8] (ratio_config 256 [2, 2], Some (split_state 8 [1, 2, 2])) = Inr True"
    by (simp_all add: smem_bounds_ok_def example_grid_sizes ex_blocks ratio_config_def
        example_task_simps example_hw_def size_t_of_def size_t_mul_def)
  then show ?thesis 
    by (simp add: SharedMemoryLaunchBoundsFilter_def check_shape_vars_def example_task_simps keep_valid_def)
qed

lemma ex_padding: "PaddingFilter ceil_utils example_task [ratio_config 128 [1, 1], ratio_config 256 [2, 2]]
     [Some (split_state 8 [1, 1, 2]), Some (split_state 8 [1, 2, 2])] [8] (padding_threshold 0) =
   Inr ([ratio_config 128 [1, 1], ratio_config 256 [2, 2]],
     [Some (split_state 8 [1, 1, 2]), Some (split_state 8 [1, 2, 2])])"
  by (simp add: PaddingFilter_def check_shape_vars_def example_task_simps keep_valid_def
      example_padding padding_threshold_0 fp_gt_def)

lemma example_window:
  "sm_times_loop push 4 2 [] = Some (push 2 @ push 3 @ push 4)"
  "sm_times_loop push 3 2 [] = Some (push 2 @ push 3)"
  "sm_times_loop push (Suc 0) 2 [] = Some []"
proof -
  have "[2 ..< Suc 4] = [2, 3, 4]" "[2 ..< Suc 3] = [2, 3]" "[2 ..< Suc 1] = []"
    by (simp_all add: upt_rec)
  then show "sm_times_loop push 4 2 [] = Some (push 2 @ push 3 @ push 4)"
    "sm_times_loop push 3 2 [] = Some (push 2 @ push 3)"
    "sm_times_loop push (Suc 0) 2 [] = Some []"
    using sm_times_loop_closed [of 4 2 push "[]"] sm_times_loop_closed [of 3 2 push "[]"]
      sm_times_loop_closed [of 1 2 push "[]"]
    by simp_all
qed

lemma ex_occ:
  "OccupancyFilter ceil_utils example_task [ratio_config 128 [1, 1], ratio_config 256 [2, 2]]
     [Some (split_state 8 [1, 1, 2]), Some (split_state 8 [1, 2, 2])] [8] = 
   Some (Inr ([ratio_config 256 [2, 2], ratio_config 128 [1, 1]], [Some (split_state 8 [1, 2, 2]), Some (split_state 8 [1, 1, 2])]))"
proof -
  have pass: "occupancy_pass ceil_utils example_task 1 2 4
      [(4, ratio_config 128 [1, 1], Some (split_state 8 [1, 1, 2])),
       (2, ratio_config 256 [2, 2], Some (split_state 8 [1, 2, 2]))] 0 =
     Some [(2, ratio_config 256 [2, 2], Some (split_state 8 [1, 2, 2])),
           (4, ratio_config 128 [1, 1], Some (split_state 8 [1, 1, 2]))]"
    by (simp add: occupancy_pass_def example_window sm_multiple_def size_t_of_def ceil_utils_simps
        example_occupancy_penalty occupancy_ratio_0 fp_gt_def)
  show ?thesis
    by (simp add: OccupancyFilter_def check_shape_vars_def example_task_simps example_hw_def
        example_grid_sizes array_at_def size_t_of_def ceil_utils_simps occupancy_while.simps pass)
qed

lemma ex_smemci:
  "SharedMemoryComputeIntensiveFilter sort_desc example_task [ratio_config 128 [1, 1], ratio_config 256 [2, 2]]
     [Some (split_state 8 [1, 1, 2]), Some (split_state 8 [1, 2, 2])] = 
   Inr ([ratio_config 256 [2, 2], ratio_config 128 [1, 1]], [Some (split_state 8 [1, 2, 2]), Some (split_state 8 [1, 1, 2])])"
  by (simp add: SharedMemoryComputeIntensiveFilter_def top_by_ratio_def ratio_config_def upt_rec)

lemma ex_regci:
  "RegComputeIntensiveFilter sort_desc example_task [ratio_config 128 [1, 1], ratio_config 256 [2, 2]]
     [Some (split_state 8 [1, 1, 2]), Some (split_state 8 [1, 2, 2])] [8] = 
   Inr ([ratio_config 256 [2, 2], ratio_config 128 [1, 1]], [Some (split_state 8 [1, 2, 2]), Some (split_state 8 [1, 1, 2])])"
  by (simp add: RegComputeIntensiveFilter_def top_by_ratio_def ratio_config_def upt_rec)

lemma not_sub: "\<not> subseq (zip [ratio_config 256 [2, 2], ratio_config 128 [1, 1]] [Some (split_state 8 [1, 2, 2]), Some (split_state 8 [1, 1, 2])])
                  (zip [ratio_config 128 [1, 1], ratio_config 256 [2, 2]] [Some (split_state 8 [1, 1, 2]), Some (split_state 8 [1, 2, 2])])"
  by (simp add: ratio_config_neq)

subsection \<open>Termination of the relaxation loops\<close>

lemma example_relaxed_pass:
  "occupancy_pass ceil_utils example_task 1 2 3
     [(3, ratio_config 128 [1, 1], Some (split_state 3 [1, 1, 1]))] 0 = Some []"
  "occupancy_pass ceil_utils example_task 1 2 3
     [(3, ratio_config 128 [1, 1], Some (split_state 3 [1, 1, 1]))] (Suc 0) = Some []"
  "occupancy_pass ceil_utils example_task 1 2 3
     [(3, ratio_config 128 [1, 1], Some (split_state 3 [1, 1, 1]))] 2 = Some []"
  "occupancy_pass ceil_utils example_task 1 2 3
     [(3, ratio_config 128 [1, 1], Some (split_state 3 [1, 1, 1]))] 3 = Some []"
  "occupancy_pass ceil_utils example_task 1 2 3
     [(3, ratio_config 128 [1, 1], Some (split_state 3 [1, 1, 1]))] 4 =
     Some [(3, ratio_config 128 [1, 1], Some (split_state 3 [1, 1, 1]))]"
  by (simp_all add: occupancy_pass_def example_window sm_multiple_def size_t_of_def
      ceil_utils_simps example_occupancy_penalty fp_gt_def
      occupancy_ratio_0 occupancy_ratio_Suc_0 occupancy_ratio_2 occupancy_ratio_3 occupancy_ratio_4)

lemma example_relaxed_padding:
  "PaddingFilter ceil_utils example_task [ratio_config 128 [1, 1]]
     [Some (split_state 3 [1, 1, 4])] [8] (padding_threshold 0) = Inr ([], [])"
  "PaddingFilter ceil_utils example_task [ratio_config 128 [1, 1]]
     [Some (split_state 3 [1, 1, 4])] [8] (padding_threshold (Suc 0)) = Inr ([], [])"
  "PaddingFilter ceil_utils example_task [ratio_config 128 [1, 1]]
     [Some (split_state 3 [1, 1, 4])] [8] (padding_threshold 2) = Inr ([], [])"
  "PaddingFilter ceil_utils example_task [ratio_config 128 [1, 1]]
     [Some (split_state 3 [1, 1, 4])] [8] (padding_threshold 3) = Inr ([], [])"
  "PaddingFilter ceil_utils example_task [ratio_config 128 [1, 1]]
     [Some (split_state 3 [1, 1, 4])] [8] (padding_threshold 4) =
     Inr ([ratio_config 128 [1, 1]], [Some (split_state 3 [1, 1, 4])])"
  by (simp_all add: PaddingFilter_def check_shape_vars_def example_task_simps keep_valid_def
      example_padding fp_gt_def
      padding_threshold_0 padding_threshold_Suc_0 padding_threshold_2 padding_threshold_3
      padding_threshold_4)

lemma up_to_four: "k \<le> 4 \<Longrightarrow> k = 0 \<or> k = 1 \<or> k = 2 \<or> k = 3 \<or> k = (4 :: nat)"
  by arith

text \<open>
  C3 (as amended). \<^verbatim>\<open>OccupancyFilter\<close> lowers its \<^verbatim>\<open>float\<close> threshold from 0.95 in steps
  of 0.05 over a fixed window of SM multiples, from \<^verbatim>\<open>smem_sm_partition[1]\<close> to the
  multiple of the largest grid. If that last multiple is below \<open>2^64 - 1\<close> and some
  config has its SM multiple in the window and an occupancy penalty above the threshold
  of round \<open>n\<close>, the filter returns after at most \<open>n\<close> relaxations, and what it returns
  is exactly what the first round that pushes anything has pushed, which is not empty. The
  loop around \<^verbatim>\<open>PaddingFilter\<close> lowers its \<^verbatim>\<open>double\<close> threshold in the same way: if
  some candidate has a padding penalty above the threshold of round \<open>n\<close>, the loop returns
  after at most \<open>n\<close> relaxations with the survivors of the first round that has any.
  Both thresholds are negative in round 20, so every candidate with a penalty of at least
  zero qualifies.
\<close>

theorem relaxation_loops_return:
  assumes "check_shape_vars task wkl_inst = Inr ()"
    and "length configs \<le> length cand_states"
  shows "(map_err (state_grid_size U wkl_inst) (take (length configs) cand_states) = Inr grids \<and>
          array_at (glbmem_sm_partition (hardware_api task)) 0 = Inr glb0 \<and>
          array_at (smem_sm_partition (hardware_api task)) 1 = Inr smem1 \<and>
          size_t_of (floor_div U (int (fold max grids 0)) glb0) < 2 ^ 64 - 1 \<and>
          i < length configs \<and>
          size_t_of smem1 \<le> sm_multiple U glb0 (grids ! i) \<and>
          sm_multiple U glb0 (grids ! i) \<le> size_t_of (floor_div U (int (fold max grids 0)) glb0) \<and>
          fp_gt (occupancy_penalty U task (grids ! i)) (occupancy_ratio n)
          \<longrightarrow> (\<exists>k kept. k \<le> n \<and> kept \<noteq> [] \<and>
                 OccupancyFilter U task configs cand_states wkl_inst =
                   Some (Inr (map (fst \<circ> snd) kept, map (snd \<circ> snd) kept)) \<and>
                 occupancy_pass U task glb0 (size_t_of smem1)
                   (size_t_of (floor_div U (int (fold max grids 0)) glb0))
                   (zip grids (zip configs cand_states)) k = Some kept \<and>
                 (\<forall>j<k. occupancy_pass U task glb0 (size_t_of smem1)
                           (size_t_of (floor_div U (int (fold max grids 0)) glb0))
                           (zip grids (zip configs cand_states)) j = Some []))) \<and>
         (map_err (state_padding_penalty U wkl_inst) (take (length configs) cand_states)
            = Inr penalties \<and>
          j < length configs \<and> fp_gt (penalties ! j) (padding_threshold m)
          \<longrightarrow> (\<exists>k cs ss. k \<le> m \<and> cs \<noteq> [] \<and>
                 padding_relax U task configs cand_states wkl_inst 0 = Some (Inr (cs, ss)) \<and>
                 PaddingFilter U task configs cand_states wkl_inst (padding_threshold k)
                   = Inr (cs, ss) \<and>
                 (\<forall>j<k. PaddingFilter U task configs cand_states wkl_inst (padding_threshold j)
                           = Inr ([], [])))) \<and>
         fp_lt (occupancy_ratio 20) (Finite 0) \<and>
         fp_lt (padding_threshold 20) (Finite 0)"
proof (intro conjI impI)
  assume "map_err (state_grid_size U wkl_inst) (take (length configs) cand_states) = Inr grids \<and>
          array_at (glbmem_sm_partition (hardware_api task)) 0 = Inr glb0 \<and>
          array_at (smem_sm_partition (hardware_api task)) 1 = Inr smem1 \<and>
          size_t_of (floor_div U (int (fold max grids 0)) glb0) < 2 ^ 64 - 1 \<and>
          i < length configs \<and>
          size_t_of smem1 \<le> sm_multiple U glb0 (grids ! i) \<and>
          sm_multiple U glb0 (grids ! i) \<le> size_t_of (floor_div U (int (fold max grids 0)) glb0) \<and>
          fp_gt (occupancy_penalty U task (grids ! i)) (occupancy_ratio n)"
  then show "\<exists>k kept. k \<le> n \<and> kept \<noteq> [] \<and>
                 OccupancyFilter U task configs cand_states wkl_inst =
                   Some (Inr (map (fst \<circ> snd) kept, map (snd \<circ> snd) kept)) \<and>
                 occupancy_pass U task glb0 (size_t_of smem1)
                   (size_t_of (floor_div U (int (fold max grids 0)) glb0))
                   (zip grids (zip configs cand_states)) k = Some kept \<and>
                 (\<forall>j<k. occupancy_pass U task glb0 (size_t_of smem1)
                           (size_t_of (floor_div U (int (fold max grids 0)) glb0))
                           (zip grids (zip configs cand_states)) j = Some [])"
    using OccupancyFilter_returns [OF assms, of U grids glb0 smem1 i n] by blast
next
  assume "map_err (state_padding_penalty U wkl_inst) (take (length configs) cand_states)
            = Inr penalties \<and>
          j < length configs \<and> fp_gt (penalties ! j) (padding_threshold m)"
  then show "\<exists>k cs ss. k \<le> m \<and> cs \<noteq> [] \<and>
                 padding_relax U task configs cand_states wkl_inst 0 = Some (Inr (cs, ss)) \<and>
                 PaddingFilter U task configs cand_states wkl_inst (padding_threshold k)
                   = Inr (cs, ss) \<and>
                 (\<forall>j<k. PaddingFilter U task configs cand_states wkl_inst (padding_threshold j)
                           = Inr ([], []))"
    using padding_relax_returns [OF assms, of U penalties j m] by blast
next
  show "fp_lt (occupancy_ratio 20) (Finite 0)"
    by (simp add: occupancy_ratio_20)
  show "fp_lt (padding_threshold 20) (Finite 0)"
    by (simp add: padding_threshold_20)
qed

text \<open>
  A run with relaxation: the penalty 0.75 stays below the thresholds of rounds 0 to 3 and
  exceeds that of round 4, which the \<^verbatim>\<open>float\<close> subtraction has brought to
  \<open>12582911 / 2^24\<close>, just under 0.75 (and the \<^verbatim>\<open>double\<close> subtraction to
  \<open>3377699720527871 / 2^52\<close>).
\<close>

theorem relaxation_loops_return_witness:
  "check_shape_vars example_task [8] = Inr () \<and>
   map_err (state_grid_size ceil_utils [8]) (take 1 [Some (split_state 3 [1, 1, 1])]) = Inr [3] \<and>
   size_t_of (floor_div ceil_utils (int (fold max [3] 0)) 1) = 3 \<and>
   size_t_of 2 \<le> sm_multiple ceil_utils 1 ([3] ! 0) \<and>
   occupancy_penalty ceil_utils example_task 3 = Finite (3 / 4) \<and>
   occupancy_ratio 3 = Finite (3355443 / 4194304) \<and>
   occupancy_ratio 4 = Finite (12582911 / 16777216) \<and>
   OccupancyFilter ceil_utils example_task [ratio_config 128 [1, 1]]
       [Some (split_state 3 [1, 1, 1])] [8]
     = Some (Inr ([ratio_config 128 [1, 1]], [Some (split_state 3 [1, 1, 1])])) \<and>
   map_err (state_padding_penalty ceil_utils [8]) (take 1 [Some (split_state 3 [1, 1, 4])])
     = Inr [Finite (3 / 4)] \<and>
   padding_threshold 3 = Finite (900719925474099 / 1125899906842624) \<and>
   padding_threshold 4 = Finite (3377699720527871 / 4503599627370496) \<and>
   padding_relax ceil_utils example_task [ratio_config 128 [1, 1]]
       [Some (split_state 3 [1, 1, 4])] [8] 0
     = Some (Inr ([ratio_config 128 [1, 1]], [Some (split_state 3 [1, 1, 4])]))"
proof -
  have shape: "check_shape_vars example_task [8] = Inr ()"
    by (simp add: check_shape_vars_def example_task_simps)
  have grids: "map_err (state_grid_size ceil_utils [8]) (take 1 [Some (split_state 3 [1, 1, 1])])
      = Inr [3]"
    by (simp add: example_grid_sizes)
  have pens: "map_err (state_padding_penalty ceil_utils [8])
      (take 1 [Some (split_state 3 [1, 1, 4])]) = Inr [Finite (3 / 4)]"
    by (simp add: example_padding)
  have glb: "array_at (glbmem_sm_partition (hardware_api example_task)) 0 = Inr 1"
    and smem: "array_at (smem_sm_partition (hardware_api example_task)) 1 = Inr 2"
    by (simp_all add: array_at_def example_task_simps example_hw_def)
  have top: "size_t_of (floor_div ceil_utils (int (fold max [3] 0)) 1) = 3"
    and first: "size_t_of 2 = 2"
    and mult: "sm_multiple ceil_utils 1 ([3] ! 0) = 3"
    by (simp_all add: sm_multiple_def size_t_of_def ceil_utils_simps)
  have pen: "occupancy_penalty ceil_utils example_task 3 = Finite (3 / 4)"
    by (rule example_occupancy_penalty)
  have occ: "OccupancyFilter ceil_utils example_task [ratio_config 128 [1, 1]]
       [Some (split_state 3 [1, 1, 1])] [8]
     = Some (Inr ([ratio_config 128 [1, 1]], [Some (split_state 3 [1, 1, 1])]))"
  proof -
    have "\<exists>k kept. k \<le> 4 \<and> kept \<noteq> [] \<and>
            OccupancyFilter ceil_utils example_task [ratio_config 128 [1, 1]]
                [Some (split_state 3 [1, 1, 1])] [8] =
              Some (Inr (map (fst \<circ> snd) kept, map (snd \<circ> snd) kept)) \<and>
            occupancy_pass ceil_utils example_task 1 2 3
                [(3, ratio_config 128 [1, 1], Some (split_state 3 [1, 1, 1]))] k = Some kept"
      using relaxation_loops_return [of example_task "[8]" "[ratio_config 128 [1, 1]]"
          "[Some (split_state 3 [1, 1, 1])]" ceil_utils "[3]" 1 2 0 4, OF shape,
          THEN conjunct1]
        grids glb smem top first mult pen
      by (simp add: occupancy_ratio_4 fp_gt_def) blast
    then obtain k kept where k: "k \<le> 4" "kept \<noteq> []"
      and r: "OccupancyFilter ceil_utils example_task [ratio_config 128 [1, 1]]
                [Some (split_state 3 [1, 1, 1])] [8] =
              Some (Inr (map (fst \<circ> snd) kept, map (snd \<circ> snd) kept))"
      and p: "occupancy_pass ceil_utils example_task 1 2 3
                [(3, ratio_config 128 [1, 1], Some (split_state 3 [1, 1, 1]))] k = Some kept"
      by blast
    from up_to_four [OF k(1)] p k(2)
    have "kept = [(3, ratio_config 128 [1, 1], Some (split_state 3 [1, 1, 1]))]"
      by (auto simp: example_relaxed_pass)
    with r show ?thesis by simp
  qed
  have pad: "padding_relax ceil_utils example_task [ratio_config 128 [1, 1]]
       [Some (split_state 3 [1, 1, 4])] [8] 0
     = Some (Inr ([ratio_config 128 [1, 1]], [Some (split_state 3 [1, 1, 4])]))"
  proof -
    have "\<exists>k cs ss. k \<le> 4 \<and> cs \<noteq> [] \<and>
            padding_relax ceil_utils example_task [ratio_config 128 [1, 1]]
                [Some (split_state 3 [1, 1, 4])] [8] 0 = Some (Inr (cs, ss)) \<and>
            PaddingFilter ceil_utils example_task [ratio_config 128 [1, 1]]
                [Some (split_state 3 [1, 1, 4])] [8] (padding_threshold k) = Inr (cs, ss)"
      using relaxation_loops_return [of example_task "[8]" "[ratio_config 128 [1, 1]]"
          "[Some (split_state 3 [1, 1, 4])]" ceil_utils _ _ _ _ _ "[Finite (3 / 4)]" 0 4,
          OF shape, THEN conjunct2, THEN conjunct1]
        pens
      by (simp add: padding_threshold_4 fp_gt_def) blast
    then obtain k cs ss where k: "k \<le> 4" "cs \<noteq> []"
      and r: "padding_relax ceil_utils example_task [ratio_config 128 [1, 1]]
                [Some (split_state 3 [1, 1, 4])] [8] 0 = Some (Inr (cs, ss))"
      and p: "PaddingFilter ceil_utils example_task [ratio_config 128 [1, 1]]
                [Some (split_state 3 [1, 1, 4])] [8] (padding_threshold k) = Inr (cs, ss)"
      by blast
    from up_to_four [OF k(1)] p k(2)
    have "cs = [ratio_config 128 [1, 1]] \<and> ss = [Some (split_state 3 [1, 1, 4])]"
      by (auto simp: example_relaxed_padding)
    with r show ?thesis by simp
  qed
  show ?thesis
    using shape grids top first mult pen occ pens pad
    by (simp add: occupancy_ratio_3 occupancy_ratio_4 padding_threshold_3 padding_threshold_4)
qed

text \<open>
  C3 as stated fails: with one config whose grid gives SM multiple 1 and
  \<^verbatim>\<open>smem_sm_partition[1] = 2\<close> the window is empty, no pass ever pushes anything, and
  the outer loop of \<^verbatim>\<open>OccupancyFilter\<close> never returns.
\<close>

theorem OccupancyFilter_never_returns:
  "OccupancyFilter ceil_utils example_task [ratio_config 128 [1, 1]]
     [Some (split_state 8 [1, 1, 8])] [8] = None"
proof -
  have "occupancy_pass ceil_utils example_task 1 2 1 graded k = Some []"
    for k and graded :: "(nat \<times> HwAlignedConfig \<times> State option) list"
    by (simp add: occupancy_pass_def example_window)
  then have "occupancy_while (occupancy_pass ceil_utils example_task 1 2 1
      [(1, ratio_config 128 [1, 1], Some (split_state 8 [1, 1, 8]))]) [] 0 = None"
    by (rule occupancy_while_diverges)
  then show ?thesis
    by (simp add: OccupancyFilter_def check_shape_vars_def example_task_simps example_hw_def
        example_grid_sizes array_at_def size_t_of_def ceil_utils_simps)
qed

subsection \<open>Order of the survivors\<close>

text \<open>
  C4 (as amended). \<^verbatim>\<open>ThreadsNumberFilter\<close>, \<^verbatim>\<open>RegisterLaunchBoundsFilter\<close>,
  \<^verbatim>\<open>SharedMemoryLaunchBoundsFilter\<close> and \<^verbatim>\<open>PaddingFilter\<close> return their survivors in
  input order. \<^verbatim>\<open>OccupancyFilter\<close> returns its survivors by ascending SM multiple, in
  input order within one multiple. The two compute-intensity filters return the first 20
  (10) configs of the input sorted by descending ratio, each with its own state.
\<close>

theorem filters_survivor_order:
  assumes "sort_contract std_sort"
  shows "(ThreadsNumberFilter task cs ss = Inr (cs1, ss1)
            \<longrightarrow> subseq (zip cs1 ss1) (zip cs ss)) \<and>
         (RegisterLaunchBoundsFilter U task cs ss inst = Inr (cs2, ss2)
            \<longrightarrow> subseq (zip cs2 ss2) (zip cs ss)) \<and>
         (SharedMemoryLaunchBoundsFilter U task cs ss inst = Inr (cs3, ss3)
            \<longrightarrow> subseq (zip cs3 ss3) (zip cs ss)) \<and>
         (PaddingFilter U task cs ss inst thr = Inr (cs4, ss4)
            \<longrightarrow> subseq (zip cs4 ss4) (zip cs ss)) \<and>
         (OccupancyFilter U task cs ss inst = Some (Inr (cs5, ss5))
            \<longrightarrow> (\<exists>grids glb0 kept.
                   map_err (state_grid_size U inst) (take (length cs) ss) = Inr grids \<and>
                   array_at (glbmem_sm_partition (hardware_api task)) 0 = Inr glb0 \<and>
                   cs5 = map (fst \<circ> snd) kept \<and> ss5 = map (snd \<circ> snd) kept \<and>
                   sorted (map (\<lambda>gp. sm_multiple U glb0 (fst gp)) kept) \<and>
                   (\<forall>t. subseq (filter (\<lambda>gp. sm_multiple U glb0 (fst gp) = t) kept)
                          (zip grids (zip cs ss))))) \<and>
         (length ss = length cs \<and>
          SharedMemoryComputeIntensiveFilter std_sort task cs ss = Inr (cs6, ss6)
            \<longrightarrow> length cs6 = min 20 (length cs) \<and>
                sorted_wrt (\<lambda>a b. compute_intensive_ratio b ! 0 \<le> compute_intensive_ratio a ! 0) cs6 \<and>
                mset (zip cs6 ss6) \<subseteq># mset (zip cs ss)) \<and>
         (length ss = length cs \<and>
          RegComputeIntensiveFilter std_sort task cs ss inst = Inr (cs7, ss7)
            \<longrightarrow> length cs7 = min 10 (length cs) \<and>
                sorted_wrt (\<lambda>a b. compute_intensive_ratio b ! 1 \<le> compute_intensive_ratio a ! 1) cs7 \<and>
                mset (zip cs7 ss7) \<subseteq># mset (zip cs ss))"
proof -
  have six: "length cs6 = min 20 (length cs) \<and>
        sorted_wrt (\<lambda>a b. compute_intensive_ratio b ! 0 \<le> compute_intensive_ratio a ! 0) cs6 \<and>
        mset (zip cs6 ss6) \<subseteq># mset (zip cs ss)"
    if "length ss = length cs"
      "SharedMemoryComputeIntensiveFilter std_sort task cs ss = Inr (cs6, ss6)"
    using top_by_ratio_order [OF assms that(1)] that(2)
    unfolding SharedMemoryComputeIntensiveFilter_def by blast
  have seven: "length cs7 = min 10 (length cs) \<and>
        sorted_wrt (\<lambda>a b. compute_intensive_ratio b ! 1 \<le> compute_intensive_ratio a ! 1) cs7 \<and>
        mset (zip cs7 ss7) \<subseteq># mset (zip cs ss)"
    if "length ss = length cs"
      "RegComputeIntensiveFilter std_sort task cs ss inst = Inr (cs7, ss7)"
    using top_by_ratio_order [OF assms that(1)] that(2)
    unfolding RegComputeIntensiveFilter_def by blast
  have five: "\<exists>grids glb0 kept.
                   map_err (state_grid_size U inst) (take (length cs) ss) = Inr grids \<and>
                   array_at (glbmem_sm_partition (hardware_api task)) 0 = Inr glb0 \<and>
                   cs5 = map (fst \<circ> snd) kept \<and> ss5 = map (snd \<circ> snd) kept \<and>
                   sorted (map (\<lambda>gp. sm_multiple U glb0 (fst gp)) kept) \<and>
                   (\<forall>t. subseq (filter (\<lambda>gp. sm_multiple U glb0 (fst gp) = t) kept)
                          (zip grids (zip cs ss)))"
    if "OccupancyFilter U task cs ss inst = Some (Inr (cs5, ss5))"
    using that by (rule OccupancyFilter_order)
  show ?thesis
  proof (intro conjI impI)
    show "subseq (zip cs1 ss1) (zip cs ss)" if "ThreadsNumberFilter task cs ss = Inr (cs1, ss1)"
      using that by (rule ThreadsNumberFilter_subseq)
    show "subseq (zip cs2 ss2) (zip cs ss)"
      if "RegisterLaunchBoundsFilter U task cs ss inst = Inr (cs2, ss2)"
      using that by (rule RegisterLaunchBoundsFilter_subseq)
    show "subseq (zip cs3 ss3) (zip cs ss)"
      if "SharedMemoryLaunchBoundsFilter U task cs ss inst = Inr (cs3, ss3)"
      using that by (rule SharedMemoryLaunchBoundsFilter_subseq)
    show "subseq (zip cs4 ss4) (zip cs ss)"
      if "PaddingFilter U task cs ss inst thr = Inr (cs4, ss4)"
      using that by (rule PaddingFilter_subseq)
  qed (use five six seven in blast)+
qed

theorem filters_survivor_order_witness:
  "sort_contract (sort_desc :: (HwAlignedConfig \<times> nat \<Rightarrow> real) \<Rightarrow> _) \<and>
   ThreadsNumberFilter example_task [ratio_config 128 [1, 1], ratio_config 256 [2, 2]]
       [Some (split_state 8 [1, 1, 2]), Some (split_state 8 [1, 2, 2])] =
     Inr ([ratio_config 128 [1, 1], ratio_config 256 [2, 2]],
          [Some (split_state 8 [1, 1, 2]), Some (split_state 8 [1, 2, 2])]) \<and>
   RegisterLaunchBoundsFilter ceil_utils example_task
       [ratio_config 128 [1, 1], ratio_config 256 [2, 2]]
       [Some (split_state 8 [1, 1, 2]), Some (split_state 8 [1, 2, 2])] [8] =
     Inr ([ratio_config 128 [1, 1], ratio_config 256 [2, 2]],
          [Some (split_state 8 [1, 1, 2]), Some (split_state 8 [1, 2, 2])]) \<and>
   SharedMemoryLaunchBoundsFilter ceil_utils example_task
       [ratio_config 128 [1, 1], ratio_config 256 [2, 2]]
       [Some (split_state 8 [1, 1, 2]), Some (split_state 8 [1, 2, 2])] [8] =
     Inr ([ratio_config 128 [1, 1], ratio_config 256 [2, 2]],
          [Some (split_state 8 [1, 1, 2]), Some (split_state 8 [1, 2, 2])]) \<and>
   PaddingFilter ceil_utils example_task [ratio_config 128 [1, 1], ratio_config 256 [2, 2]]
       [Some (split_state 8 [1, 1, 2]), Some (split_state 8 [1, 2, 2])] [8] (padding_threshold 0) =
     Inr ([ratio_config 128 [1, 1], ratio_config 256 [2, 2]],
          [Some (split_state 8 [1, 1, 2]), Some (split_state 8 [1, 2, 2])]) \<and>
   OccupancyFilter ceil_utils example_task [ratio_config 128 [1, 1], ratio_config 256 [2, 2]]
       [Some (split_state 8 [1, 1, 2]), Some (split_state 8 [1, 2, 2])] [8] =
     Some (Inr ([ratio_config 256 [2, 2], ratio_config 128 [1, 1]],
                [Some (split_state 8 [1, 2, 2]), Some (split_state 8 [1, 1, 2])])) \<and>
   SharedMemoryComputeIntensiveFilter sort_desc example_task
       [ratio_config 128 [1, 1], ratio_config 256 [2, 2]]
       [Some (split_state 8 [1, 1, 2]), Some (split_state 8 [1, 2, 2])] =
     Inr ([ratio_config 256 [2, 2], ratio_config 128 [1, 1]],
          [Some (split_state 8 [1, 2, 2]), Some (split_state 8 [1, 1, 2])]) \<and>
   RegComputeIntensiveFilter sort_desc example_task
       [ratio_config 128 [1, 1], ratio_config 256 [2, 2]]
       [Some (split_state 8 [1, 1, 2]), Some (split_state 8 [1, 2, 2])] [8] =
     Inr ([ratio_config 256 [2, 2], ratio_config 128 [1, 1]],
          [Some (split_state 8 [1, 2, 2]), Some (split_state 8 [1, 1, 2])]) \<and>
   mset (zip [ratio_config 256 [2, 2], ratio_config 128 [1, 1]]
             [Some (split_state 8 [1, 2, 2]), Some (split_state 8 [1, 1, 2])])
     \<subseteq># mset (zip [ratio_config 128 [1, 1], ratio_config 256 [2, 2]]
                  [Some (split_state 8 [1, 1, 2]), Some (split_state 8 [1, 2, 2])])"
  using filters_survivor_order [OF sort_desc_contract,
      of example_task "[ratio_config 128 [1, 1], ratio_config 256 [2, 2]]"
        "[Some (split_state 8 [1, 1, 2]), Some (split_state 8 [1, 2, 2])]"
        "[ratio_config 128 [1, 1], ratio_config 256 [2, 2]]"
        "[Some (split_state 8 [1, 1, 2]), Some (split_state 8 [1, 2, 2])]"
        ceil_utils "[8]"
        "[ratio_config 128 [1, 1], ratio_config 256 [2, 2]]"
        "[Some (split_state 8 [1, 1, 2]), Some (split_state 8 [1, 2, 2])]"
        "[ratio_config 128 [1, 1], ratio_config 256 [2, 2]]"
        "[Some (split_state 8 [1, 1, 2]), Some (split_state 8 [1, 2, 2])]"
        "padding_threshold 0"
        "[ratio_config 128 [1, 1], ratio_config 256 [2, 2]]"
        "[Some (split_state 8 [1, 1, 2]), Some (split_state 8 [1, 2, 2])]"
        "[ratio_config 256 [2, 2], ratio_config 128 [1, 1]]"
        "[Some (split_state 8 [1, 2, 2]), Some (split_state 8 [1, 1, 2])]"
        "[ratio_config 256 [2, 2], ratio_config 128 [1, 1]]"
        "[Some (split_state 8 [1, 2, 2]), Some (split_state 8 [1, 1, 2])]"
        "[ratio_config 256 [2, 2], ratio_config 128 [1, 1]]"
        "[Some (split_state 8 [1, 2, 2]), Some (split_state 8 [1, 1, 2])]"]
    sort_desc_contract ex_threads ex_reg ex_smem ex_padding ex_occ ex_smemci ex_regci
  by simp

text \<open>
  C4 as stated fails for three of the seven filters. On two candidates whose SM multiples
  are 4 and 2, and whose ratios are 1 and 2, \<^verbatim>\<open>OccupancyFilter\<close> and both
  compute-intensity filters return the second candidate before the first.
\<close>

theorem filters_reorder:
  "OccupancyFilter ceil_utils example_task [ratio_config 128 [1, 1], ratio_config 256 [2, 2]]
       [Some (split_state 8 [1, 1, 2]), Some (split_state 8 [1, 2, 2])] [8] =
     Some (Inr ([ratio_config 256 [2, 2], ratio_config 128 [1, 1]],
                [Some (split_state 8 [1, 2, 2]), Some (split_state 8 [1, 1, 2])])) \<and>
   SharedMemoryComputeIntensiveFilter sort_desc example_task
       [ratio_config 128 [1, 1], ratio_config 256 [2, 2]]
       [Some (split_state 8 [1, 1, 2]), Some (split_state 8 [1, 2, 2])] =
     Inr ([ratio_config 256 [2, 2], ratio_config 128 [1, 1]],
          [Some (split_state 8 [1, 2, 2]), Some (split_state 8 [1, 1, 2])]) \<and>
   RegComputeIntensiveFilter sort_desc example_task
       [ratio_config 128 [1, 1], ratio_config 256 [2, 2]]
       [Some (split_state 8 [1, 1, 2]), Some (split_state 8 [1, 2, 2])] [8] =
     Inr ([ratio_config 256 [2, 2], ratio_config 128 [1, 1]],
          [Some (split_state 8 [1, 2, 2]), Some (split_state 8 [1, 1, 2])]) \<and>
   \<not> subseq (zip [ratio_config 256 [2, 2], ratio_config 128 [1, 1]]
                [Some (split_state 8 [1, 2, 2]), Some (split_state 8 [1, 1, 2])])
             (zip [ratio_config 128 [1, 1], ratio_config 256 [2, 2]]
                [Some (split_state 8 [1, 1, 2]), Some (split_state 8 [1, 2, 2])])"
  using ex_occ ex_smemci ex_regci not_sub by simp

section \<open>Properties of EvolutionarySearch\<close>

subsection \<open>The heap keeps the best entries\<close>






subsection \<open>Bounds, sorting and the mutation loop\<close>















subsection \<open>Concrete runs of the evolutionary search\<close>


subsection \<open>What one mutation attempt contributes\<close>




subsection \<open>The best states of a single generation\<close>





section \<open>Properties of SampleInitPopulation\<close>









section \<open>Properties of the search-task constructor\<close>

text \<open>Both checks sit behind a test of the moved-from handle, so neither is ever made.\<close>

lemma SearchTask_ctor_accepts:
  "SearchTask_ctor defaults (Some cores) hw vars insts weights =
     Inr \<lparr>hardware_api = hw, num_cores = cores, shape_vars = vars,
          wkl_insts = (case insts of Some is \<Rightarrow> is | None \<Rightarrow> []),
          wkl_inst_weights = (case weights of Some ws \<Rightarrow> ws | None \<Rightarrow> [])\<rparr>"
  by (simp add: SearchTask_ctor_def moved_from_def)

text \<open>
  C7. A task with shape variables should be constructed only if the workload instances
  and the instance weights are present too (and equal in number), and be rejected fatally
  otherwise. The constructor accepts a task with the shape variable \<open>T\<close> and neither
  instances nor weights: the node gets the shape variables and two empty lists. It also
  accepts two instances with one weight.
\<close>

theorem SearchTask_ctor_accepts_missing_instances:
  "SearchTask_ctor (Inl NoValue) (Some 80) example_hw (Some [''T'']) None None =
     Inr \<lparr>hardware_api = example_hw, num_cores = 80, shape_vars = Some [''T''],
          wkl_insts = [], wkl_inst_weights = []\<rparr> \<and>
   SearchTask_ctor (Inl NoValue) (Some 80) example_hw (Some [''T''])
       (Some [[64], [128]]) (Some [1]) =
     Inr \<lparr>hardware_api = example_hw, num_cores = 80, shape_vars = Some [''T''],
          wkl_insts = [[64], [128]], wkl_inst_weights = [1]\<rparr>"
  by (simp add: SearchTask_ctor_accepts)

section \<open>Properties of GenerateSketches\<close>

subsection \<open>The addresses of the objects do not matter\<close>

lemma renamed_emit:
  assumes R: "renamed r st st'" and a: "a \<in> set (live st)"
    and f: "new (live st) \<notin> set (live st)" and f': "new' (live st') \<notin> set (live st')"
  shows "\<exists>r'. renamed r' (emit new a pair st) (emit new' (r a) pair st') \<and>
              (\<forall>c \<in> set (live st). r' c = r c) \<and>
              set (live st) \<subseteq> set (live (emit new a pair st))"
proof -
  obtain obj sid where pair: "pair = (obj, sid)" by (cases pair)
  from R have inj: "inj_on r (set (live st))"
    and lv: "live st' = map r (live st)"
    and same: "\<And>c. c \<in> set (live st) \<Longrightarrow>
                 content st' (r c) = content st c \<and>
                 cur_stage_id_map st' (r c) = cur_stage_id_map st c"
    and nx: "pnext_states st' = map r (pnext_states st)"
    and sub: "set (pnext_states st) \<subseteq> set (live st)"
    and out: "out_sketches st' = out_sketches st"
    unfolding renamed_def by auto
  show ?thesis
  proof (cases obj)
    case Given
    have "renamed r (emit new a pair st) (emit new' (r a) pair st')"
      unfolding renamed_def pair Given emit_def
      using inj lv same nx sub out a
      by (auto simp: inj_on_def)
    then show ?thesis
      by (intro exI [of _ r]) (simp add: pair Given emit_def)
  next
    case (Made s)
    define b where "b = new (live st)"
    define b' where "b' = new' (live st')"
    define r' where "r' = r(b := b')"
    have b: "b \<notin> set (live st)" unfolding b_def by (rule f)
    have b': "b' \<notin> r ` set (live st)" using f' unfolding b'_def lv by simp
    have agree: "r' c = r c" if "c \<in> set (live st)" for c
      using that b by (auto simp: r'_def)
    have other: "r c \<noteq> b'" if "c \<in> set (live st)" for c
      using that b' by auto
    have notb: "c \<noteq> b" if "c \<in> set (live st)" for c
      using that b by auto
    have inj': "inj_on r' (set (live st @ [b]))"
    proof -
      have "inj_on r' (set (live st))"
        using inj agree by (auto simp: inj_on_def)
      moreover have "r' b \<notin> r' ` (set (live st) - {b})"
        using b' agree by (auto simp: r'_def)
      ultimately show ?thesis by (simp add: inj_on_insert)
    qed
    have m1: "map r' (live st) = map r (live st)"
      using agree by (intro map_cong) auto
    have m2: "map r' (pnext_states st) = map r (pnext_states st)"
      using agree sub by (intro map_cong) auto
    have rb: "r' b = b'" by (simp add: r'_def)
    have "renamed r' (emit new a pair st) (emit new' (r a) pair st')"
      unfolding renamed_def pair Made emit_def Let_def b_def [symmetric] b'_def [symmetric]
      using inj' same nx sub out lv m1 m2 rb agree other notb
      by auto
    moreover have "set (live st) \<subseteq> set (live (emit new a pair st))"
      by (auto simp: pair Made emit_def Let_def)
    ultimately show ?thesis using agree by (intro exI [of _ r']) simp
  qed
qed

lemma renamed_emits:
  assumes fresh: "\<forall>used. new used \<notin> set used" "\<forall>used. new' used \<notin> set used"
  shows "renamed r st st' \<Longrightarrow> a \<in> set (live st) \<Longrightarrow>
         \<exists>r'. renamed r' (fold (emit new a) pairs st) (fold (emit new' (r a)) pairs st') \<and>
              (\<forall>c \<in> set (live st). r' c = r c) \<and>
              set (live st) \<subseteq> set (live (fold (emit new a) pairs st))"
proof (induction pairs arbitrary: r st st')
  case Nil
  then show ?case by auto
next
  case (Cons pair pairs)
  from renamed_emit [OF Cons.prems(1,2), of new new' pair] fresh
  obtain r1 where r1: "renamed r1 (emit new a pair st) (emit new' (r a) pair st')"
    and ag1: "\<forall>c \<in> set (live st). r1 c = r c"
    and mono1: "set (live st) \<subseteq> set (live (emit new a pair st))"
    by blast
  from mono1 Cons.prems(2) have a1: "a \<in> set (live (emit new a pair st))" by auto
  from Cons.IH [OF r1 a1] obtain r2 where
    r2: "renamed r2 (fold (emit new a) pairs (emit new a pair st))
           (fold (emit new' (r1 a)) pairs (emit new' (r a) pair st'))"
    and ag2: "\<forall>c \<in> set (live (emit new a pair st)). r2 c = r1 c"
    and mono2: "set (live (emit new a pair st))
                  \<subseteq> set (live (fold (emit new a) pairs (emit new a pair st)))"
    by blast
  have "r1 a = r a" using ag1 Cons.prems(2) by simp
  with r2 ag1 ag2 mono1 mono2 show ?case
    by (intro exI [of _ r2]) auto
qed

lemma renamed_try_rules:
  assumes fresh: "\<forall>used. new used \<notin> set used" "\<forall>used. new' used \<notin> set used"
  shows "\<forall>rule \<in> set rules. \<forall>state sid.
             MeetCondition rule p state sid = MeetCondition rule p' state sid \<and>
             SketchApply rule p state sid = SketchApply rule p' state sid \<Longrightarrow>
         renamed r st st' \<Longrightarrow> a \<in> set (live st) \<Longrightarrow>
         \<exists>r'. renamed r' (try_rules new rules p a state sid st)
                 (try_rules new' rules p' (r a) state sid st') \<and>
              (\<forall>c \<in> set (live st). r' c = r c) \<and>
              set (live st) \<subseteq> set (live (try_rules new rules p a state sid st))"
proof (induction rules arbitrary: r st st')
  case Nil
  then show ?case by auto
next
  case (Cons rule rules)
  from Cons.prems(1) have m: "MeetCondition rule p' state sid = MeetCondition rule p state sid"
    and ap: "SketchApply rule p' state sid = SketchApply rule p state sid"
    and rest: "\<forall>rule \<in> set rules. \<forall>state sid.
             MeetCondition rule p state sid = MeetCondition rule p' state sid \<and>
             SketchApply rule p state sid = SketchApply rule p' state sid"
    by simp_all
  from renamed_emits [OF fresh Cons.prems(2,3), of "SketchApply rule p state sid"]
  obtain r1 where r1: "renamed r1 (fold (emit new a) (SketchApply rule p state sid) st)
                         (fold (emit new' (r a)) (SketchApply rule p state sid) st')"
    and ag1: "\<forall>c \<in> set (live st). r1 c = r c"
    and mono1: "set (live st) \<subseteq> set (live (fold (emit new a) (SketchApply rule p state sid) st))"
    by blast
  show ?case
  proof (cases "MeetCondition rule p state sid")
    case kSkip
    with Cons.IH [OF rest Cons.prems(2,3)] m show ?thesis by simp
  next
    case kApply
    from mono1 Cons.prems(3)
    have a1: "a \<in> set (live (fold (emit new a) (SketchApply rule p state sid) st))" by auto
    from Cons.IH [OF rest r1 a1] obtain r2 where
      r2: "renamed r2
             (try_rules new rules p a state sid
                (fold (emit new a) (SketchApply rule p state sid) st))
             (try_rules new' rules p' (r1 a) state sid
                (fold (emit new' (r a)) (SketchApply rule p state sid) st'))"
      and ag2: "\<forall>c \<in> set (live (fold (emit new a) (SketchApply rule p state sid) st)). r2 c = r1 c"
      and mono2: "set (live (fold (emit new a) (SketchApply rule p state sid) st))
                    \<subseteq> set (live (try_rules new rules p a state sid
                                   (fold (emit new a) (SketchApply rule p state sid) st)))"
      by blast
    have "r1 a = r a" using ag1 Cons.prems(3) by simp
    with r2 ag1 ag2 mono1 mono2 kApply m ap show ?thesis
      by (intro exI [of _ r2]) auto
  next
    case kApplyAndSkipRest
    with r1 ag1 mono1 m ap show ?thesis
      by (intro exI [of _ r1]) auto
  qed
qed

lemma renamed_visit:
  assumes fresh: "\<forall>used. new used \<notin> set used" "\<forall>used. new' used \<notin> set used"
    and alike: "\<forall>rule \<in> set rules. \<forall>state sid.
             MeetCondition rule p state sid = MeetCondition rule p' state sid \<and>
             SketchApply rule p state sid = SketchApply rule p' state sid"
    and R: "renamed r st st'" and a: "a \<in> set (live st)"
  shows "\<exists>r'. renamed r' (visit new rules p a st) (visit new' rules p' (r a) st') \<and>
              (\<forall>c \<in> set (live st). r' c = r c) \<and>
              set (live st) \<subseteq> set (live (visit new rules p a st))"
proof -
  from R a have c: "content st' (r a) = content st a"
    and s: "cur_stage_id_map st' (r a) = cur_stage_id_map st a"
    unfolding renamed_def by auto
  show ?thesis
  proof (cases "cur_stage_id_map st a < 0")
    case True
    have "renamed r (st\<lparr>out_sketches := out_sketches st @ [content st a]\<rparr>)
            (st'\<lparr>out_sketches := out_sketches st' @ [content st a]\<rparr>)"
      using R unfolding renamed_def by simp
    with True c s show ?thesis
      by (intro exI [of _ r]) (simp add: visit_def)
  next
    case False
    with renamed_try_rules [OF fresh alike R a, of "content st a" "cur_stage_id_map st a"] c s
    show ?thesis by (simp add: visit_def)
  qed
qed

lemma renamed_visits:
  assumes fresh: "\<forall>used. new used \<notin> set used" "\<forall>used. new' used \<notin> set used"
    and alike: "\<forall>rule \<in> set rules. \<forall>state sid.
             MeetCondition rule p state sid = MeetCondition rule p' state sid \<and>
             SketchApply rule p state sid = SketchApply rule p' state sid"
  shows "renamed r st st' \<Longrightarrow> set xs \<subseteq> set (live st) \<Longrightarrow>
         \<exists>r'. renamed r' (fold (visit new rules p) xs st)
                 (fold (visit new' rules p') (map r xs) st') \<and>
              (\<forall>c \<in> set (live st). r' c = r c) \<and>
              set (live st) \<subseteq> set (live (fold (visit new rules p) xs st))"
proof (induction xs arbitrary: r st st')
  case Nil
  then show ?case by auto
next
  case (Cons a xs)
  from Cons.prems(2) have a: "a \<in> set (live st)" and xs: "set xs \<subseteq> set (live st)" by auto
  from renamed_visit [OF fresh alike Cons.prems(1) a] obtain r1 where
    r1: "renamed r1 (visit new rules p a st) (visit new' rules p' (r a) st')"
    and ag1: "\<forall>c \<in> set (live st). r1 c = r c"
    and mono1: "set (live st) \<subseteq> set (live (visit new rules p a st))"
    by blast
  from xs mono1 have xs1: "set xs \<subseteq> set (live (visit new rules p a st))" by auto
  from Cons.IH [OF r1 xs1] obtain r2 where
    r2: "renamed r2 (fold (visit new rules p) xs (visit new rules p a st))
           (fold (visit new' rules p') (map r1 xs) (visit new' rules p' (r a) st'))"
    and ag2: "\<forall>c \<in> set (live (visit new rules p a st)). r2 c = r1 c"
    and mono2: "set (live (visit new rules p a st))
                  \<subseteq> set (live (fold (visit new rules p) xs (visit new rules p a st)))"
    by blast
  have "map r1 xs = map r xs" using ag1 xs by (intro map_cong) auto
  with r2 ag1 ag2 mono1 mono2 show ?case
    by (intro exI [of _ r2]) auto
qed

lemma renamed_wave:
  assumes fresh: "\<forall>used. new used \<notin> set used" "\<forall>used. new' used \<notin> set used"
    and alike: "\<forall>rule \<in> set rules. \<forall>state sid.
             MeetCondition rule p state sid = MeetCondition rule p' state sid \<and>
             SketchApply rule p state sid = SketchApply rule p' state sid"
    and R: "renamed r st st'" and sub: "set xs \<subseteq> set (live st)"
  shows "\<exists>r'. renamed r' (expand_wave new rules p xs st)
                 (expand_wave new' rules p' (map r xs) st')"
proof -
  have "renamed r (st\<lparr>pnext_states := []\<rparr>) (st'\<lparr>pnext_states := []\<rparr>)"
    using R unfolding renamed_def by simp
  from renamed_visits [OF fresh alike this, of xs] sub show ?thesis
    unfolding expand_wave_def by auto
qed

lemma sketch_while_renamed:
  assumes fresh: "\<forall>used. new used \<notin> set used" "\<forall>used. new' used \<notin> set used"
    and alike: "\<forall>rule \<in> set rules. \<forall>state sid.
             MeetCondition rule p state sid = MeetCondition rule p' state sid \<and>
             SketchApply rule p state sid = SketchApply rule p' state sid"
    and run: "sketch_while (expand_wave new rules p) xs st = Some finished"
    and R: "renamed r st st'" and sub: "set xs \<subseteq> set (live st)"
  shows "sketch_while (expand_wave new' rules p') (map r xs) st' = Some finished"
proof -
  have "W = expand_wave new rules p \<longrightarrow>
        (\<forall>r st'. renamed r st st' \<longrightarrow> set xs \<subseteq> set (live st) \<longrightarrow>
           sketch_while (expand_wave new' rules p') (map r xs) st' = Some finished)"
    if "sketch_while W xs st = Some finished" for W
    using that
  proof (rule sketch_while.raw_induct
      [where P = "\<lambda>W xs st finished. W = expand_wave new rules p \<longrightarrow>
        (\<forall>r st'. renamed r st st' \<longrightarrow> set xs \<subseteq> set (live st) \<longrightarrow>
           sketch_while (expand_wave new' rules p') (map r xs) st' = Some finished)", rotated])
    fix loop :: "(address list \<Rightarrow> sketching \<Rightarrow> sketching) \<Rightarrow> address list \<Rightarrow> sketching \<Rightarrow>
                 State list option"
      and W xs st finished
    assume ih: "\<And>W xs st finished. loop W xs st = Some finished \<Longrightarrow>
        W = expand_wave new rules p \<longrightarrow>
        (\<forall>r st'. renamed r st st' \<longrightarrow> set xs \<subseteq> set (live st) \<longrightarrow>
           sketch_while (expand_wave new' rules p') (map r xs) st' = Some finished)"
      and step: "(if xs \<noteq> [] then loop W (pnext_states (W xs st)) (W xs st)
                  else Some (out_sketches st)) = Some finished"
    show "W = expand_wave new rules p \<longrightarrow>
        (\<forall>r st'. renamed r st st' \<longrightarrow> set xs \<subseteq> set (live st) \<longrightarrow>
           sketch_while (expand_wave new' rules p') (map r xs) st' = Some finished)"
    proof (intro impI allI)
      fix r st'
      assume W: "W = expand_wave new rules p" and R: "renamed r st st'"
        and sub: "set xs \<subseteq> set (live st)"
      show "sketch_while (expand_wave new' rules p') (map r xs) st' = Some finished"
      proof (cases "xs = []")
        case True
        with step have "finished = out_sketches st" by simp
        moreover from R have "out_sketches st' = out_sketches st" unfolding renamed_def by simp
        ultimately show ?thesis using True by (subst sketch_while.simps) simp
      next
        case False
        with step have l: "loop W (pnext_states (W xs st)) (W xs st) = Some finished" by simp
        from renamed_wave [OF fresh alike R sub] obtain r1 where
          r1: "renamed r1 (W xs st) (expand_wave new' rules p' (map r xs) st')"
          unfolding W by blast
        then have nx: "pnext_states (expand_wave new' rules p' (map r xs) st')
                         = map r1 (pnext_states (W xs st))"
          and sub1: "set (pnext_states (W xs st)) \<subseteq> set (live (W xs st))"
          unfolding renamed_def by simp_all
        from ih [OF l] W r1 sub1
        have "sketch_while (expand_wave new' rules p') (map r1 (pnext_states (W xs st)))
                (expand_wave new' rules p' (map r xs) st') = Some finished"
          by blast
        then show ?thesis using False nx by (subst sketch_while.simps) simp
      qed
    qed
  qed
  with run R sub show ?thesis by blast
qed

lemma GenerateSketches_addresses:
  assumes fresh: "\<forall>used. new used \<notin> set used" "\<forall>used. new' used \<notin> set used"
    and alike: "\<forall>rule \<in> set rules. \<forall>state sid.
             MeetCondition rule p state sid = MeetCondition rule p' state sid \<and>
             SketchApply rule p state sid = SketchApply rule p' state sid"
    and run: "sketch_while (expand_wave new rules p) [new []]
                \<lparr>live = [new []], content = (\<lambda>b. init_state),
                 cur_stage_id_map = (\<lambda>b. 0)(new [] := n),
                 pnext_states = [], out_sketches = []\<rparr> = Some finished"
  shows "sketch_while (expand_wave new' rules p') [new' []]
                \<lparr>live = [new' []], content = (\<lambda>b. init_state),
                 cur_stage_id_map = (\<lambda>b. 0)(new' [] := n),
                 pnext_states = [], out_sketches = []\<rparr> = Some finished"
proof -
  have "renamed (\<lambda>a. new' [])
          \<lparr>live = [new []], content = (\<lambda>b. init_state),
           cur_stage_id_map = (\<lambda>b. 0)(new [] := n), pnext_states = [], out_sketches = []\<rparr>
          \<lparr>live = [new' []], content = (\<lambda>b. init_state),
           cur_stage_id_map = (\<lambda>b. 0)(new' [] := n), pnext_states = [], out_sketches = []\<rparr>"
    unfolding renamed_def by simp
  from sketch_while_renamed [OF fresh alike run this] show ?thesis by simp
qed


lemma fold_max_upper: "x \<in> set xs \<Longrightarrow> x \<le> fold max xs (n :: nat)"
proof (induction xs arbitrary: n)
  case Nil
  then show ?case by simp
next
  case (Cons y ys)
  have mono: "m \<le> fold max ys m" for m :: nat
    by (induction ys arbitrary: m) (auto intro: order_trans [OF max.cobounded2])
  show ?case
  proof (cases "x = y")
    case True
    have "x \<le> max y n" using True by simp
    also have "\<dots> \<le> fold max ys (max y n)" by (rule mono)
    finally show ?thesis by simp
  next
    case False
    with Cons.prems have "x \<in> set ys" by simp
    from Cons.IH [OF this] show ?thesis by simp
  qed
qed

lemma next_address_fresh: "next_address used \<notin> set used"
proof
  assume "next_address used \<in> set used"
  from fold_max_upper [OF this, of 0] show False by (simp add: next_address_def)
qed

lemma even_address_fresh: "even_address used \<notin> set used"
proof
  assume "even_address used \<in> set used"
  from fold_max_upper [OF this, of 0] show False by (simp add: even_address_def)
qed

subsection \<open>Concrete runs\<close>

text \<open>
  With two rules that both hand back the state they were given, the frontier holds one
  object twice. At stage 0 the first visit moves the object's working position to \<open>-1\<close>,
  so the second visit finds the object finished: two stages give three sketches, not four.
\<close>

lemma example_shared_object:
  "GenerateSketches next_address [skip_stage_rule, skip_stage_rule] p
       \<lparr>transform_steps = [], stages_size = 2\<rparr> =
     Some (Inr [\<lparr>transform_steps = [], stages_size = 2\<rparr>,
                \<lparr>transform_steps = [], stages_size = 2\<rparr>,
                \<lparr>transform_steps = [], stages_size = 2\<rparr>])"
  by (simp add: GenerateSketches_def sketch_while.simps expand_wave_def visit_def emit_def
      skip_stage_rule_def rfactor_hack_def next_address_def Let_def)

lemma example_sketches:
  "GenerateSketches next_address [add_rfactor_rule, skip_stage_rule] p
       \<lparr>transform_steps = [], stages_size = 2\<rparr> =
     Some (Inr [\<lparr>transform_steps = [SplitStep 0 0 (\<lambda>inst. Some 8) [None] True, RfactorStep],
                 stages_size = 2\<rparr>])"
  by (simp add: GenerateSketches_def sketch_while.simps expand_wave_def visit_def emit_def
      add_rfactor_rule_def skip_stage_rule_def rfactor_hack_def next_address_def Let_def)

text \<open>
  The result does depend on the new objects being new. If the runtime handed out the
  address of a live object, the new state would take the place of the old one in the map:
\<close>

lemma example_reused_address:
  "GenerateSketches next_address [fork_rule] p \<lparr>transform_steps = [], stages_size = 1\<rparr> =
     Some (Inr [\<lparr>transform_steps = [OtherStep], stages_size = 1\<rparr>,
                \<lparr>transform_steps = [], stages_size = 1\<rparr>])"
  "GenerateSketches stuck_address [fork_rule] p \<lparr>transform_steps = [], stages_size = 1\<rparr> =
     Some (Inr [\<lparr>transform_steps = [OtherStep], stages_size = 1\<rparr>,
                \<lparr>transform_steps = [OtherStep], stages_size = 1\<rparr>])"
  by (simp_all add: GenerateSketches_def sketch_while.simps expand_wave_def visit_def emit_def
      fork_rule_def rfactor_hack_def next_address_def stuck_address_def Let_def)

text \<open>
  C8. \<^verbatim>\<open>GenerateSketches\<close> draws no random number and reads nothing but the rule list (in
  its order), the initial state and what the rules read. Its map of working positions is
  keyed by the identity of the state objects, but the result does not depend on where the
  runtime places them: for any two ways of choosing the address of a new object that
  never hand out an address in use, and any two policy states under which the rules answer
  alike, two invocations on the same initial state give the same result (the same
  sketches in the same order, hence the same set of sketches; the same failure; or no
  result in both).
\<close>

theorem GenerateSketches_deterministic:
  assumes "\<forall>used. new_object used \<notin> set used"
    and "\<forall>used. new_object' used \<notin> set used"
    and "\<forall>rule \<in> set sketch_rules. \<forall>state sid.
             MeetCondition rule p state sid = MeetCondition rule p' state sid \<and>
             SketchApply rule p state sid = SketchApply rule p' state sid"
  shows "GenerateSketches new_object sketch_rules p init_state
           = GenerateSketches new_object' sketch_rules p' init_state"
proof -
  define start where "start = (\<lambda>a :: address.
     \<lparr>live = [a], content = (\<lambda>b. init_state),
      cur_stage_id_map = (\<lambda>b. 0)(a := int (stages_size init_state) - 1),
      pnext_states = [], out_sketches = []\<rparr>)"
  define left where "left = sketch_while (expand_wave new_object sketch_rules p)
     [new_object []] (start (new_object []))"
  define right where "right = sketch_while (expand_wave new_object' sketch_rules p')
     [new_object' []] (start (new_object' []))"
  have swapped: "\<forall>rule \<in> set sketch_rules. \<forall>state sid.
             MeetCondition rule p' state sid = MeetCondition rule p state sid \<and>
             SketchApply rule p' state sid = SketchApply rule p state sid"
    using assms(3) by simp
  have forth: "right = Some finished" if "left = Some finished" for finished
    using GenerateSketches_addresses [OF assms(1,2,3)] that
    unfolding left_def right_def start_def by blast
  have again: "left = Some finished" if "right = Some finished" for finished
    using GenerateSketches_addresses [OF assms(2,1) swapped] that
    unfolding left_def right_def start_def by blast
  have "left = right"
  proof (cases left)
    case None
    show ?thesis
    proof (cases right)
      case None
      with \<open>left = None\<close> show ?thesis by simp
    next
      case (Some finished)
      from again [OF this] None show ?thesis by simp
    qed
  next
    case (Some finished)
    from forth [OF this] Some show ?thesis by simp
  qed
  then show ?thesis
    unfolding GenerateSketches_def Let_def left_def right_def start_def by simp
qed

theorem GenerateSketches_deterministic_witness:
  "(\<forall>used. next_address used \<notin> set used) \<and>
   (\<forall>used. even_address used \<notin> set used) \<and>
   (\<forall>state sid.
      MeetCondition add_rfactor_rule (tape_policy [3, 1, 4]) state sid
        = MeetCondition add_rfactor_rule (tape_policy []) state sid \<and>
      SketchApply add_rfactor_rule (tape_policy [3, 1, 4]) state sid
        = SketchApply add_rfactor_rule (tape_policy []) state sid \<and>
      MeetCondition skip_stage_rule (tape_policy [3, 1, 4]) state sid
        = MeetCondition skip_stage_rule (tape_policy []) state sid \<and>
      SketchApply skip_stage_rule (tape_policy [3, 1, 4]) state sid
        = SketchApply skip_stage_rule (tape_policy []) state sid) \<and>
   GenerateSketches next_address [add_rfactor_rule, skip_stage_rule] (tape_policy [3, 1, 4])
       \<lparr>transform_steps = [], stages_size = 2\<rparr> =
     Some (Inr [\<lparr>transform_steps = [SplitStep 0 0 (\<lambda>inst. Some 8) [None] True, RfactorStep],
                 stages_size = 2\<rparr>]) \<and>
   GenerateSketches even_address [add_rfactor_rule, skip_stage_rule] (tape_policy [])
       \<lparr>transform_steps = [], stages_size = 2\<rparr> =
     Some (Inr [\<lparr>transform_steps = [SplitStep 0 0 (\<lambda>inst. Some 8) [None] True, RfactorStep],
                 stages_size = 2\<rparr>]) \<and>
   GenerateSketches next_address [skip_stage_rule, skip_stage_rule] (tape_policy [3, 1, 4])
       \<lparr>transform_steps = [], stages_size = 2\<rparr> =
     Some (Inr [\<lparr>transform_steps = [], stages_size = 2\<rparr>,
                \<lparr>transform_steps = [], stages_size = 2\<rparr>,
                \<lparr>transform_steps = [], stages_size = 2\<rparr>]) \<and>
   GenerateSketches even_address [skip_stage_rule, skip_stage_rule] (tape_policy [])
       \<lparr>transform_steps = [], stages_size = 2\<rparr> =
     Some (Inr [\<lparr>transform_steps = [], stages_size = 2\<rparr>,
                \<lparr>transform_steps = [], stages_size = 2\<rparr>,
                \<lparr>transform_steps = [], stages_size = 2\<rparr>])"
proof -
  have rules: "MeetCondition add_rfactor_rule (tape_policy [3, 1, 4]) state sid
        = MeetCondition add_rfactor_rule (tape_policy []) state sid \<and>
      SketchApply add_rfactor_rule (tape_policy [3, 1, 4]) state sid
        = SketchApply add_rfactor_rule (tape_policy []) state sid \<and>
      MeetCondition skip_stage_rule (tape_policy [3, 1, 4]) state sid
        = MeetCondition skip_stage_rule (tape_policy []) state sid \<and>
      SketchApply skip_stage_rule (tape_policy [3, 1, 4]) state sid
        = SketchApply skip_stage_rule (tape_policy []) state sid" for state sid
    by (simp add: add_rfactor_rule_def skip_stage_rule_def)
  have fresh: "\<forall>used. next_address used \<notin> set used" "\<forall>used. even_address used \<notin> set used"
    by (simp_all add: next_address_fresh even_address_fresh)
  have one: "GenerateSketches even_address [add_rfactor_rule, skip_stage_rule] (tape_policy [])
       \<lparr>transform_steps = [], stages_size = 2\<rparr> =
     Some (Inr [\<lparr>transform_steps = [SplitStep 0 0 (\<lambda>inst. Some 8) [None] True, RfactorStep],
                 stages_size = 2\<rparr>])"
    using GenerateSketches_deterministic [OF fresh,
        of "[add_rfactor_rule, skip_stage_rule]" "tape_policy [3, 1, 4]" "tape_policy []"
          "\<lparr>transform_steps = [], stages_size = 2\<rparr>"] rules
    by (simp add: example_sketches)
  have two: "GenerateSketches even_address [skip_stage_rule, skip_stage_rule] (tape_policy [])
       \<lparr>transform_steps = [], stages_size = 2\<rparr> =
     Some (Inr [\<lparr>transform_steps = [], stages_size = 2\<rparr>,
                \<lparr>transform_steps = [], stages_size = 2\<rparr>,
                \<lparr>transform_steps = [], stages_size = 2\<rparr>])"
    using GenerateSketches_deterministic [OF fresh,
        of "[skip_stage_rule, skip_stage_rule]" "tape_policy [3, 1, 4]" "tape_policy []"
          "\<lparr>transform_steps = [], stages_size = 2\<rparr>"] rules
    by (simp add: example_shared_object)
  show ?thesis
    using rules fresh one two by (simp add: example_sketches example_shared_object)
qed

section \<open>Properties of the final dispatch\<close>

text \<open>No pass of the loop changes the flag that the loop tests, so one pass is all there is.\<close>

lemma fold_err_invariant:
  assumes "fold_err f xs acc = Inr acc'"
    and "P acc"
    and "\<And>x a a'. f x a = Inr a' \<Longrightarrow> P a \<Longrightarrow> P a'"
  shows "P acc'"
  using assms(1,2)
proof (induction xs arbitrary: acc)
  case Nil
  then show ?case by simp
next
  case (Cons x xs)
  then show ?case using assms(3) by (auto split: sum.splits)
qed

lemma check_build_flag:
  assumes "check_build task row wkl_inst_ids build_results inst_i d = Inr d'"
  shows "changed_adapted_candidate_flops d' = changed_adapted_candidate_flops d
         \<and> made d' = made d"
  using assms
  by (auto simp add: check_build_def Let_def split: sum.splits if_splits)

lemma dispatch_pass_flag:
  assumes "dispatch_pass A task measured throughputs ms wkl_inst_ids d = Inr d'"
  shows "changed_adapted_candidate_flops d' = changed_adapted_candidate_flops d
         \<and> made d' = made d @ [Called_Build]"
proof -
  obtain disp_map selected selected_flops inst_predicted_flops where
    m: "MapWklInstsToStates A (dispatch A (adapted_candidate_flops d) (length measured))
          measured throughputs (wkl_insts task) (adapted_candidate_flops d)
        = (disp_map, selected, selected_flops, inst_predicted_flops)"
    by (metis prod_cases4)
  from assms obtain disp_map1 test_inputs where
    t: "fold_err (test_input task selected) wkl_inst_ids (disp_map, []) = Inr (disp_map1, test_inputs)"
    unfolding dispatch_pass_def m by (auto split: sum.splits)
  define d0 where "d0 = d\<lparr>inst_id_disp_map := disp_map1, selected_candidate_states := selected,
                           next_wkl_inst_ids := [], made := made d @ [Called_Build]\<rparr>"
  from assms have
    f: "fold_err (check_build task (length measured) wkl_inst_ids (Build A ms test_inputs))
          [0..<length wkl_inst_ids] d0 = Inr d'"
    unfolding dispatch_pass_def m d0_def using t
    by (auto simp add: Let_def split: sum.splits if_splits)
  show ?thesis
    by (rule fold_err_invariant [OF f, where P = "\<lambda>x. changed_adapted_candidate_flops x = changed_adapted_candidate_flops d \<and> made x = made d @ [Called_Build]"])
       (simp add: d0_def, use check_build_flag in metis)
qed

lemma dispatch_do_while_once:
  assumes "\<not> changed_adapted_candidate_flops d"
  shows "dispatch_do_while (dispatch_pass A task measured throughputs ms wkl_inst_ids) d
         = Some (dispatch_pass A task measured throughputs ms wkl_inst_ids d)"
  using assms dispatch_pass_flag [of A task measured throughputs ms wkl_inst_ids d]
  by (subst dispatch_do_while.simps) (auto split: sum.splits)

lemma final_dispatch_once:
  "final_dispatch A task measured throughputs ms calls =
     Some (case adapted_scores A task measured throughputs of
             Inl e \<Rightarrow> Inl e
           | Inr adapted \<Rightarrow>
               (case dispatch_pass A task measured throughputs ms [0..<length (wkl_insts task)]
                       (dispatch_start adapted calls) of
                  Inl e \<Rightarrow> Inl e
                | Inr d \<Rightarrow> Inr ((selected_candidate_states d, inst_id_disp_map d),
                                 calls @ [Called_Build])))"
proof (cases "adapted_scores A task measured throughputs")
  case (Inl e)
  then show ?thesis by (simp add: final_dispatch_def)
next
  case (Inr adapted)
  let ?d0 = "dispatch_start adapted calls :: 'a dispatching"
  let ?ids = "[0..<length (wkl_insts task)]"
  have once: "dispatch_do_while (dispatch_pass A task measured throughputs ms ?ids) ?d0
              = Some (dispatch_pass A task measured throughputs ms ?ids ?d0)"
    by (rule dispatch_do_while_once) (simp add: dispatch_start_def)
  show ?thesis
  proof (cases "dispatch_pass A task measured throughputs ms ?ids ?d0")
    case (Inl e)
    then show ?thesis by (simp add: final_dispatch_def \<open>adapted_scores A task measured throughputs = Inr adapted\<close> once)
  next
    case pass: (Inr d)
    have "made d = calls @ [Called_Build]"
      using dispatch_pass_flag [OF pass] by (simp add: dispatch_start_def)
    then show ?thesis
      by (simp add: final_dispatch_def \<open>adapted_scores A task measured throughputs = Inr adapted\<close> once pass)
  qed
qed

subsection \<open>A run with a failed build\<close>

lemma three_instances_simps:
  "wkl_insts three_instances = [[64], [128], [256]]"
  "shape_vars three_instances = Some [''T'']"
  by (simp_all add: three_instances_def example_task_def)

lemma example_measurement_simps:
  "AdaptStateToWorkload (example_measurement failing) s inst throughput = throughput"
  "dispatch (example_measurement failing) = top1_dispatch"
  "MapWklInstsToStates (example_measurement failing) = by_instance"
  "Build (example_measurement failing) ms test_inputs =
     map (\<lambda>(s, inst). \<lparr>error_no = (if inst \<in> set failing then 1 else 0)\<rparr>) test_inputs"
  by (simp_all add: example_measurement_def)

lemma upt_3: "[0..<3] = [0, 1, 2]"
  by (simp add: upt_rec)

lemma example_adapted_scores:
  "adapted_scores (example_measurement failing) three_instances [''a'', ''b'', ''c'']
     [Finite 30, Finite 20, Finite 10]
   = Inr [Finite 30, Finite 20, Finite 10, Finite 30, Finite 20, Finite 10,
          Finite 30, Finite 20, Finite 10]"
  by (simp add: adapted_scores_def three_instances_simps example_measurement_simps upt_3
      adapt_one_def vector_at_def array_at_def write_at_def eval_nat_numeral)

lemma example_top_state: "top_state [Finite 30, Finite 20, Finite 10] = 0"
  by (simp add: top_state_def)

lemma example_top1:
  "top1_dispatch [Finite 30, Finite 20, Finite 10, Finite 30, Finite 20, Finite 10,
                  Finite 30, Finite 20, Finite 10] 3
   = [(0, 0), (1, 0), (2, 0)]"
  by (simp add: top1_dispatch_def upt_3 example_top_state)

lemma example_pass:
  "dispatch_pass (example_measurement [[256]]) three_instances [''a'', ''b'', ''c'']
     [Finite 30, Finite 20, Finite 10] () [0, 1, 2]
     (dispatch_start [Finite 30, Finite 20, Finite 10, Finite 30, Finite 20, Finite 10,
                      Finite 30, Finite 20, Finite 10] [])
   = Inr \<lparr>adapted_candidate_flops =
            [Finite 30, Finite 20, Finite 10, Finite 30, Finite 20, Finite 10,
             Finite 30, Finite 20, Finite 0],
          changed_adapted_candidate_flops = False,
          next_wkl_inst_ids = [2],
          inst_id_disp_map = [(0, 0), (1, 1), (2, 2)],
          selected_candidate_states = [''a'', ''a'', ''a''],
          made = [Called_Build]\<rparr>"
  by (simp add: dispatch_pass_def dispatch_start_def example_measurement_simps
      example_top1 [unfolded numeral_3_eq_3]
      three_instances_simps by_instance_def upt_3 lookup_def touch_def test_input_def
      vector_at_def array_at_def write_at_def check_build_def Let_def)

text \<open>
  C1. In the final dispatch of \<^verbatim>\<open>Search\<close> for a dynamic task, a failed build should set the
  adapted score of the failing state for that instance to 0, mark the instance for
  re-dispatch, and repeat dispatch and build check until no instance needs re-dispatch;
  after a build failure on instance 2 the next pass should select another state for
  instance 2. The run below has three measured states \<open>a\<close>, \<open>b\<close>, \<open>c\<close> with throughputs 30,
  20 and 10, three instances, and a builder that fails on instance 2. The code makes one
  pass and one call of the builder and returns: instance 2 stays with state \<open>a\<close>, whose
  build failed. In that pass instance 2 is put into \<^verbatim>\<open>next_wkl_inst_ids\<close>, the flag
  \<^verbatim>\<open>changed_adapted_candidate_flops\<close> stays false, and the 0 is written at position
  \<open>2 * 3 + 2\<close> of the table, which is the score of state \<open>c\<close> for instance 2, while the score
  of the failing state \<open>a\<close> at position \<open>2 * 3 + 0\<close> is still 30.
\<close>

theorem final_dispatch_keeps_failed_state:
  "final_dispatch (example_measurement [[256]]) three_instances [''a'', ''b'', ''c'']
     [Finite 30, Finite 20, Finite 10] () []
   = Some (Inr (([''a'', ''a'', ''a''], [(0, 0), (1, 1), (2, 2)]), [Called_Build]))
   \<and> dispatch_pass (example_measurement [[256]]) three_instances [''a'', ''b'', ''c'']
       [Finite 30, Finite 20, Finite 10] () [0, 1, 2]
       (dispatch_start [Finite 30, Finite 20, Finite 10, Finite 30, Finite 20, Finite 10,
                        Finite 30, Finite 20, Finite 10] [])
     = Inr \<lparr>adapted_candidate_flops =
              [Finite 30, Finite 20, Finite 10, Finite 30, Finite 20, Finite 10,
               Finite 30, Finite 20, Finite 0],
            changed_adapted_candidate_flops = False,
            next_wkl_inst_ids = [2],
            inst_id_disp_map = [(0, 0), (1, 1), (2, 2)],
            selected_candidate_states = [''a'', ''a'', ''a''],
            made = [Called_Build]\<rparr>"
proof (intro conjI)
  have ids: "[0..<length (wkl_insts three_instances)] = [0, 1, 2]"
    by (simp add: three_instances_simps upt_3)
  show "final_dispatch (example_measurement [[256]]) three_instances [''a'', ''b'', ''c'']
          [Finite 30, Finite 20, Finite 10] () []
        = Some (Inr (([''a'', ''a'', ''a''], [(0, 0), (1, 1), (2, 2)]), [Called_Build]))"
    unfolding final_dispatch_once example_adapted_scores ids sum.case example_pass
    by simp
qed (rule example_pass)

section \<open>Properties of Search\<close>

subsection \<open>Two concrete rounds\<close>

lemma schedule_simps:
  "ToStr (schedule_collaborators scores) s = map step_letter (transform_steps s)"
  "InferBound (schedule_collaborators scores) ss = ss"
  "PruneInvalidState (schedule_collaborators scores) ss = ss"
  "Predict (schedule_collaborators scores) m ss = scores"
  "IsRandomModel (schedule_collaborators scores) m = False"
  "draw (schedule_collaborators scores) = tape_draw"
  "mt19937 (schedule_collaborators scores) seed = []"
  "sort_heap (schedule_collaborators scores) = sort_desc"
  "make_object (schedule_collaborators scores) = next_address"
  by (simp_all add: schedule_collaborators_def)

lemma factored_str: "map step_letter (transform_steps factored) = ''SR''"
  by (simp add: factored_def step_letter_def)

lemma example_round_sampling:
  assumes "rand_gen policy = []" and "sample_init_min_pop policy = 1"
  shows "SampleInitPopulation (schedule_collaborators [1, 1]) [] example_params policy [factored]
         = Some (Inr ([factored], policy\<lparr>rand_gen := [], sample_init_min_pop := 1\<rparr>))"
  by (simp add: SampleInitPopulation_def sampling_start_def example_params_def assms
      eval_nat_numeral schedule_simps tape_draw_def sample_while.simps sample_wave_def
      sample_slot_def factored_str Let_def)


lemma example_round_evolution:
  assumes "program_cost_model policy = ()"
  shows "EvolutionarySearch ceil_utils (schedule_collaborators [1, 1]) [] example_params False 0
           policy [factored] 2
         = Some (Inr ((if ''SR'' \<in> measured_states_set policy then [] else [factored]),
                      policy\<lparr>rand_gen := rand_gen policy\<rparr>))"
  by (simp add: EvolutionarySearch_def example_params_def schedule_simps offer_generation_def
      score_generation_def maintain_heap_def factored_str Let_def)


lemma double_1_5: "to_double (1 / 5) = Finite (3602879701896397 / 18014398509481984)"
proof -
  have "rne ((1 / 5) / 2 powi ((- 3) - int 53 + 1)) = 7205759403792794"
    by (rule rne_near) (simp add: power_int_minus field_simps)
  from round_to_eval [where e = "- 3" and p = 53 and emax = 1023 and x = "1 / 5", OF _ _ _ this]
  show ?thesis by (simp add: to_double_def power_int_minus)
qed

lemma double_2_5: "to_double (3602879701896397 / 9007199254740992) = Finite (3602879701896397 / 9007199254740992)"
  using round_to_exact [of "3602879701896397" 53 1023 "- 53"]
  by (simp add: to_double_def power_int_minus)

lemma example_use_measured: "double_times_int (1 / 5) 2 = 0"
  by (simp add: double_times_int_def double_1_5 double_2_5 to_int_def)

lemma double_29_100: "to_double (29 / 100) = Finite (5224175567749775 / 18014398509481984)"
proof -
  have "rne ((29 / 100) / 2 powi ((- 2) - int 53 + 1)) = 5224175567749775"
    by (rule rne_near) (simp add: power_int_minus field_simps)
  from round_to_eval [where e = "- 2" and p = 53 and emax = 1023 and x = "29 / 100", OF _ _ _ this]
  show ?thesis by (simp add: to_double_def power_int_minus)
qed

lemma double_29: "to_double (130604389193744375 / 4503599627370496) = Finite (8162774324609023 / 281474976710656)"
proof -
  have "rne ((130604389193744375 / 4503599627370496) / 2 powi (4 - int 53 + 1)) = 8162774324609023"
    by (rule rne_near) (simp add: power_int_minus field_simps)
  from round_to_eval [where e = "4" and p = 53 and emax = 1023 and x = "130604389193744375 / 4503599627370496", OF _ _ _ this]
  show ?thesis by (simp add: to_double_def power_int_minus)
qed

text \<open>
  The product is rounded before it is truncated: 0.29 is stored as a \<^verbatim>\<open>double\<close> just
  below 0.29, its product with 100 rounds to the \<^verbatim>\<open>double\<close> just below 29, and the
  conversion gives 28.
\<close>

lemma example_truncated_product: "double_times_int (29 / 100) 100 = 28"
  by (simp add: double_times_int_def double_29_100 double_29 to_int_def)

lemma example_params_simps:
  "population example_params = 2"
  "use_measured_ratio example_params = 1 / 5"
  "eps_greedy example_params = 1 / 20"
  "empty_retry_count example_params = 1"
  "num_iters example_params = 0"
  by (simp_all add: example_params_def)

lemma two_stages_sketches:
  "GenerateSketches next_address [add_rfactor_rule, skip_stage_rule] p two_stages
     = Some (Inr [factored])"
  by (simp add: GenerateSketches_def sketch_while.simps expand_wave_def visit_def emit_def
      add_rfactor_rule_def skip_stage_rule_def rfactor_hack_def two_stages_def factored_def
      next_address_def Let_def)

lemma example_round_fresh:
  "SearchOneRound ceil_utils (schedule_collaborators [1, 1]) (example_measurement [])
     [add_rfactor_rule, skip_stage_rule] [] [] example_params False 0 two_stages
     (fresh_policy\<lparr>num_measure_per_iter := 1\<rparr>) 0 None
   = Some (Inr ([factored], None,
                fresh_policy\<lparr>num_measure_per_iter := 1, sketch_cache := [factored]\<rparr>))"
  by (simp add: SearchOneRound_def schedule_simps(9) two_stages_sketches example_round_sampling
      example_round_evolution fresh_policy_def tape_policy_def example_params_simps example_use_measured Let_def)

lemma example_round_spent:
  "SearchOneRound ceil_utils (schedule_collaborators [1, 1]) (example_measurement [])
     [add_rfactor_rule, skip_stage_rule] [] [] example_params False 0 two_stages
     (spent_policy\<lparr>num_measure_per_iter := 1\<rparr>) 0 None
   = Some (Inr ([], None, spent_policy\<lparr>num_measure_per_iter := 1\<rparr>))"
  by (simp add: SearchOneRound_def example_round_sampling
      example_round_evolution spent_policy_def fresh_policy_def tape_policy_def
      example_params_simps example_use_measured Let_def)


lemma static_task_simps:
  "wkl_insts static_task = []"
  by (simp add: static_task_def)

lemma SampleInitPopulation_keeps:
  assumes "SampleInitPopulation E init_rules params policy sketches = Some (Inr (sampled, policy'))"
  shows "program_cost_model policy' = program_cost_model policy"
  using assms by (auto simp add: SampleInitPopulation_def split: option.splits sum.splits)

lemma EvolutionarySearch_keeps:
  assumes "EvolutionarySearch U E mutation_rules params is_dyn num_insts policy init_population
             out_size = Some (Inr (best, policy'))"
  shows "program_cost_model policy' = program_cost_model policy"
  using assms
  by (auto simp add: EvolutionarySearch_def Let_def split: option.splits sum.splits if_splits)

lemma SearchOneRound_keeps:
  assumes "SearchOneRound U E A sketch_rules init_rules mutation_rules params is_dyn num_insts
             init_state policy num_random_states random_states
           = Some (Inr (best, random, policy'))"
  shows "program_cost_model policy' = program_cost_model policy"
  using assms unfolding SearchOneRound_def Let_def
  by (auto split: option.splits sum.splits if_splits prod.splits
      dest!: SampleInitPopulation_keeps EvolutionarySearch_keeps)

lemma example_round_fresh_static:
  "SearchOneRound ceil_utils (schedule_collaborators [1, 1]) (example_measurement [])
     [add_rfactor_rule, skip_stage_rule] [] [] example_params False
     (length (wkl_insts static_task)) two_stages
     (fresh_policy\<lparr>num_measure_per_iter := 1\<rparr>) 0 None
   = Some (Inr ([factored], None,
                fresh_policy\<lparr>num_measure_per_iter := 1, sketch_cache := [factored]\<rparr>))"
  by (simp add: static_task_simps example_round_fresh)

text \<open>
  C10. A call of \<^verbatim>\<open>Search\<close> with \<open>n_trials \<le> 1\<close> runs one search round (with the given
  \<open>num_measure_per_iter\<close>, no random states asked for). If the round returns at least one
  state, the call returns exactly the first state of the round, which is its best, with
  an empty dispatch map; if the round returns no state, the call fails the check
  \<^verbatim>\<open>ICHECK_GT(best_states.size(), 0)\<close>. Whenever the call returns, it has made no call of
  the measurer, the builder or the cost model's update (the list of calls is empty), and
  the measurer and the cost model are as they were.
\<close>

theorem Search_without_measurement:
  assumes "trials \<le> 1"
  shows "(\<forall>best random policy1.
            SearchOneRound U E A sketch_rules init_rules mutation_rules params is_dyn
              (length (wkl_insts task)) init_state
              (policy\<lparr>num_measure_per_iter := measure_per_iter\<rparr>) 0 None
            = Some (Inr (best, random, policy1)) \<longrightarrow>
            Search U E A sketch_rules init_rules mutation_rules params task is_dyn init_state
              policy ms trials early_stopping measure_per_iter
            = Some (if best = [] then Inl CheckFailed
                    else Inr (([best ! 0], []), policy1, ms, [])))
       \<and> (\<forall>chosen policy1 ms1 calls.
            Search U E A sketch_rules init_rules mutation_rules params task is_dyn init_state
              policy ms trials early_stopping measure_per_iter
            = Some (Inr (chosen, policy1, ms1, calls)) \<longrightarrow>
            (\<exists>best random.
               SearchOneRound U E A sketch_rules init_rules mutation_rules params is_dyn
                 (length (wkl_insts task)) init_state
                 (policy\<lparr>num_measure_per_iter := measure_per_iter\<rparr>) 0 None
               = Some (Inr (best, random, policy1)) \<and>
               best \<noteq> [] \<and> chosen = ([best ! 0], [])) \<and>
            ms1 = ms \<and> calls = [] \<and>
            program_cost_model policy1 = program_cost_model policy)"
proof (intro conjI allI impI)
  fix best random policy1
  assume "SearchOneRound U E A sketch_rules init_rules mutation_rules params is_dyn
              (length (wkl_insts task)) init_state
              (policy\<lparr>num_measure_per_iter := measure_per_iter\<rparr>) 0 None
            = Some (Inr (best, random, policy1))"
  then show "Search U E A sketch_rules init_rules mutation_rules params task is_dyn init_state
              policy ms trials early_stopping measure_per_iter
            = Some (if best = [] then Inl CheckFailed
                    else Inr (([best ! 0], []), policy1, ms, []))"
    using assms by (simp add: Search_def)
next
  fix chosen policy1 ms1 calls
  assume ret: "Search U E A sketch_rules init_rules mutation_rules params task is_dyn init_state
              policy ms trials early_stopping measure_per_iter
            = Some (Inr (chosen, policy1, ms1, calls))"
  then obtain best random where
    r: "SearchOneRound U E A sketch_rules init_rules mutation_rules params is_dyn
          (length (wkl_insts task)) init_state
          (policy\<lparr>num_measure_per_iter := measure_per_iter\<rparr>) 0 None
        = Some (Inr (best, random, policy1))"
    and rest: "best \<noteq> []" "chosen = ([best ! 0], [])" "ms1 = ms" "calls = []"
    using assms
    by (auto simp add: Search_def split: option.splits sum.splits if_splits)
  from r rest(1,2)
  show "\<exists>best random.
               SearchOneRound U E A sketch_rules init_rules mutation_rules params is_dyn
                 (length (wkl_insts task)) init_state
                 (policy\<lparr>num_measure_per_iter := measure_per_iter\<rparr>) 0 None
               = Some (Inr (best, random, policy1)) \<and>
               best \<noteq> [] \<and> chosen = ([best ! 0], [])"
    by blast
  show "ms1 = ms" by (rule rest)
  show "calls = []" by (rule rest)
  show "program_cost_model policy1 = program_cost_model policy"
    using SearchOneRound_keeps [OF r] by simp
qed

theorem Search_without_measurement_witness:
  "(1 :: int) \<le> 1 \<and>
   SearchOneRound ceil_utils (schedule_collaborators [1, 1]) (example_measurement [])
     [add_rfactor_rule, skip_stage_rule] [] [] example_params False
     (length (wkl_insts static_task)) two_stages
     (fresh_policy\<lparr>num_measure_per_iter := 1\<rparr>) 0 None
   = Some (Inr ([factored], None,
                fresh_policy\<lparr>num_measure_per_iter := 1, sketch_cache := [factored]\<rparr>)) \<and>
   Search ceil_utils (schedule_collaborators [1, 1]) (example_measurement [])
     [add_rfactor_rule, skip_stage_rule] [] [] example_params static_task False two_stages
     fresh_policy () 1 (- 1) 1
   = Some (Inr (([factored], []),
                fresh_policy\<lparr>num_measure_per_iter := 1, sketch_cache := [factored]\<rparr>, (), []))"
proof -
  have le: "(1 :: int) \<le> 1" by simp
  have "Search ceil_utils (schedule_collaborators [1, 1]) (example_measurement [])
     [add_rfactor_rule, skip_stage_rule] [] [] example_params static_task False two_stages
     fresh_policy () 1 (- 1) 1
   = Some (if [factored] = [] then Inl CheckFailed
           else Inr (([[factored] ! 0], []),
                fresh_policy\<lparr>num_measure_per_iter := 1, sketch_cache := [factored]\<rparr>, (), []))"
    by (rule Search_without_measurement [OF le, THEN conjunct1, rule_format,
          OF example_round_fresh_static])
  then show ?thesis
    using example_round_fresh_static by simp
qed

theorem Search_fails_on_empty_round:
  "Search ceil_utils (schedule_collaborators [1, 1]) (example_measurement [])
     [add_rfactor_rule, skip_stage_rule] [] [] example_params static_task False two_stages
     spent_policy () 1 (- 1) 1
   = Some (Inl CheckFailed)"
  by (simp add: Search_def static_task_simps example_round_spent)

end
